theory Spec2Isabelle
  imports Main "HOL-Library.Multiset" "HOL-Library.AList"
begin

chapter \<open>ralph-task: the reconciliation planner and its identity machinery\<close>

text \<open>
  A shallow embedding of the TypeScript sources \<^verbatim>\<open>story-id.ts\<close>, \<^verbatim>\<open>sync-state.ts\<close>,
  \<^verbatim>\<open>sync-engine.ts\<close> and \<^verbatim>\<open>sync-with-state.ts\<close>.  JavaScript strings are modelled as
  \<^typ>\<open>string\<close>: a list of code units, of which only the range of \<^typ>\<open>char\<close> is
  represented.  Exceptions are values of a sum type, \<^verbatim>\<open>Map\<close> and \<^verbatim>\<open>Set\<close> objects are
  association lists and duplicate-free lists in insertion order, and the logger is left
  out (it only prints).
\<close>

section \<open>What the platform provides\<close>

text \<open>
  Three functions of the JavaScript runtime are not part of the repository and are taken
  as parameters of the model: \<^verbatim>\<open>String.prototype.localeCompare\<close> (negative, zero or
  positive), \<^verbatim>\<open>Date.parse\<close> (\<open>None\<close> stands for \<^verbatim>\<open>NaN\<close>) and the SHA-256 hex digest
  behind \<^verbatim>\<open>hashText\<close>.
\<close>

record Platform =
  localeCompare :: "string \<Rightarrow> string \<Rightarrow> int"
  dateParse :: "string \<Rightarrow> int option"
  sha256hex :: "string \<Rightarrow> string"

section \<open>String helpers of the runtime\<close>

definition is_digit :: "char \<Rightarrow> bool" where
  "is_digit c = (c \<in> set ''0123456789'')"

text \<open>Line terminators (not matched by \<^verbatim>\<open>.\<close>) and the white space removed by \<^verbatim>\<open>trim()\<close>.\<close>

definition is_line_terminator :: "char \<Rightarrow> bool" where
  "is_line_terminator c = (c = CHR 0x0A \<or> c = CHR 0x0D)"

definition is_js_space :: "char \<Rightarrow> bool" where
  "is_js_space c = (c \<in> set [CHR 0x09, CHR 0x0A, CHR 0x0B, CHR 0x0C, CHR 0x0D, CHR 0x20, CHR 0xA0])"

definition trim :: "string \<Rightarrow> string" where
  "trim s = rev (dropWhile is_js_space (rev (dropWhile is_js_space s)))"

definition startsWith :: "string \<Rightarrow> string \<Rightarrow> bool" where
  "startsWith s p = (take (length p) s = p)"

fun join :: "string \<Rightarrow> string list \<Rightarrow> string" where
  "join sep [] = []"
| "join sep [x] = x"
| "join sep (x # y # ys) = x @ sep @ join sep (y # ys)"

text \<open>
  \<^verbatim>\<open>value.split(search)\<close> for a non-empty \<^verbatim>\<open>search\<close>: \<open>skip\<close> counts the code units of
  an occurrence still to be passed over, \<open>acc\<close> is the current piece, reversed.
\<close>

fun split_go :: "string \<Rightarrow> nat \<Rightarrow> string \<Rightarrow> string \<Rightarrow> string list" where
  "split_go sep skip acc [] = [rev acc]"
| "split_go sep skip acc (c # cs) =
     (if 0 < skip then split_go sep (skip - 1) acc cs
      else if startsWith (c # cs) sep then rev acc # split_go sep (length sep - 1) [] cs
      else split_go sep 0 (c # acc) cs)"

definition split :: "string \<Rightarrow> string \<Rightarrow> string list" where
  "split s sep = split_go sep 0 [] s"

text \<open>\<^verbatim>\<open>const replaceAll = (value, search, replacement) => value.split(search).join(replacement)\<close>\<close>

definition replaceAll :: "string \<Rightarrow> string \<Rightarrow> string \<Rightarrow> string" where
  "replaceAll v search replacement = join replacement (split v search)"

text \<open>
  \<^verbatim>\<open>text.matchAll(regex)\<close> for a global regular expression, given as the function that
  tells how many code units the expression matches at the start of a string: the matched
  texts from left to right, each search resuming where the last match ended.
\<close>

fun matchAll_go :: "(string \<Rightarrow> nat option) \<Rightarrow> nat \<Rightarrow> string \<Rightarrow> string list" where
  "matchAll_go m skip [] = (if 0 < skip then [] else (case m [] of None \<Rightarrow> [] | Some n \<Rightarrow> [[]]))"
| "matchAll_go m skip (c # cs) =
     (if 0 < skip then matchAll_go m (skip - 1) cs
      else (case m (c # cs) of
              None \<Rightarrow> matchAll_go m 0 cs
            | Some n \<Rightarrow> take n (c # cs) # matchAll_go m (n - 1) cs))"

definition matchAll :: "(string \<Rightarrow> nat option) \<Rightarrow> string \<Rightarrow> string list" where
  "matchAll m s = matchAll_go m 0 s"

section \<open>story-id.ts: the identifier codec\<close>

record StoryIdMapping =
  storyPrefix :: string
  idPattern :: string
  cardTitleFormat :: string

text \<open>
  What \<^verbatim>\<open>createStoryIdCodec\<close> throws: a \<^verbatim>\<open>StoryIdFormatError\<close> with its message, or the
  \<^verbatim>\<open>SyntaxError\<close> of \<^verbatim>\<open>new RegExp\<close>.  \<open>NotModelled\<close> marks the mappings this embedding does not
  follow (a padding that a double does not hold exactly, a title group inside the
  identifier group): nothing is said about the codec of such a mapping.
\<close>

datatype StoryIdFormatError =
    StoryIdFormatError string
  | RegExpSyntaxError string
  | NotModelled string

datatype StoryIdParseResult =
    ParseOk string string
  | ParseMissing string "string list" string
  | ParseAmbiguous string "string list" string

text \<open>
  The regular expressions the codec compiles are sequences of escaped literals, one run
  of digits (\<^verbatim>\<open>\d+\<close> or \<^verbatim>\<open>\d{n}\<close>) and, in the card title, the two named groups.
  \<^verbatim>\<open>escapeRegExp\<close> escapes every character that is special in a pattern, so a code unit
  of the template stands for itself.
\<close>

datatype IdAtom = IdLit char | IdDigitsPlus | IdDigits nat

datatype TitleAtom = TLit char | TIdGroup | TTitleGroup

text \<open>
  \<^verbatim>\<open>NUMBER_TOKEN_REGEX = /\{number(?::(\d+))?\}/g\<close> at the start of a string: the length of
  the token and the digits of its padding.
\<close>

definition number_token_at :: "string \<Rightarrow> (nat \<times> string option) option" where
  "number_token_at s =
     (if startsWith s ''{number'' then
        (case drop 7 s of
           [] \<Rightarrow> None
         | c # r \<Rightarrow>
             if c = CHR '':'' then
               (let ds = takeWhile is_digit r in
                if ds \<noteq> [] \<and> startsWith (drop (length ds) r) ''}''
                then Some (length ds + 9, Some ds) else None)
             else if c = CHR ''}'' then Some (8, None)
             else None)
      else None)"

text \<open>
  \<^verbatim>\<open>Number.parseInt(paddingRaw, 10)\<close> on a string of decimal digits.  The result of the source
  is a double; it is this number when the string has at most fifteen digits after its
  leading zeros, and \<open>parseIdPattern\<close> below follows the source only then.
\<close>

definition digit_value :: "char \<Rightarrow> nat" where
  "digit_value c = of_char c - 48"

definition parseInt :: "string \<Rightarrow> nat" where
  "parseInt ds = foldl (\<lambda>n c. 10 * n + digit_value c) 0 ds"

record IdPatternSpec =
  ips_template :: string
  ips_prefix :: string
  ips_numberToken :: string
  ips_padding :: "nat option"
  ips_regex :: "IdAtom list"

text \<open>
  The expression of the pattern.  The source replaces the two tokens by the placeholders
  \<^verbatim>\<open>__STORY_PREFIX__\<close> and \<^verbatim>\<open>__STORY_NUMBER__\<close>, escapes the text, and then replaces the
  placeholders by the escaped prefix and by the run of digits, each with \<^verbatim>\<open>replaceAll\<close>.
  \<^verbatim>\<open>escapeRegExp\<close> leaves the characters of a placeholder as they are and puts a backslash
  before each character it escapes, so a placeholder occurs in the escaped text exactly
  where it occurs in the text.  The replacements are therefore made on the text, in the
  order of the source, and every character that is left is a literal of the expression.
  A pattern or a prefix that contains the text of a placeholder is treated as the source
  treats it.
\<close>

fun joinAtoms :: "'a list \<Rightarrow> 'a list list \<Rightarrow> 'a list" where
  "joinAtoms sep [] = []"
| "joinAtoms sep [x] = x"
| "joinAtoms sep (x # y # ys) = x @ sep @ joinAtoms sep (y # ys)"

definition parseIdPattern :: "string \<Rightarrow> string \<Rightarrow> StoryIdFormatError + IdPatternSpec" where
  "parseIdPattern pattern prefix =
     (let numberMatches = matchAll (\<lambda>s. map_option fst (number_token_at s)) pattern in
      if length numberMatches = 0 then
        Inl (StoryIdFormatError ''idPattern must include a {number} token'')
      else if 1 < length numberMatches then
        Inl (StoryIdFormatError ''idPattern must include only one {number} token'')
      else if length (split pattern ''{prefix}'') \<le> 1 then
        Inl (StoryIdFormatError ''idPattern must include a {prefix} token'')
      else
        (let numberToken = hd numberMatches;
             paddingRaw = (case number_token_at numberToken of
                             Some (_, raw) \<Rightarrow> raw | None \<Rightarrow> None)
         in if (case paddingRaw of
                  Some raw \<Rightarrow> 15 < length (dropWhile (\<lambda>c. c = CHR ''0'') raw)
                | None \<Rightarrow> False) then
              Inl (NotModelled ''idPattern padding of more than fifteen digits'')
            else
              (let padding = map_option parseInt paddingRaw
               in if (case padding of Some n \<Rightarrow> n \<le> 0 | None \<Rightarrow> False) then
                    Inl (StoryIdFormatError ''idPattern padding must be a positive integer'')
                  else
                    (let tokenized =
                           replaceAll (replaceAll pattern ''{prefix}'' ''__STORY_PREFIX__'')
                             numberToken ''__STORY_NUMBER__'';
                         withPrefix = replaceAll tokenized ''__STORY_PREFIX__'' prefix;
                         digits = (case padding of None \<Rightarrow> IdDigitsPlus | Some n \<Rightarrow> IdDigits n)
                     in Inr \<lparr> ips_template = pattern, ips_prefix = prefix,
                              ips_numberToken = numberToken, ips_padding = padding,
                              ips_regex =
                                joinAtoms [digits]
                                  (map (map IdLit) (split withPrefix ''__STORY_NUMBER__'')) \<rparr>))))"

record CardTitleSpec =
  cts_template :: string
  cts_regex :: "TitleAtom list"

text \<open>The runs of literal characters of an identifier expression, between its runs of digits.\<close>

fun literalRuns :: "string \<Rightarrow> IdAtom list \<Rightarrow> string list" where
  "literalRuns acc [] = [rev acc]"
| "literalRuns acc (IdLit c # as) = literalRuns (c # acc) as"
| "literalRuns acc (IdDigitsPlus # as) = rev acc # literalRuns [] as"
| "literalRuns acc (IdDigits n # as) = rev acc # literalRuns [] as"

text \<open>How often \<^verbatim>\<open>replaceAll\<close> finds \<open>search\<close> in \<open>v\<close>.\<close>

definition occurrences :: "string \<Rightarrow> string \<Rightarrow> nat" where
  "occurrences v search = length (split v search) - 1"

text \<open>
  The expression of the card title, compiled the same way through the placeholders
  \<^verbatim>\<open>__CARD_ID__\<close> and \<^verbatim>\<open>__CARD_TITLE__\<close>.  The second \<^verbatim>\<open>replaceAll\<close> runs over the text that
  already holds the identifier group, so it also finds \<^verbatim>\<open>__CARD_TITLE__\<close> inside a literal
  run of the identifier expression.  Two groups of one name make \<^verbatim>\<open>new RegExp\<close> throw.
\<close>

definition parseCardTitleFormat ::
  "string \<Rightarrow> IdAtom list \<Rightarrow> StoryIdFormatError + CardTitleSpec" where
  "parseCardTitleFormat format idRegex =
     (let idCount = length (split format ''{id}'') - 1;
          titleCount = length (split format ''{title}'') - 1
      in if idCount \<noteq> 1 \<or> titleCount \<noteq> 1 then
           Inl (StoryIdFormatError
                  ''cardTitleFormat must include exactly one {id} and one {title} token'')
         else
           (let tokenized =
                  replaceAll (replaceAll format ''{id}'' ''__CARD_ID__'') ''{title}'' ''__CARD_TITLE__'';
                pieces = split tokenized ''__CARD_ID__'';
                idGroups = length pieces - 1;
                titleInId =
                  sum_list (map (\<lambda>run. occurrences run ''__CARD_TITLE__'') (literalRuns [] idRegex));
                titleGroups =
                  sum_list (map (\<lambda>piece. occurrences piece ''__CARD_TITLE__'') pieces)
                  + idGroups * titleInId
            in if 1 < idGroups \<or> 1 < titleGroups then
                 Inl (RegExpSyntaxError ''Invalid regular expression: Duplicate capture group name'')
               else if 0 < idGroups \<and> 0 < titleInId then
                 Inl (NotModelled ''title group inside the identifier group'')
               else
                 Inr \<lparr> cts_template = format,
                       cts_regex =
                         joinAtoms [TIdGroup]
                           (map (\<lambda>piece. joinAtoms [TTitleGroup]
                                            (map (map TLit) (split piece ''__CARD_TITLE__'')))
                                pieces) \<rparr>))"

subsection \<open>Matching, as a backtracking engine does it\<close>

text \<open>
  \<open>id_ends atoms s\<close>: the rests of \<open>s\<close> after each way the atoms match at its start, in
  the order a backtracking matcher tries them (the greedy \<^verbatim>\<open>\d+\<close> gives its longest run
  first).
\<close>

fun id_ends :: "IdAtom list \<Rightarrow> string \<Rightarrow> string list" where
  "id_ends [] s = [s]"
| "id_ends (IdLit c # as) s =
     (case s of [] \<Rightarrow> [] | x # xs \<Rightarrow> if x = c then id_ends as xs else [])"
| "id_ends (IdDigits n # as) s =
     (if n \<le> length (takeWhile is_digit (take n s)) then id_ends as (drop n s) else [])"
| "id_ends (IdDigitsPlus # as) s =
     concat (map (\<lambda>k. id_ends as (drop k s))
                 (rev [1 ..< Suc (length (takeWhile is_digit s))]))"

text \<open>The first match of the identifier expression at the start of \<open>s\<close>: its length.\<close>

definition id_match_at :: "IdAtom list \<Rightarrow> string \<Rightarrow> nat option" where
  "id_match_at atoms s =
     (case id_ends atoms s of [] \<Rightarrow> None | r # _ \<Rightarrow> Some (length s - length r))"

text \<open>\<^verbatim>\<open>idRegex.test(id)\<close> with \<^verbatim>\<open>idRegex = ^...$\<close>: some way of matching uses up the string.\<close>

definition id_test :: "IdAtom list \<Rightarrow> string \<Rightarrow> bool" where
  "id_test atoms s = ([] \<in> set (id_ends atoms s))"

text \<open>
  The card-title expression \<^verbatim>\<open>^...(?<id>...)...(?<title>.*?)...$\<close>: the captures of every
  way it matches the whole of \<open>s\<close>, in the order of the search; the lazy \<^verbatim>\<open>.*?\<close> gives its
  shortest run first and stops at a line terminator.
\<close>

fun title_matches ::
  "IdAtom list \<Rightarrow> TitleAtom list \<Rightarrow> string option \<times> string option \<Rightarrow> string
     \<Rightarrow> (string option \<times> string option) list" where
  "title_matches ida [] caps s = (if s = [] then [caps] else [])"
| "title_matches ida (TLit c # ts) caps s =
     (case s of [] \<Rightarrow> [] | x # xs \<Rightarrow> if x = c then title_matches ida ts caps xs else [])"
| "title_matches ida (TIdGroup # ts) caps s =
     concat (map (\<lambda>r. title_matches ida ts (Some (take (length s - length r) s), snd caps) r)
                 (id_ends ida s))"
| "title_matches ida (TTitleGroup # ts) caps s =
     concat (map (\<lambda>k. title_matches ida ts (fst caps, Some (take k s)) (drop k s))
                 [0 ..< Suc (length (takeWhile (\<lambda>c. \<not> is_line_terminator c) s))])"

definition title_exec :: "IdAtom list \<Rightarrow> TitleAtom list \<Rightarrow> string
     \<Rightarrow> (string option \<times> string option) option" where
  "title_exec ida ts s =
     (case title_matches ida ts (None, None) s of [] \<Rightarrow> None | g # _ \<Rightarrow> Some g)"

subsection \<open>The codec\<close>

record StoryIdCodec =
  codec_idPattern :: IdPatternSpec
  codec_cardTitleSpec :: CardTitleSpec

definition createStoryIdCodec :: "StoryIdMapping \<Rightarrow> StoryIdFormatError + StoryIdCodec" where
  "createStoryIdCodec mapping =
     (case parseIdPattern (idPattern mapping) (storyPrefix mapping) of
        Inl e \<Rightarrow> Inl e
      | Inr idp \<Rightarrow>
          (case parseCardTitleFormat (cardTitleFormat mapping) (ips_regex idp) of
             Inl e \<Rightarrow> Inl e
           | Inr spec \<Rightarrow> Inr \<lparr> codec_idPattern = idp, codec_cardTitleSpec = spec \<rparr>))"

definition formatCardTitle :: "StoryIdCodec \<Rightarrow> string \<Rightarrow> string \<Rightarrow> StoryIdFormatError + string" where
  "formatCardTitle codec sid title =
     (if \<not> id_test (ips_regex (codec_idPattern codec)) sid then
        Inl (StoryIdFormatError (''Story ID '' @ [CHR 0x27] @ sid @ [CHR 0x27]
                                   @ '' does not match idPattern''))
      else Inr (replaceAll (replaceAll (cts_template (codec_cardTitleSpec codec)) ''{id}'' sid)
                           ''{title}'' title))"

text \<open>The matches of \<^verbatim>\<open>idSearchRegex\<close> in a card title.\<close>

definition id_matches :: "StoryIdCodec \<Rightarrow> string \<Rightarrow> string list" where
  "id_matches codec cardTitle = matchAll (id_match_at (ips_regex (codec_idPattern codec))) cardTitle"

definition parseCardTitle :: "StoryIdCodec \<Rightarrow> string \<Rightarrow> StoryIdParseResult" where
  "parseCardTitle codec cardTitle =
     (let matches = id_matches codec cardTitle in
      if length matches = 0 then
        ParseMissing ''No story ID found in card title'' matches cardTitle
      else if 1 < length matches then
        ParseAmbiguous ''Multiple story IDs found in card title'' matches cardTitle
      else
        (case title_exec (ips_regex (codec_idPattern codec))
                (cts_regex (codec_cardTitleSpec codec)) cardTitle of
           None \<Rightarrow> ParseMissing ''Story ID not in canonical card title format'' matches cardTitle
         | Some (gid, gtitle) \<Rightarrow>
             (case gid of
                None \<Rightarrow> ParseMissing ''Story ID not in canonical card title format'' matches cardTitle
              | Some i \<Rightarrow>
                  if i = [] then
                    ParseMissing ''Story ID not in canonical card title format'' matches cardTitle
                  else ParseOk i (trim (case gtitle of None \<Rightarrow> [] | Some t \<Rightarrow> t)))))"

section \<open>adapters.ts: the data model\<close>

datatype StoryStatus = Status_open | Status_in_progress | Status_done

text \<open>The status as the string the source holds (\<^verbatim>\<open>"open" | "in_progress" | "done"\<close>).\<close>

fun status_text :: "StoryStatus \<Rightarrow> string" where
  "status_text Status_open = ''open''"
| "status_text Status_in_progress = ''in_progress''"
| "status_text Status_done = ''done''"

record PrdStory =
  story_id :: string
  story_title :: string
  story_status :: StoryStatus
  story_dependsOn :: "string list"
  story_description :: string
  story_acceptanceCriteria :: "string list"

record FormatReadResult =
  stories :: "PrdStory list"
  lastModifiedAt :: string

record BoardList =
  list_id :: string
  list_name :: string
  list_closed :: bool

record BoardLabel =
  label_id :: string
  label_name :: string
  label_color :: "string option"

record BoardLabelInput =
  labelInput_name :: string
  labelInput_color :: "string option"

record BoardCard =
  card_id :: string
  card_name :: string
  card_description :: string
  card_listId :: string
  card_labelIds :: "string list"
  card_closed :: bool
  card_lastActivityAt :: string

record BoardChecklistItem =
  item_id :: string
  item_name :: string
  item_checked :: bool

record BoardChecklist =
  checklist_id :: string
  checklist_name :: string
  checklist_items :: "BoardChecklistItem list"

record BoardCardInput =
  cardInput_name :: string
  cardInput_description :: string
  cardInput_listId :: string
  cardInput_labelIds :: "string list"

text \<open>An optional field of \<^verbatim>\<open>BoardCardUpdate\<close> is a key of the object when it is \<open>Some\<close>.\<close>

record BoardCardUpdate =
  cardUpdate_name :: "string option"
  cardUpdate_description :: "string option"
  cardUpdate_listId :: "string option"
  cardUpdate_labelIds :: "string list option"
  cardUpdate_closed :: "bool option"

record BoardChecklistItemInput =
  itemInput_name :: string
  itemInput_checked :: bool

record BoardChecklistInput =
  checklistInput_name :: string
  checklistInput_items :: "BoardChecklistItemInput list"

text \<open>What the read operations of the board adapter return during one run.\<close>

record BoardSnapshot =
  getLists :: "BoardList list"
  getCards :: "BoardCard list"
  getLabels :: "BoardLabel list"
  getCardChecklists :: "string \<Rightarrow> BoardChecklist list"

section \<open>config.ts: the parts of the configuration the engine reads\<close>

datatype SyncDirection = Two_way | Trello_to_prd | Prd_to_trello

datatype ConflictPrefer = Prefer_none | Prefer_trello | Prefer_prd

record StatusToList =
  stl_open :: string
  stl_in_progress :: string
  stl_done :: string

record Mapping =
  map_storyPrefix :: string
  map_idPattern :: string
  map_cardTitleFormat :: string
  dependsOnLabelPrefix :: string
  statusToList :: StatusToList
  acceptanceCriteriaChecklistName :: string

record ConflictOptions =
  co_prefer :: "ConflictPrefer option"
  co_defaultPrefer :: "ConflictPrefer option"
  co_blockWrites :: "bool option"
  co_createMissingLabels :: "bool option"

section \<open>sync-state.ts: fingerprints and the incremental state\<close>

record SyncStateStoryEntry =
  fingerprint :: string

record SyncStateCardEntry =
  entry_cardId :: string
  entry_lastActivityAt :: string

record SyncState =
  state_version :: nat
  state_lastRunAt :: string
  state_boardId :: string
  state_prdPath :: string
  state_mappingSignature :: string
  state_lastSeenTrelloActivity :: string
  storyIndex :: "(string \<times> SyncStateStoryEntry) list"
  cardIndex :: "(string \<times> SyncStateCardEntry) list"

record SyncStateCardRecord =
  scr_storyId :: string
  scr_card :: BoardCard

text \<open>
  \<^verbatim>\<open>Array.prototype.sort\<close> with a comparator: the stable sort, written as insertion from
  the right.  (With an inconsistent comparator the order JavaScript gives is left to the
  implementation; the result is a permutation in any case.)
\<close>

fun js_insort :: "('a \<Rightarrow> 'a \<Rightarrow> int) \<Rightarrow> 'a \<Rightarrow> 'a list \<Rightarrow> 'a list" where
  "js_insort cmp x [] = [x]"
| "js_insort cmp x (y # ys) = (if cmp x y \<le> 0 then x # y # ys else y # js_insort cmp x ys)"

definition js_sort :: "('a \<Rightarrow> 'a \<Rightarrow> int) \<Rightarrow> 'a list \<Rightarrow> 'a list" where
  "js_sort cmp xs = foldr (js_insort cmp) xs []"

subsection \<open>JSON.stringify of the two normalized objects\<close>

definition hex_digit :: "int \<Rightarrow> char" where
  "hex_digit n = ''0123456789abcdef'' ! nat (n mod 16)"

definition json_escape :: "char \<Rightarrow> string" where
  "json_escape c =
     (if c = CHR 0x22 then [CHR 0x5C, CHR 0x22]
      else if c = CHR 0x5C then [CHR 0x5C, CHR 0x5C]
      else if c = CHR 0x08 then [CHR 0x5C, CHR ''b'']
      else if c = CHR 0x09 then [CHR 0x5C, CHR ''t'']
      else if c = CHR 0x0A then [CHR 0x5C, CHR ''n'']
      else if c = CHR 0x0C then [CHR 0x5C, CHR ''f'']
      else if c = CHR 0x0D then [CHR 0x5C, CHR ''r'']
      else if of_char c < (32::int) then
        [CHR 0x5C, CHR ''u'', CHR ''0'', CHR ''0'',
         hex_digit (of_char c div 16), hex_digit (of_char c)]
      else [c])"

definition json_string :: "string \<Rightarrow> string" where
  "json_string s = [CHR 0x22] @ concat (map json_escape s) @ [CHR 0x22]"

definition json_array :: "string list \<Rightarrow> string" where
  "json_array xs = ''['' @ join '','' (map json_string xs) @ '']''"

definition json_object :: "(string \<times> string) list \<Rightarrow> string" where
  "json_object kvs = ''{'' @ join '','' (map (\<lambda>(k, v). json_string k @ '':'' @ v) kvs) @ ''}''"

definition hashText :: "Platform \<Rightarrow> string \<Rightarrow> string" where
  "hashText P v = sha256hex P v"

text \<open>The normalized projection of a story: the dependency list sorted, the rest as it is.\<close>

definition normalizedStory :: "Platform \<Rightarrow> PrdStory \<Rightarrow> PrdStory" where
  "normalizedStory P story =
     \<lparr> story_id = story_id story,
       story_title = story_title story,
       story_status = story_status story,
       story_dependsOn = js_sort (localeCompare P) (story_dependsOn story),
       story_description = story_description story,
       story_acceptanceCriteria = story_acceptanceCriteria story \<rparr>"

definition stringifyStory :: "PrdStory \<Rightarrow> string" where
  "stringifyStory n =
     json_object
       [(''id'', json_string (story_id n)),
        (''title'', json_string (story_title n)),
        (''status'', json_string (status_text (story_status n))),
        (''description'', json_string (story_description n)),
        (''dependsOn'', json_array (story_dependsOn n)),
        (''acceptanceCriteria'', json_array (story_acceptanceCriteria n))]"

definition createStoryFingerprint :: "Platform \<Rightarrow> PrdStory \<Rightarrow> string" where
  "createStoryFingerprint P story = hashText P (stringifyStory (normalizedStory P story))"

definition createMappingSignature :: "Platform \<Rightarrow> Mapping \<Rightarrow> string" where
  "createMappingSignature P mapping =
     hashText P
       (json_object
          [(''storyPrefix'', json_string (map_storyPrefix mapping)),
           (''idPattern'', json_string (map_idPattern mapping)),
           (''cardTitleFormat'', json_string (map_cardTitleFormat mapping)),
           (''dependsOnLabelPrefix'', json_string (dependsOnLabelPrefix mapping)),
           (''statusToList'',
              json_object
                [(''open'', json_string (stl_open (statusToList mapping))),
                 (''in_progress'', json_string (stl_in_progress (statusToList mapping))),
                 (''done'', json_string (stl_done (statusToList mapping)))]),
           (''acceptanceCriteriaChecklistName'',
              json_string (acceptanceCriteriaChecklistName mapping))])"

text \<open>
  \<^verbatim>\<open>compareIsoTimestamps\<close> (the same function in \<^verbatim>\<open>sync-state.ts\<close> and in the engine): the
  difference of the two times, and \<open>0\<close> when either string does not parse.
\<close>

definition compareIsoTimestamps :: "Platform \<Rightarrow> string \<Rightarrow> string \<Rightarrow> int" where
  "compareIsoTimestamps P left right =
     (case (dateParse P left, dateParse P right) of
        (Some leftTime, Some rightTime) \<Rightarrow> leftTime - rightTime
      | _ \<Rightarrow> 0)"

text \<open>
  The loop shared by \<^verbatim>\<open>resolveLastSeenActivity\<close> and \<^verbatim>\<open>resolveLatestActivity\<close>; \<open>now\<close> is what
  \<^verbatim>\<open>new Date().toISOString()\<close> gives.
\<close>

definition latestActivity :: "Platform \<Rightarrow> string \<Rightarrow> SyncStateCardRecord list \<Rightarrow> string" where
  "latestActivity P start records =
     foldl (\<lambda>latest r.
              if latest = [] \<or> 0 < compareIsoTimestamps P (card_lastActivityAt (scr_card r)) latest
              then card_lastActivityAt (scr_card r) else latest)
           start records"

definition resolveLastSeenActivity ::
  "Platform \<Rightarrow> string \<Rightarrow> SyncStateCardRecord list \<Rightarrow> string option \<Rightarrow> string" where
  "resolveLastSeenActivity P now cards fallback =
     (let latest = latestActivity P (case fallback of None \<Rightarrow> [] | Some f \<Rightarrow> f) cards
      in if latest = [] then now else latest)"

record SyncStateInput =
  in_boardId :: string
  in_prdPath :: string
  in_mapping :: Mapping
  in_stories :: "PrdStory list"
  in_cards :: "SyncStateCardRecord list"
  in_lastSeenTrelloActivity :: "string option"
  in_lastRunAt :: "string option"

definition createSyncState :: "Platform \<Rightarrow> string \<Rightarrow> SyncStateInput \<Rightarrow> SyncState" where
  "createSyncState P now input =
     \<lparr> state_version = 1,
       state_lastRunAt = (case in_lastRunAt input of None \<Rightarrow> now | Some t \<Rightarrow> t),
       state_boardId = in_boardId input,
       state_prdPath = in_prdPath input,
       state_mappingSignature = createMappingSignature P (in_mapping input),
       state_lastSeenTrelloActivity =
         resolveLastSeenActivity P now (in_cards input) (in_lastSeenTrelloActivity input),
       storyIndex =
         foldl (\<lambda>index story.
                  AList.update (story_id story)
                    \<lparr> fingerprint = createStoryFingerprint P story \<rparr> index)
               [] (in_stories input),
       cardIndex =
         foldl (\<lambda>index r.
                  AList.update (scr_storyId r)
                    \<lparr> entry_cardId = card_id (scr_card r),
                      entry_lastActivityAt = card_lastActivityAt (scr_card r) \<rparr> index)
               [] (in_cards input) \<rparr>"

section \<open>sync-engine.ts: the planner\<close>

record SyncPlanOptions =
  prdPath :: string
  mapping :: Mapping
  direction :: "SyncDirection option"
  incremental :: "bool option"
  dryRun :: "bool option"
  state :: "SyncState option"
  conflict :: "ConflictOptions option"

datatype SyncCreate =
    SyncCreateTrello string string PrdStory BoardCardInput BoardChecklistInput
  | SyncCreatePrd string string PrdStory BoardCard

record SyncListMove =
  fromId :: string
  toId :: string
  fromName :: "string option"
  toName :: "string option"

record SyncUpdateTrello =
  ut_id :: string
  ut_reason :: string
  ut_story :: PrdStory
  ut_card :: BoardCard
  ut_cardUpdate :: BoardCardUpdate
  ut_checklist :: BoardChecklistInput
  ut_checklistNeedsUpdate :: bool
  ut_listMove :: "SyncListMove option"

datatype SyncUpdate =
    UpdateTrello SyncUpdateTrello
  | UpdatePrd string string PrdStory BoardCard

record SyncConflict =
  conflict_id :: "string option"
  conflict_reason :: string
  conflict_cards :: "BoardCard list option"
  conflict_story :: "PrdStory option"

record SyncNoop =
  noop_id :: string
  noop_reason :: string

record SyncPlan =
  creates :: "SyncCreate list"
  updates :: "SyncUpdate list"
  conflicts :: "SyncConflict list"
  noop :: "SyncNoop list"

datatype Target = Trello | Prd

fun create_id :: "SyncCreate \<Rightarrow> string" where
  "create_id (SyncCreateTrello i _ _ _ _) = i"
| "create_id (SyncCreatePrd i _ _ _) = i"

fun create_target :: "SyncCreate \<Rightarrow> Target" where
  "create_target (SyncCreateTrello _ _ _ _ _) = Trello"
| "create_target (SyncCreatePrd _ _ _ _) = Prd"

fun create_story :: "SyncCreate \<Rightarrow> PrdStory" where
  "create_story (SyncCreateTrello _ _ s _ _) = s"
| "create_story (SyncCreatePrd _ _ s _) = s"

fun update_id :: "SyncUpdate \<Rightarrow> string" where
  "update_id (UpdateTrello u) = ut_id u"
| "update_id (UpdatePrd i _ _ _) = i"

fun update_target :: "SyncUpdate \<Rightarrow> Target" where
  "update_target (UpdateTrello _) = Trello"
| "update_target (UpdatePrd _ _ _ _) = Prd"

fun update_reason :: "SyncUpdate \<Rightarrow> string" where
  "update_reason (UpdateTrello u) = ut_reason u"
| "update_reason (UpdatePrd _ r _ _) = r"

fun update_story :: "SyncUpdate \<Rightarrow> PrdStory" where
  "update_story (UpdateTrello u) = ut_story u"
| "update_story (UpdatePrd _ _ s _) = s"

record CardRecord =
  card :: BoardCard
  storyId :: string
  storyTitle :: string

record SyncContext =
  prdStories :: "PrdStory list"
  cardRecords :: "CardRecord list"

record StatusMappingResult =
  statusToListId :: "(StoryStatus \<times> string) list"
  listIdToStatus :: "(string \<times> StoryStatus) list"
  sm_issues :: "string list"

record CardMappingResult =
  cm_cardInput :: BoardCardInput
  cm_cardUpdate :: BoardCardUpdate
  cm_checklist :: BoardChecklistInput
  cm_checklistNeedsUpdate :: bool
  cm_issues :: "string list"
  cm_missingLabels :: "string list"

record StoryMappingResult =
  stm_story :: PrdStory
  stm_issues :: "string list"

subsection \<open>Small helpers\<close>

definition quoted :: "string \<Rightarrow> string" where
  "quoted s = [CHR 0x27] @ s @ [CHR 0x27]"

text \<open>\<^verbatim>\<open>Set.prototype.add\<close> on a set kept as the list of its members in insertion order.\<close>

definition set_add :: "'a \<Rightarrow> 'a list \<Rightarrow> 'a list" where
  "set_add x xs = (if x \<in> set xs then xs else xs @ [x])"

definition new_Set :: "'a list \<Rightarrow> 'a list" where
  "new_Set xs = foldl (\<lambda>acc x. set_add x acc) [] xs"

definition sortStrings :: "Platform \<Rightarrow> string list \<Rightarrow> string list" where
  "sortStrings P values = js_sort (localeCompare P) values"

definition areArraysEqual :: "('a \<Rightarrow> 'a \<Rightarrow> bool) \<Rightarrow> 'a list \<Rightarrow> 'a list \<Rightarrow> bool" where
  "areArraysEqual matcher left right =
     (length left = length right \<and> list_all2 matcher left right)"

definition areSetsEqual :: "Platform \<Rightarrow> string list \<Rightarrow> string list \<Rightarrow> bool" where
  "areSetsEqual P left right = areArraysEqual (=) (sortStrings P left) (sortStrings P right)"

definition areChecklistItemsEqual ::
  "BoardChecklistItemInput list \<Rightarrow> BoardChecklistItemInput list \<Rightarrow> bool" where
  "areChecklistItemsEqual left right =
     areArraysEqual
       (\<lambda>leftItem rightItem.
          itemInput_name leftItem = itemInput_name rightItem \<and>
          itemInput_checked leftItem = itemInput_checked rightItem)
       left right"

definition resolveLatestActivity :: "Platform \<Rightarrow> string \<Rightarrow> SyncStateCardRecord list \<Rightarrow> string" where
  "resolveLatestActivity P now records =
     (let latest = latestActivity P [] records in if latest = [] then now else latest)"

definition resolveConflictPrefer :: "ConflictOptions option \<Rightarrow> ConflictPrefer" where
  "resolveConflictPrefer c =
     (case c of
        None \<Rightarrow> Prefer_none
      | Some co \<Rightarrow>
          (case co_prefer co of
             Some p \<Rightarrow> p
           | None \<Rightarrow> (case co_defaultPrefer co of Some p \<Rightarrow> p | None \<Rightarrow> Prefer_none)))"

definition resolveCreateMissingLabels :: "ConflictOptions option \<Rightarrow> bool" where
  "resolveCreateMissingLabels c =
     (case c of
        None \<Rightarrow> True
      | Some co \<Rightarrow> (case co_createMissingLabels co of Some b \<Rightarrow> b | None \<Rightarrow> True))"

definition resolveTimestampComparison :: "int \<Rightarrow> ConflictPrefer \<Rightarrow> int" where
  "resolveTimestampComparison comparison p =
     (if comparison \<noteq> 0 then comparison
      else if p = Prefer_prd then 1
      else if p = Prefer_trello then - 1
      else 0)"

subsection \<open>createStatusMapping\<close>

definition statusEntries :: "StatusToList \<Rightarrow> (StoryStatus \<times> string) list" where
  "statusEntries stl =
     [(Status_open, stl_open stl),
      (Status_in_progress, stl_in_progress stl),
      (Status_done, stl_done stl)]"

text \<open>The lists one status entry chooses among: the open lists of that name if there are any.\<close>

definition statusMatches :: "BoardList list \<Rightarrow> string \<Rightarrow> BoardList list" where
  "statusMatches boardLists listName =
     (let openMatches = filter (\<lambda>l. list_name l = listName \<and> \<not> list_closed l) boardLists
      in if 0 < length openMatches then openMatches
         else filter (\<lambda>l. list_name l = listName) boardLists)"

text \<open>One turn of the loop over the status entries.\<close>

definition statusStep ::
  "Platform \<Rightarrow> BoardList list \<Rightarrow> StatusMappingResult \<Rightarrow> StoryStatus \<times> string \<Rightarrow> StatusMappingResult" where
  "statusStep P boardLists acc entry =
     (let status = fst entry; listName = snd entry;
          matches = statusMatches boardLists listName
      in if length matches = 0 then
           acc\<lparr> sm_issues := sm_issues acc @
                  [''No Trello list found for status '' @ quoted (status_text status)
                     @ '' ('' @ listName @ '')''] \<rparr>
         else
           (let chosen = hd (sortStrings P (map list_id matches));
                chosenList = find (\<lambda>l. list_id l = chosen) matches;
                acc1 = (if 1 < length matches then
                          acc\<lparr> sm_issues := sm_issues acc @
                                 [''Multiple Trello lists found for status ''
                                    @ quoted (status_text status) @ '' ('' @ listName @ '')''] \<rparr>
                        else acc)
            in case chosenList of
                 None \<Rightarrow> acc1
               | Some l \<Rightarrow>
                   acc1\<lparr> statusToListId := AList.update status (list_id l) (statusToListId acc1),
                         listIdToStatus := AList.update (list_id l) status (listIdToStatus acc1) \<rparr>))"

definition createStatusMapping :: "Platform \<Rightarrow> BoardList list \<Rightarrow> StatusToList \<Rightarrow> StatusMappingResult" where
  "createStatusMapping P boardLists stl =
     foldl (statusStep P boardLists)
       \<lparr> statusToListId = [], listIdToStatus = [], sm_issues = [] \<rparr>
       (statusEntries stl)"

subsection \<open>Checklists and labels\<close>

text \<open>\<^verbatim>\<open>selectChecklist\<close>: the checklist (if any) and the issue (if any).\<close>

definition selectChecklist ::
  "BoardChecklist list \<Rightarrow> string \<Rightarrow> BoardChecklist option \<times> string option" where
  "selectChecklist checklists name =
     (let matches = filter (\<lambda>c. checklist_name c = name) checklists
      in if 1 < length matches then
           (None, Some (''Multiple checklists named '' @ quoted name @ '' found''))
         else (case matches of [] \<Rightarrow> None | c # _ \<Rightarrow> Some c, None))"

definition buildChecklistInput :: "PrdStory \<Rightarrow> string \<Rightarrow> BoardChecklistInput" where
  "buildChecklistInput story checklistName =
     \<lparr> checklistInput_name = checklistName,
       checklistInput_items =
         map (\<lambda>criteria. \<lparr> itemInput_name = criteria,
                            itemInput_checked = (story_status story = Status_done) \<rparr>)
             (story_acceptanceCriteria story) \<rparr>"

text \<open>
  A value read from a \<^verbatim>\<open>Map<string, string>\<close> and tested for truth: \<^verbatim>\<open>undefined\<close> and the
  empty string both count as absent.
\<close>

definition truthy_get :: "('k \<times> string) list \<Rightarrow> 'k \<Rightarrow> string option" where
  "truthy_get m k = (case map_of m k of None \<Rightarrow> None | Some v \<Rightarrow> if v = [] then None else Some v)"

text \<open>The filter over \<^verbatim>\<open>card.labelIds\<close> in \<^verbatim>\<open>resolveLabelIds\<close>.\<close>

definition keepsLabel :: "Mapping \<Rightarrow> (string \<times> string) list \<Rightarrow> string \<Rightarrow> bool" where
  "keepsLabel mp labelIdToName labelId =
     (case truthy_get labelIdToName labelId of
        None \<Rightarrow> True
      | Some labelName \<Rightarrow> \<not> startsWith labelName (dependsOnLabelPrefix mp))"

record LabelResolution =
  labelIds :: "string list"
  missingLabels :: "string list"

definition resolveLabelIds ::
  "Platform \<Rightarrow> PrdStory \<Rightarrow> Mapping \<Rightarrow> (string \<times> string) list \<Rightarrow> (string \<times> string) list
     \<Rightarrow> BoardCard option \<Rightarrow> LabelResolution" where
  "resolveLabelIds P story mp labelNameToId labelIdToName c =
     (let labelNames = map (\<lambda>dependency. dependsOnLabelPrefix mp @ dependency)
                           (story_dependsOn story);
          desiredLabelIds = List.map_filter (truthy_get labelNameToId) labelNames;
          missing = new_Set (filter (\<lambda>n. truthy_get labelNameToId n = None) labelNames);
          keepLabelIds = (case c of
                            None \<Rightarrow> []
                          | Some cd \<Rightarrow> filter (keepsLabel mp labelIdToName) (card_labelIds cd))
      in \<lparr> labelIds = sortStrings P (keepLabelIds @ desiredLabelIds),
            missingLabels = sortStrings P missing \<rparr>)"

definition emptyCardUpdate :: BoardCardUpdate where
  "emptyCardUpdate =
     \<lparr> cardUpdate_name = None, cardUpdate_description = None, cardUpdate_listId = None,
       cardUpdate_labelIds = None, cardUpdate_closed = None \<rparr>"

definition hasUpdateFields :: "BoardCardUpdate \<Rightarrow> bool" where
  "hasUpdateFields u =
     (cardUpdate_name u \<noteq> None \<or> cardUpdate_description u \<noteq> None \<or>
      cardUpdate_listId u \<noteq> None \<or> cardUpdate_labelIds u \<noteq> None \<or>
      cardUpdate_closed u \<noteq> None)"

subsection \<open>buildCardMapping and buildStoryMapping\<close>

definition checklistNeedsUpdate_of ::
  "BoardChecklistInput \<Rightarrow> BoardChecklist list option \<Rightarrow> string \<Rightarrow> bool \<times> string list" where
  "checklistNeedsUpdate_of checklist checklists name =
     (case checklists of
        None \<Rightarrow> (0 < length (checklistInput_items checklist), [])
      | Some cls \<Rightarrow>
          (case selectChecklist cls name of
             (_, Some issue) \<Rightarrow> (False, [issue])
           | (sel, None) \<Rightarrow>
               (let existingItems =
                      map (\<lambda>item. \<lparr> itemInput_name = item_name item,
                                      itemInput_checked = item_checked item \<rparr>)
                          (case sel of None \<Rightarrow> [] | Some cl \<Rightarrow> checklist_items cl)
                in if length existingItems = 0 \<and> length (checklistInput_items checklist) = 0
                      \<and> sel = None
                   then (False, [])
                   else (\<not> areChecklistItemsEqual existingItems (checklistInput_items checklist),
                         []))))"

definition buildCardMapping ::
  "Platform \<Rightarrow> PrdStory \<Rightarrow> Mapping \<Rightarrow> StatusMappingResult \<Rightarrow> (string \<times> string) list
     \<Rightarrow> (string \<times> string) list \<Rightarrow> StoryIdCodec \<Rightarrow> BoardCard option
     \<Rightarrow> BoardChecklist list option \<Rightarrow> StoryIdFormatError + CardMappingResult" where
  "buildCardMapping P story mp statusMapping labelNameToId labelIdToName codec c checklists =
     (let listId = truthy_get (statusToListId statusMapping) (story_status story);
          issues0 = (case listId of
                       None \<Rightarrow> [''No Trello list mapped for status ''
                                  @ quoted (status_text (story_status story))]
                     | Some _ \<Rightarrow> []);
          resolved = resolveLabelIds P story mp labelNameToId labelIdToName c;
          mergedLabelIds = labelIds resolved
      in case formatCardTitle codec (story_id story) (story_title story) of
           Inl e \<Rightarrow> Inl e
         | Inr name \<Rightarrow>
             (let cardInput =
                    \<lparr> cardInput_name = name,
                      cardInput_description = story_description story,
                      cardInput_listId = (case listId of None \<Rightarrow> [] | Some l \<Rightarrow> l),
                      cardInput_labelIds = mergedLabelIds \<rparr>;
                  cardUpdate =
                    (case c of
                       None \<Rightarrow> emptyCardUpdate
                     | Some cd \<Rightarrow>
                         \<lparr> cardUpdate_name =
                             (if card_name cd \<noteq> name then Some name else None),
                           cardUpdate_description =
                             (if card_description cd \<noteq> story_description story
                              then Some (story_description story) else None),
                           cardUpdate_listId =
                             (case listId of
                                None \<Rightarrow> None
                              | Some l \<Rightarrow> if card_listId cd \<noteq> l then Some l else None),
                           cardUpdate_labelIds =
                             (if \<not> areSetsEqual P (card_labelIds cd) mergedLabelIds
                              then Some mergedLabelIds else None),
                           cardUpdate_closed = None \<rparr>);
                  checklist = buildChecklistInput story (acceptanceCriteriaChecklistName mp);
                  needs = checklistNeedsUpdate_of checklist checklists
                            (acceptanceCriteriaChecklistName mp)
              in Inr \<lparr> cm_cardInput = cardInput,
                       cm_cardUpdate = cardUpdate,
                       cm_checklist = checklist,
                       cm_checklistNeedsUpdate = fst needs,
                       cm_issues = issues0 @ snd needs,
                       cm_missingLabels = missingLabels resolved \<rparr>))"

definition buildStoryMapping ::
  "Platform \<Rightarrow> CardRecord \<Rightarrow> Mapping \<Rightarrow> StatusMappingResult \<Rightarrow> (string \<times> string) list
     \<Rightarrow> BoardChecklist list option \<Rightarrow> StoryMappingResult" where
  "buildStoryMapping P record mp statusMapping labelIdToName checklists =
     (let status = map_of (listIdToStatus statusMapping) (card_listId (card record));
          issues0 = (case status of
                       None \<Rightarrow> [''No PRD status mapped for Trello list ''
                                  @ quoted (card_listId (card record))]
                     | Some _ \<Rightarrow> []);
          names = filter (\<lambda>name. startsWith name (dependsOnLabelPrefix mp))
                    (List.map_filter (truthy_get labelIdToName) (card_labelIds (card record)));
          sliced = filter (\<lambda>name. trim name \<noteq> [])
                     (map (drop (length (dependsOnLabelPrefix mp))) names);
          dependsOn = sortStrings P (new_Set sliced);
          sel = (case checklists of
                   None \<Rightarrow> ([], [])
                 | Some cls \<Rightarrow>
                     (case selectChecklist cls (acceptanceCriteriaChecklistName mp) of
                        (_, Some issue) \<Rightarrow> ([], [issue])
                      | (chosen, None) \<Rightarrow>
                          (map item_name
                             (case chosen of None \<Rightarrow> [] | Some cl \<Rightarrow> checklist_items cl), [])))
      in \<lparr> stm_story =
             \<lparr> story_id = storyId record,
               story_title = storyTitle record,
               story_status = (case status of None \<Rightarrow> Status_open | Some st \<Rightarrow> st),
               story_dependsOn = dependsOn,
               story_description = card_description (card record),
               story_acceptanceCriteria = fst sel \<rparr>,
           stm_issues = issues0 @ snd sel \<rparr>)"

definition storiesEquivalent :: "Platform \<Rightarrow> PrdStory \<Rightarrow> PrdStory \<Rightarrow> bool" where
  "storiesEquivalent P left right =
     (story_id left = story_id right \<and>
      story_title left = story_title right \<and>
      story_status left = story_status right \<and>
      story_description left = story_description right \<and>
      areSetsEqual P (story_dependsOn left) (story_dependsOn right) \<and>
      areArraysEqual (=) (story_acceptanceCriteria left) (story_acceptanceCriteria right))"

subsection \<open>buildPlan: indexing the two sides\<close>

text \<open>\<^verbatim>\<open>new Map(entries)\<close> and a sequence of \<^verbatim>\<open>Map.prototype.set\<close>: a later entry replaces the value.\<close>

definition new_Map :: "('k \<times> 'v) list \<Rightarrow> ('k \<times> 'v) list" where
  "new_Map entries = foldl (\<lambda>m e. AList.update (fst e) (snd e) m) [] entries"

record StoryIndex =
  prdById :: "(string \<times> PrdStory) list"
  storyFingerprints :: "(string \<times> string) list"
  duplicateStoryIds :: "string list"

text \<open>The body of \<^verbatim>\<open>prdResult.stories.forEach\<close>.\<close>

definition indexStory :: "Platform \<Rightarrow> StoryIndex \<Rightarrow> PrdStory \<Rightarrow> StoryIndex" where
  "indexStory P acc story =
     (let acc1 = acc\<lparr> storyFingerprints :=
                   AList.update (story_id story) (createStoryFingerprint P story)
                     (storyFingerprints acc) \<rparr>
      in if map_of (prdById acc1) (story_id story) \<noteq> None
         then acc1\<lparr> duplicateStoryIds := set_add (story_id story) (duplicateStoryIds acc1) \<rparr>
         else acc1\<lparr> prdById := AList.update (story_id story) story (prdById acc1) \<rparr>)"

definition indexStories :: "Platform \<Rightarrow> PrdStory list \<Rightarrow> StoryIndex" where
  "indexStories P ss =
     foldl (indexStory P) \<lparr> prdById = [], storyFingerprints = [], duplicateStoryIds = [] \<rparr> ss"

definition duplicateStoryConflict :: "string \<Rightarrow> SyncConflict" where
  "duplicateStoryConflict i =
     \<lparr> conflict_id = Some i, conflict_reason = ''Duplicate story ID in PRD stories'',
       conflict_cards = None, conflict_story = None \<rparr>"

text \<open>The body of \<^verbatim>\<open>cards.forEach\<close>: a conflict for a title that does not parse, a record else.\<close>

definition parseCard :: "StoryIdCodec \<Rightarrow> BoardCard \<Rightarrow> SyncConflict + CardRecord" where
  "parseCard codec c =
     (case parseCardTitle codec (card_name c) of
        ParseOk i t \<Rightarrow> Inr \<lparr> card = c, storyId = i, storyTitle = t \<rparr>
      | ParseMissing reason _ _ \<Rightarrow>
          Inl \<lparr> conflict_id = None, conflict_reason = reason,
                conflict_cards = Some [c], conflict_story = None \<rparr>
      | ParseAmbiguous reason _ _ \<Rightarrow>
          Inl \<lparr> conflict_id = None, conflict_reason = reason,
                conflict_cards = Some [c], conflict_story = None \<rparr>)"

definition titleConflicts :: "StoryIdCodec \<Rightarrow> BoardCard list \<Rightarrow> SyncConflict list" where
  "titleConflicts codec cs =
     List.map_filter (\<lambda>c. case parseCard codec c of Inl x \<Rightarrow> Some x | Inr _ \<Rightarrow> None) cs"

definition parsedCardRecords :: "StoryIdCodec \<Rightarrow> BoardCard list \<Rightarrow> CardRecord list" where
  "parsedCardRecords codec cs =
     List.map_filter (\<lambda>c. case parseCard codec c of Inl _ \<Rightarrow> None | Inr r \<Rightarrow> Some r) cs"

definition groupCardRecords :: "CardRecord list \<Rightarrow> (string \<times> CardRecord list) list" where
  "groupCardRecords records =
     foldl (\<lambda>m r. AList.update (storyId r)
                     ((case map_of m (storyId r) of None \<Rightarrow> [] | Some bucket \<Rightarrow> bucket) @ [r]) m)
           [] records"

definition duplicateCardConflict :: "string \<Rightarrow> CardRecord list \<Rightarrow> SyncConflict" where
  "duplicateCardConflict i records =
     \<lparr> conflict_id = Some i, conflict_reason = ''Duplicate story ID across Trello cards'',
       conflict_cards = Some (map card records), conflict_story = None \<rparr>"

definition duplicateCardConflicts :: "(string \<times> CardRecord list) list \<Rightarrow> SyncConflict list" where
  "duplicateCardConflicts byId =
     map (\<lambda>e. duplicateCardConflict (fst e) (snd e)) (filter (\<lambda>e. 1 < length (snd e)) byId)"

definition conflictedIds_of :: "string list \<Rightarrow> (string \<times> CardRecord list) list \<Rightarrow> string list" where
  "conflictedIds_of dups byId =
     foldl (\<lambda>acc e. set_add (fst e) acc) (new_Set dups) (filter (\<lambda>e. 1 < length (snd e)) byId)"

definition uniqueCardRecords_of :: "(string \<times> CardRecord list) list \<Rightarrow> CardRecord list" where
  "uniqueCardRecords_of byId =
     concat (map (\<lambda>e. take 1 (snd e)) (filter (\<lambda>e. \<not> 1 < length (snd e)) byId))"

subsection \<open>buildPlan: the incremental check and the checklists to fetch\<close>

definition isStoryUnchanged ::
  "SyncState option \<Rightarrow> (string \<times> string) list \<Rightarrow> PrdStory \<Rightarrow> bool" where
  "isStoryUnchanged incrementalState fps story =
     (case incrementalState of
        None \<Rightarrow> False
      | Some st \<Rightarrow>
          (case map_of (storyIndex st) (story_id story) of
             None \<Rightarrow> False
           | Some previous \<Rightarrow> Some (fingerprint previous) = map_of fps (story_id story)))"

definition isCardUnchanged :: "SyncState option \<Rightarrow> CardRecord \<Rightarrow> bool" where
  "isCardUnchanged incrementalState record =
     (case incrementalState of
        None \<Rightarrow> False
      | Some st \<Rightarrow>
          (case map_of (cardIndex st) (storyId record) of
             None \<Rightarrow> False
           | Some previous \<Rightarrow>
               entry_cardId previous = card_id (card record) \<and>
               entry_lastActivityAt previous = card_lastActivityAt (card record)))"

definition checklistTargets ::
  "SyncDirection \<Rightarrow> SyncState option \<Rightarrow> (string \<times> PrdStory) list \<Rightarrow> (string \<times> string) list
     \<Rightarrow> CardRecord list \<Rightarrow> CardRecord list" where
  "checklistTargets dir incrementalState byId fps uniqueCardRecords =
     filter (\<lambda>record.
               case map_of byId (storyId record) of
                 None \<Rightarrow> dir \<noteq> Prd_to_trello
               | Some story \<Rightarrow>
                   if incrementalState = None then True
                   else \<not> (isStoryUnchanged incrementalState fps story
                           \<and> isCardUnchanged incrementalState record))
            uniqueCardRecords"

subsection \<open>buildPlan: classifying one identifier\<close>

text \<open>What the closures of \<^verbatim>\<open>buildPlan\<close> see.\<close>

record PlanEnv =
  env_platform :: Platform
  env_mapping :: Mapping
  env_codec :: StoryIdCodec
  env_direction :: SyncDirection
  env_conflictPrefer :: ConflictPrefer
  env_createMissingLabels :: bool
  env_incrementalState :: "SyncState option"
  env_statusMapping :: StatusMappingResult
  env_listIdToName :: "(string \<times> string) list"
  env_labelNameToId :: "(string \<times> string) list"
  env_labelIdToName :: "(string \<times> string) list"
  env_prdById :: "(string \<times> PrdStory) list"
  env_storyFingerprints :: "(string \<times> string) list"
  env_recordById :: "(string \<times> CardRecord) list"
  env_conflictedIds :: "string list"
  env_checklistByCardId :: "(string \<times> BoardChecklist list) list"
  env_lastModifiedAt :: string

datatype PlanEntry =
    Create SyncCreate
  | Update SyncUpdate
  | Conflict SyncConflict
  | Noop SyncNoop

definition applyMissingLabelIssues :: "bool \<Rightarrow> CardMappingResult \<Rightarrow> CardMappingResult" where
  "applyMissingLabelIssues createMissing mappingResult =
     (if \<not> createMissing \<and> 0 < length (cm_missingLabels mappingResult) then
        mappingResult\<lparr> cm_issues := cm_issues mappingResult @
          [''Missing Trello labels: '' @ join '', '' (cm_missingLabels mappingResult)] \<rparr>
      else mappingResult)"

definition resolveListMove ::
  "(string \<times> string) list \<Rightarrow> CardRecord \<Rightarrow> BoardCardUpdate \<Rightarrow> SyncListMove option" where
  "resolveListMove listIdToName record cardUpdate =
     (case cardUpdate_listId cardUpdate of
        None \<Rightarrow> None
      | Some l \<Rightarrow>
          if l = [] then None
          else Some \<lparr> fromId = card_listId (card record), toId = l,
                      fromName = map_of listIdToName (card_listId (card record)),
                      toName = map_of listIdToName l \<rparr>)"

definition trelloUpdate ::
  "PlanEnv \<Rightarrow> string \<Rightarrow> string \<Rightarrow> PrdStory \<Rightarrow> CardRecord \<Rightarrow> CardMappingResult \<Rightarrow> PlanEntry" where
  "trelloUpdate env i reason story record cardMapping =
     Update (UpdateTrello
       \<lparr> ut_id = i, ut_reason = reason, ut_story = story, ut_card = card record,
         ut_cardUpdate = cm_cardUpdate cardMapping,
         ut_checklist = cm_checklist cardMapping,
         ut_checklistNeedsUpdate = cm_checklistNeedsUpdate cardMapping,
         ut_listMove = resolveListMove (env_listIdToName env) record (cm_cardUpdate cardMapping) \<rparr>)"

definition storyConflict :: "string \<Rightarrow> PrdStory \<Rightarrow> string list \<Rightarrow> PlanEntry" where
  "storyConflict i story issues =
     Conflict \<lparr> conflict_id = Some i, conflict_reason = join ''; '' issues,
                conflict_cards = None, conflict_story = Some story \<rparr>"

definition cardConflict :: "string \<Rightarrow> CardRecord \<Rightarrow> string list \<Rightarrow> PlanEntry" where
  "cardConflict i record issues =
     Conflict \<lparr> conflict_id = Some i, conflict_reason = join ''; '' issues,
                conflict_cards = Some [card record], conflict_story = None \<rparr>"

text \<open>A story with no card (lines 835 to 876 of the engine).\<close>

definition planStoryOnly :: "PlanEnv \<Rightarrow> string \<Rightarrow> PrdStory \<Rightarrow> StoryIdFormatError + PlanEntry" where
  "planStoryOnly env i story =
     (if env_direction env = Trello_to_prd then
        Inr (Noop \<lparr> noop_id = i, noop_reason = ''PRD-only story ignored'' \<rparr>)
      else
        (case buildCardMapping (env_platform env) story (env_mapping env) (env_statusMapping env)
                (env_labelNameToId env) (env_labelIdToName env) (env_codec env) None None of
           Inl e \<Rightarrow> Inl e
         | Inr built \<Rightarrow>
             (let mappingResult = applyMissingLabelIssues (env_createMissingLabels env) built
              in if 0 < length (cm_issues mappingResult) then
                   Inr (storyConflict i story (cm_issues mappingResult))
                 else
                   Inr (Create (SyncCreateTrello i ''PRD story missing in Trello'' story
                                  (cm_cardInput mappingResult) (cm_checklist mappingResult))))))"

text \<open>A card with no story (lines 878 to 917).\<close>

definition planCardOnly :: "PlanEnv \<Rightarrow> string \<Rightarrow> CardRecord \<Rightarrow> PlanEntry" where
  "planCardOnly env i record =
     (if env_direction env = Prd_to_trello then
        Noop \<lparr> noop_id = i, noop_reason = ''Trello-only card ignored'' \<rparr>
      else
        (let checklists = map_of (env_checklistByCardId env) (card_id (card record));
             mappingResult = buildStoryMapping (env_platform env) record (env_mapping env)
                               (env_statusMapping env) (env_labelIdToName env) checklists
         in if 0 < length (stm_issues mappingResult) then
              cardConflict i record (stm_issues mappingResult)
            else
              Create (SyncCreatePrd i ''Trello card missing in PRD''
                        (stm_story mappingResult) (card record))))"

text \<open>
  Both present and not skipped as unchanged: the two mappings (lines 935 to 959), with
  the label ids filled in when missing labels are to be created.
\<close>

definition pairCardMapping ::
  "PlanEnv \<Rightarrow> PrdStory \<Rightarrow> CardRecord \<Rightarrow> StoryIdFormatError + CardMappingResult" where
  "pairCardMapping env story record =
     (case buildCardMapping (env_platform env) story (env_mapping env) (env_statusMapping env)
             (env_labelNameToId env) (env_labelIdToName env) (env_codec env)
             (Some (card record))
             (map_of (env_checklistByCardId env) (card_id (card record))) of
        Inl e \<Rightarrow> Inl e
      | Inr built \<Rightarrow>
          (let cardMapping = applyMissingLabelIssues (env_createMissingLabels env) built;
               shouldCreateMissingLabels =
                 (env_createMissingLabels env \<and> 0 < length (cm_missingLabels cardMapping))
           in if shouldCreateMissingLabels
                 \<and> cardUpdate_labelIds (cm_cardUpdate cardMapping) = None
              then Inr (cardMapping\<lparr> cm_cardUpdate := (cm_cardUpdate cardMapping)
                         \<lparr> cardUpdate_labelIds :=
                             Some (cardInput_labelIds (cm_cardInput cardMapping)) \<rparr> \<rparr>)
              else Inr cardMapping))"

definition pairStoryMapping :: "PlanEnv \<Rightarrow> CardRecord \<Rightarrow> StoryMappingResult" where
  "pairStoryMapping env record =
     buildStoryMapping (env_platform env) record (env_mapping env) (env_statusMapping env)
       (env_labelIdToName env) (map_of (env_checklistByCardId env) (card_id (card record)))"

definition needsCardUpdate :: "PlanEnv \<Rightarrow> CardMappingResult \<Rightarrow> bool" where
  "needsCardUpdate env cardMapping =
     (length (cm_issues cardMapping) = 0 \<and>
      (hasUpdateFields (cm_cardUpdate cardMapping) \<or>
       cm_checklistNeedsUpdate cardMapping \<or>
       (env_createMissingLabels env \<and> 0 < length (cm_missingLabels cardMapping))))"

definition needsStoryUpdate :: "PlanEnv \<Rightarrow> PrdStory \<Rightarrow> StoryMappingResult \<Rightarrow> bool" where
  "needsStoryUpdate env story storyMapping =
     (length (stm_issues storyMapping) = 0 \<and>
      \<not> storiesEquivalent (env_platform env) story (stm_story storyMapping))"

text \<open>The decision for a pair once both mappings are there (lines 961 to 1155).\<close>

definition decidePair ::
  "PlanEnv \<Rightarrow> string \<Rightarrow> PrdStory \<Rightarrow> CardRecord \<Rightarrow> CardMappingResult \<Rightarrow> StoryMappingResult
     \<Rightarrow> PlanEntry" where
  "decidePair env i story record cardMapping storyMapping =
     (let canUpdateCard = (length (cm_issues cardMapping) = 0);
          canUpdateStory = (length (stm_issues storyMapping) = 0);
          needsCard = needsCardUpdate env cardMapping;
          needsStory = needsStoryUpdate env story storyMapping
      in
      if \<not> needsCard \<and> \<not> needsStory then
        Noop \<lparr> noop_id = i, noop_reason = ''Story and card in sync'' \<rparr>
      else if env_direction env = Prd_to_trello then
        (if \<not> canUpdateCard then storyConflict i story (cm_issues cardMapping)
         else if needsCard then trelloUpdate env i ''PRD update required'' story record cardMapping
         else Noop \<lparr> noop_id = i, noop_reason = ''No PRD-to-Trello change needed'' \<rparr>)
      else if env_direction env = Trello_to_prd then
        (if \<not> canUpdateStory then cardConflict i record (stm_issues storyMapping)
         else if needsStory then
           Update (UpdatePrd i ''Trello update required'' (stm_story storyMapping) (card record))
         else Noop \<lparr> noop_id = i, noop_reason = ''No Trello-to-PRD change needed'' \<rparr>)
      else if needsCard \<and> \<not> needsStory then
        trelloUpdate env i ''PRD update required'' story record cardMapping
      else if needsStory \<and> \<not> needsCard then
        Update (UpdatePrd i ''Trello update required'' (stm_story storyMapping) (card record))
      else
        (let timestampComparison =
               compareIsoTimestamps (env_platform env) (env_lastModifiedAt env)
                 (card_lastActivityAt (card record));
             resolvedComparison =
               resolveTimestampComparison timestampComparison (env_conflictPrefer env)
         in if resolvedComparison = 0 then
              Conflict \<lparr> conflict_id = Some i,
                         conflict_reason = ''PRD and Trello updates conflict (equal timestamps)'',
                         conflict_cards = Some [card record], conflict_story = Some story \<rparr>
            else
              (let preferPrd = (0 < resolvedComparison);
                   reason =
                     (if timestampComparison = 0 then
                        (if preferPrd then ''PRD preferred over Trello (equal timestamps)''
                         else ''Trello preferred over PRD (equal timestamps)'')
                      else if preferPrd then ''PRD newer than Trello''
                      else ''Trello newer than PRD'')
               in if preferPrd then
                    (if \<not> canUpdateCard then storyConflict i story (cm_issues cardMapping)
                     else trelloUpdate env i reason story record cardMapping)
                  else if \<not> canUpdateStory then
                    cardConflict i record (stm_issues storyMapping)
                  else Update (UpdatePrd i reason (stm_story storyMapping) (card record)))))"

text \<open>Both present (lines 923 to 1155).\<close>

definition planPair ::
  "PlanEnv \<Rightarrow> string \<Rightarrow> PrdStory \<Rightarrow> CardRecord \<Rightarrow> StoryIdFormatError + PlanEntry" where
  "planPair env i story record =
     (if env_incrementalState env \<noteq> None
         \<and> isStoryUnchanged (env_incrementalState env) (env_storyFingerprints env) story
         \<and> isCardUnchanged (env_incrementalState env) record
      then Inr (Noop \<lparr> noop_id = i, noop_reason = ''Unchanged since last sync'' \<rparr>)
      else
        (case pairCardMapping env story record of
           Inl e \<Rightarrow> Inl e
         | Inr cardMapping \<Rightarrow>
             Inr (decidePair env i story record cardMapping (pairStoryMapping env record))))"

text \<open>The body of the loop over \<^verbatim>\<open>sortedIds\<close>; \<open>None\<close> is a \<^verbatim>\<open>continue\<close> that adds nothing.\<close>

definition planForId :: "PlanEnv \<Rightarrow> string \<Rightarrow> StoryIdFormatError + PlanEntry option" where
  "planForId env i =
     (if i \<in> set (env_conflictedIds env) then Inr None
      else
        (case (map_of (env_prdById env) i, map_of (env_recordById env) i) of
           (Some story, None) \<Rightarrow> map_sum id Some (planStoryOnly env i story)
         | (None, Some record) \<Rightarrow> Inr (Some (planCardOnly env i record))
         | (None, None) \<Rightarrow> Inr None
         | (Some story, Some record) \<Rightarrow> map_sum id Some (planPair env i story record)))"

definition pushEntry :: "SyncPlan \<Rightarrow> PlanEntry \<Rightarrow> SyncPlan" where
  "pushEntry plan entry =
     (case entry of
        Create c \<Rightarrow> plan\<lparr> creates := creates plan @ [c] \<rparr>
      | Update u \<Rightarrow> plan\<lparr> updates := updates plan @ [u] \<rparr>
      | Conflict c \<Rightarrow> plan\<lparr> conflicts := conflicts plan @ [c] \<rparr>
      | Noop n \<Rightarrow> plan\<lparr> noop := noop plan @ [n] \<rparr>)"

fun planLoop :: "PlanEnv \<Rightarrow> string list \<Rightarrow> SyncPlan \<Rightarrow> StoryIdFormatError + SyncPlan" where
  "planLoop env [] plan = Inr plan"
| "planLoop env (i # ids) plan =
     (case planForId env i of
        Inl e \<Rightarrow> Inl e
      | Inr None \<Rightarrow> planLoop env ids plan
      | Inr (Some entry) \<Rightarrow> planLoop env ids (pushEntry plan entry))"

subsection \<open>buildPlan\<close>

definition conflictKey :: "SyncConflict \<Rightarrow> string" where
  "conflictKey c = (case conflict_id c of Some i \<Rightarrow> i | None \<Rightarrow> conflict_reason c)"

definition sortPlan :: "Platform \<Rightarrow> SyncPlan \<Rightarrow> SyncPlan" where
  "sortPlan P plan =
     \<lparr> creates = js_sort (\<lambda>left right. localeCompare P (create_id left) (create_id right))
                   (creates plan),
       updates = js_sort (\<lambda>left right. localeCompare P (update_id left) (update_id right))
                   (updates plan),
       conflicts = js_sort (\<lambda>left right. localeCompare P (conflictKey left) (conflictKey right))
                     (conflicts plan),
       noop = js_sort (\<lambda>left right. localeCompare P (noop_id left) (noop_id right))
                (noop plan) \<rparr>"

definition codecMapping :: "Mapping \<Rightarrow> StoryIdMapping" where
  "codecMapping mp =
     \<lparr> storyPrefix = map_storyPrefix mp, idPattern = map_idPattern mp,
       cardTitleFormat = map_cardTitleFormat mp \<rparr>"

definition incrementalState_of :: "SyncPlanOptions \<Rightarrow> SyncState option" where
  "incrementalState_of options =
     (case state options of
        None \<Rightarrow> None
      | Some st \<Rightarrow> if incremental options \<noteq> Some False then Some st else None)"

definition direction_of :: "SyncPlanOptions \<Rightarrow> SyncDirection" where
  "direction_of options = (case direction options of None \<Rightarrow> Two_way | Some d \<Rightarrow> d)"

text \<open>The conflicts gathered before the loop, in the order they are pushed.\<close>

definition initialConflicts ::
  "StatusMappingResult \<Rightarrow> StoryIndex \<Rightarrow> StoryIdCodec \<Rightarrow> BoardCard list \<Rightarrow> SyncConflict list" where
  "initialConflicts statusMapping idx codec cs =
     map (\<lambda>issue. \<lparr> conflict_id = None, conflict_reason = issue,
                     conflict_cards = None, conflict_story = None \<rparr>) (sm_issues statusMapping)
     @ map duplicateStoryConflict (duplicateStoryIds idx)
     @ titleConflicts codec cs
     @ duplicateCardConflicts (groupCardRecords (parsedCardRecords codec cs))"

definition planEnv ::
  "Platform \<Rightarrow> SyncPlanOptions \<Rightarrow> FormatReadResult \<Rightarrow> BoardSnapshot \<Rightarrow> StoryIdCodec \<Rightarrow> PlanEnv" where
  "planEnv P options prdResult board codec =
     (let idx = indexStories P (stories prdResult);
          cardRecordsById = groupCardRecords (parsedCardRecords codec (getCards board));
          uniqueCardRecords = uniqueCardRecords_of cardRecordsById;
          targets = checklistTargets (direction_of options) (incrementalState_of options)
                      (prdById idx) (storyFingerprints idx) uniqueCardRecords
      in \<lparr> env_platform = P,
            env_mapping = mapping options,
            env_codec = codec,
            env_direction = direction_of options,
            env_conflictPrefer = resolveConflictPrefer (conflict options),
            env_createMissingLabels = resolveCreateMissingLabels (conflict options),
            env_incrementalState = incrementalState_of options,
            env_statusMapping =
              createStatusMapping P (getLists board) (statusToList (mapping options)),
            env_listIdToName = new_Map (map (\<lambda>l. (list_id l, list_name l)) (getLists board)),
            env_labelNameToId =
              new_Map (map (\<lambda>l. (label_name l, label_id l)) (getLabels board)),
            env_labelIdToName =
              new_Map (map (\<lambda>l. (label_id l, label_name l)) (getLabels board)),
            env_prdById = prdById idx,
            env_storyFingerprints = storyFingerprints idx,
            env_recordById = new_Map (map (\<lambda>r. (storyId r, r)) uniqueCardRecords),
            env_conflictedIds = conflictedIds_of (duplicateStoryIds idx) cardRecordsById,
            env_checklistByCardId =
              new_Map (map (\<lambda>r. (card_id (card r), getCardChecklists board (card_id (card r))))
                           targets),
            env_lastModifiedAt = lastModifiedAt prdResult \<rparr>)"

definition sortedIds_of :: "Platform \<Rightarrow> PlanEnv \<Rightarrow> CardRecord list \<Rightarrow> string list" where
  "sortedIds_of P env uniqueCardRecords =
     sortStrings P (new_Set (map fst (env_prdById env) @ map storyId uniqueCardRecords))"

definition buildPlan ::
  "Platform \<Rightarrow> SyncPlanOptions \<Rightarrow> FormatReadResult \<Rightarrow> BoardSnapshot
     \<Rightarrow> StoryIdFormatError + (SyncPlan \<times> SyncContext)" where
  "buildPlan P options prdResult board =
     (case createStoryIdCodec (codecMapping (mapping options)) of
        Inl e \<Rightarrow> Inl e
      | Inr codec \<Rightarrow>
          (let env = planEnv P options prdResult board codec;
               uniqueCardRecords =
                 uniqueCardRecords_of (groupCardRecords (parsedCardRecords codec (getCards board)));
               plan0 = \<lparr> creates = [], updates = [],
                         conflicts = initialConflicts (env_statusMapping env)
                                       (indexStories P (stories prdResult)) codec (getCards board),
                         noop = [] \<rparr>
           in case planLoop env (sortedIds_of P env uniqueCardRecords) plan0 of
                Inl e \<Rightarrow> Inl e
              | Inr plan \<Rightarrow>
                  Inr (sortPlan P plan,
                       \<lparr> prdStories = stories prdResult, cardRecords = uniqueCardRecords \<rparr>)))"

section \<open>sync-engine.ts: applying a plan\<close>

text \<open>
  The write requests the board adapter, the format adapter and the state store receive,
  in the order they are issued.
\<close>

datatype Effect =
    EffCreateLabel BoardLabelInput
  | EffCreateCard BoardCardInput
  | EffUpdateCard string BoardCardUpdate
  | EffUpsertChecklist string BoardChecklistInput
  | EffWriteStories string "PrdStory list"
  | EffSaveState string SyncState

text \<open>
  What the write operations answer (\<open>Inl\<close> is a rejected promise with its message), and
  what \<^verbatim>\<open>getCards\<close> returns once the writes are done.
\<close>

record Adapters =
  createLabel :: "BoardLabelInput \<Rightarrow> string + BoardLabel"
  createCard :: "BoardCardInput \<Rightarrow> string + BoardCard"
  updateCard :: "string \<Rightarrow> BoardCardUpdate \<Rightarrow> string + BoardCard"
  upsertChecklist :: "string \<Rightarrow> BoardChecklistInput \<Rightarrow> string + unit"
  writeStories :: "string \<Rightarrow> PrdStory list \<Rightarrow> string + unit"
  refreshedCards :: "BoardCard list"

datatype SyncFailure = FormatFailure StoryIdFormatError | AdapterFailure string

record SyncApplyResult =
  updatedStories :: "PrdStory list"
  updatedCardsByStoryId :: "(string \<times> BoardCard) list"
  checklistTouchedCardIds :: "string list"

record SyncSnapshot =
  snap_stories :: "PrdStory list"
  snap_cards :: "SyncStateCardRecord list"
  snap_lastSeenTrelloActivity :: string

subsection \<open>applyPlan: the labels to create\<close>

definition desiredLabelNames :: "Mapping \<Rightarrow> SyncCreate list \<Rightarrow> SyncUpdate list \<Rightarrow> string list" where
  "desiredLabelNames mp trelloCreates trelloUpdates =
     new_Set (concat (map (\<lambda>c. map (\<lambda>dependency. dependsOnLabelPrefix mp @ dependency)
                                     (story_dependsOn (create_story c))) trelloCreates)
              @ concat (map (\<lambda>u. map (\<lambda>dependency. dependsOnLabelPrefix mp @ dependency)
                                     (story_dependsOn (update_story u))) trelloUpdates))"

text \<open>The loop over \<^verbatim>\<open>missingLabelNames\<close>; it stops at the first rejected \<^verbatim>\<open>createLabel\<close>.\<close>

fun createLabels ::
  "Adapters \<Rightarrow> string list \<Rightarrow> (string \<times> string) list \<times> (string \<times> string) list \<Rightarrow> Effect list
     \<Rightarrow> (string + (string \<times> string) list \<times> (string \<times> string) list) \<times> Effect list" where
  "createLabels A [] maps log = (Inr maps, log)"
| "createLabels A (labelName # names) (labelNameToId, labelIdToName) log =
     (let input = \<lparr> labelInput_name = labelName, labelInput_color = None \<rparr>;
          log1 = log @ [EffCreateLabel input]
      in case createLabel A input of
           Inl e \<Rightarrow> (Inl e, log1)
         | Inr created \<Rightarrow>
             createLabels A names
               (AList.update (label_name created) (label_id created) labelNameToId,
                AList.update (label_id created) (label_name created) labelIdToName) log1)"

text \<open>The two \<^verbatim>\<open>forEach\<close> that write the resolved label ids into the entries of the plan.\<close>

definition relabelCreate ::
  "Platform \<Rightarrow> Mapping \<Rightarrow> (string \<times> string) list \<Rightarrow> (string \<times> string) list \<Rightarrow> SyncCreate
     \<Rightarrow> SyncCreate" where
  "relabelCreate P mp labelNameToId labelIdToName c =
     (case c of
        SyncCreateTrello i reason story cardInput checklist \<Rightarrow>
          SyncCreateTrello i reason story
            (cardInput\<lparr> cardInput_labelIds :=
               labelIds (resolveLabelIds P story mp labelNameToId labelIdToName None) \<rparr>)
            checklist
      | SyncCreatePrd i reason story cd \<Rightarrow> SyncCreatePrd i reason story cd)"

definition relabelUpdate ::
  "Platform \<Rightarrow> Mapping \<Rightarrow> (string \<times> string) list \<Rightarrow> (string \<times> string) list \<Rightarrow> SyncUpdate
     \<Rightarrow> SyncUpdate" where
  "relabelUpdate P mp labelNameToId labelIdToName u =
     (case u of
        UpdateTrello r \<Rightarrow>
          (let ids = labelIds (resolveLabelIds P (ut_story r) mp labelNameToId labelIdToName
                                 (Some (ut_card r)))
           in if \<not> areSetsEqual P (card_labelIds (ut_card r)) ids
              then UpdateTrello (r\<lparr> ut_cardUpdate :=
                                     (ut_cardUpdate r)\<lparr> cardUpdate_labelIds := Some ids \<rparr> \<rparr>)
              else UpdateTrello r)
      | UpdatePrd i reason story cd \<Rightarrow> UpdatePrd i reason story cd)"

text \<open>
  The block guarded by \<^verbatim>\<open>createMissingLabels\<close>.  The entries of the plan are mutated in place,
  so the plan comes back with the label ids written into it.  Nothing is written between the
  reads of \<^verbatim>\<open>buildPlan\<close> and this \<^verbatim>\<open>getLabels\<close>, which returns the labels of the snapshot.
\<close>

definition applyLabels ::
  "Platform \<Rightarrow> Adapters \<Rightarrow> SyncPlanOptions \<Rightarrow> BoardSnapshot \<Rightarrow> SyncPlan \<Rightarrow> Effect list
     \<Rightarrow> (string + SyncPlan) \<times> Effect list" where
  "applyLabels P A options board plan log =
     (let trelloCreates = filter (\<lambda>entry. create_target entry = Trello) (creates plan);
          trelloUpdates = filter (\<lambda>entry. update_target entry = Trello) (updates plan)
      in if resolveCreateMissingLabels (conflict options)
            \<and> (0 < length trelloCreates \<or> 0 < length trelloUpdates)
         then
           (let labels = getLabels board;
                labelNameToId = new_Map (map (\<lambda>l. (label_name l, label_id l)) labels);
                labelIdToName = new_Map (map (\<lambda>l. (label_id l, label_name l)) labels);
                missingLabelNames =
                  filter (\<lambda>name. map_of labelNameToId name = None)
                    (sortStrings P (desiredLabelNames (mapping options) trelloCreates trelloUpdates))
            in case createLabels A missingLabelNames (labelNameToId, labelIdToName) log of
                 (Inl e, log1) \<Rightarrow> (Inl e, log1)
               | (Inr (n2i, i2n), log1) \<Rightarrow>
                   (Inr (plan\<lparr> creates := map (relabelCreate P (mapping options) n2i i2n) (creates plan),
                               updates := map (relabelUpdate P (mapping options) n2i i2n) (updates plan) \<rparr>),
                    log1))
         else (Inr plan, log))"

subsection \<open>applyPlan: the writes\<close>

text \<open>The loop over \<^verbatim>\<open>trelloCreates\<close>.\<close>

fun applyCreates ::
  "Adapters \<Rightarrow> SyncCreate list \<Rightarrow> (string \<times> BoardCard) list \<times> string list \<Rightarrow> Effect list
     \<Rightarrow> (string + (string \<times> BoardCard) list \<times> string list) \<times> Effect list" where
  "applyCreates A [] acc log = (Inr acc, log)"
| "applyCreates A (SyncCreatePrd i reason story cd # rest) acc log = applyCreates A rest acc log"
| "applyCreates A (SyncCreateTrello i reason story cardInput checklist # rest) (updated, touched) log =
     (let log1 = log @ [EffCreateCard cardInput]
      in case createCard A cardInput of
           Inl e \<Rightarrow> (Inl e, log1)
         | Inr cd \<Rightarrow>
             (let updated1 = AList.update i cd updated
              in if 0 < length (checklistInput_items checklist) then
                   (let log2 = log1 @ [EffUpsertChecklist (card_id cd) checklist]
                    in case upsertChecklist A (card_id cd) checklist of
                         Inl e \<Rightarrow> (Inl e, log2)
                       | Inr _ \<Rightarrow>
                           applyCreates A rest (updated1, set_add (card_id cd) touched) log2)
                 else applyCreates A rest (updated1, touched) log1))"

text \<open>One turn of the loop over \<^verbatim>\<open>trelloUpdates\<close>.\<close>

definition applyUpdate ::
  "Adapters \<Rightarrow> SyncUpdateTrello \<Rightarrow> (string \<times> BoardCard) list \<times> string list \<Rightarrow> Effect list
     \<Rightarrow> (string + (string \<times> BoardCard) list \<times> string list) \<times> Effect list" where
  "applyUpdate A r acc log =
     (case (if hasUpdateFields (ut_cardUpdate r) then
              (case updateCard A (card_id (ut_card r)) (ut_cardUpdate r) of
                 Inl e \<Rightarrow> (Inl e, log @ [EffUpdateCard (card_id (ut_card r)) (ut_cardUpdate r)])
               | Inr cd \<Rightarrow>
                   (Inr (AList.update (ut_id r) cd (fst acc)),
                    log @ [EffUpdateCard (card_id (ut_card r)) (ut_cardUpdate r)]))
            else (Inr (fst acc), log)) of
        (Inl e, log1) \<Rightarrow> (Inl e, log1)
      | (Inr updated1, log1) \<Rightarrow>
          if ut_checklistNeedsUpdate r then
            (let log2 = log1 @ [EffUpsertChecklist (card_id (ut_card r)) (ut_checklist r)]
             in case upsertChecklist A (card_id (ut_card r)) (ut_checklist r) of
                  Inl e \<Rightarrow> (Inl e, log2)
                | Inr _ \<Rightarrow> (Inr (updated1, set_add (card_id (ut_card r)) (snd acc)), log2))
          else (Inr (updated1, snd acc), log1))"

fun applyUpdates ::
  "Adapters \<Rightarrow> SyncUpdate list \<Rightarrow> (string \<times> BoardCard) list \<times> string list \<Rightarrow> Effect list
     \<Rightarrow> (string + (string \<times> BoardCard) list \<times> string list) \<times> Effect list" where
  "applyUpdates A [] acc log = (Inr acc, log)"
| "applyUpdates A (UpdatePrd i reason story cd # rest) acc log = applyUpdates A rest acc log"
| "applyUpdates A (UpdateTrello r # rest) acc log =
     (case applyUpdate A r acc log of
        (Inl e, log1) \<Rightarrow> (Inl e, log1)
      | (Inr acc1, log1) \<Rightarrow> applyUpdates A rest acc1 log1)"

definition applyPrdChanges :: "Platform \<Rightarrow> PrdStory list \<Rightarrow> PrdStory list \<Rightarrow> PrdStory list" where
  "applyPrdChanges P storyList changes =
     (let updatedById = new_Map (map (\<lambda>s. (story_id s, s)) changes);
          existingIds = new_Set (map story_id storyList);
          created = new_Set (filter (\<lambda>i. i \<notin> set existingIds) (map story_id changes));
          updatedStories = map (\<lambda>story. case map_of updatedById (story_id story) of
                                            None \<Rightarrow> story | Some s \<Rightarrow> s) storyList;
          createdStories = List.map_filter (map_of updatedById) (sortStrings P created)
      in updatedStories @ createdStories)"

definition applyPlan ::
  "Platform \<Rightarrow> Adapters \<Rightarrow> SyncPlanOptions \<Rightarrow> BoardSnapshot \<Rightarrow> SyncPlan \<Rightarrow> SyncContext
     \<Rightarrow> Effect list \<Rightarrow> (string + SyncApplyResult \<times> SyncPlan) \<times> Effect list" where
  "applyPlan P A options board plan0 ctx log0 =
     (case applyLabels P A options board plan0 log0 of
        (Inl e, log1) \<Rightarrow> (Inl e, log1)
      | (Inr plan, log1) \<Rightarrow>
          (case applyCreates A (filter (\<lambda>entry. create_target entry = Trello) (creates plan))
                  ([], []) log1 of
             (Inl e, log2) \<Rightarrow> (Inl e, log2)
           | (Inr acc, log2) \<Rightarrow>
               (case applyUpdates A (filter (\<lambda>entry. update_target entry = Trello) (updates plan))
                       acc log2 of
                  (Inl e, log3) \<Rightarrow> (Inl e, log3)
                | (Inr (updated, touched), log3) \<Rightarrow>
                    (let prdChanges =
                           map create_story (filter (\<lambda>entry. create_target entry = Prd) (creates plan))
                           @ map update_story
                               (filter (\<lambda>entry. update_target entry = Prd) (updates plan))
                     in if 0 < length prdChanges then
                          (let storiesOut = applyPrdChanges P (prdStories ctx) prdChanges;
                               log4 = log3 @ [EffWriteStories (prdPath options) storiesOut]
                           in case writeStories A (prdPath options) storiesOut of
                                Inl e \<Rightarrow> (Inl e, log4)
                              | Inr _ \<Rightarrow>
                                  (Inr (\<lparr> updatedStories = storiesOut,
                                          updatedCardsByStoryId = updated,
                                          checklistTouchedCardIds = touched \<rparr>, plan), log4))
                        else
                          (Inr (\<lparr> updatedStories = prdStories ctx,
                                  updatedCardsByStoryId = updated,
                                  checklistTouchedCardIds = touched \<rparr>, plan), log3)))))"

subsection \<open>buildSnapshot\<close>

text \<open>Here and in \<open>syncWithStateFile\<close>, \<open>now\<close> is what \<^verbatim>\<open>new Date().toISOString()\<close> gives during the run.\<close>

definition buildSnapshot ::
  "Platform \<Rightarrow> string \<Rightarrow> Adapters \<Rightarrow> SyncContext \<Rightarrow> SyncApplyResult \<Rightarrow> SyncSnapshot" where
  "buildSnapshot P now A ctx applyResult =
     (let cards0 = map (\<lambda>r. \<lparr> scr_storyId = storyId r,
                                scr_card = (case map_of (updatedCardsByStoryId applyResult) (storyId r) of
                                              None \<Rightarrow> card r | Some cd \<Rightarrow> cd) \<rparr>)
                       (cardRecords ctx);
          existingStoryIds = new_Set (map scr_storyId cards0);
          cards1 = cards0 @ map (\<lambda>e. \<lparr> scr_storyId = fst e, scr_card = snd e \<rparr>)
                              (filter (\<lambda>e. fst e \<notin> set existingStoryIds)
                                 (updatedCardsByStoryId applyResult));
          cards2 = (if 0 < length (checklistTouchedCardIds applyResult) then
                      (let refreshedById = new_Map (map (\<lambda>cd. (card_id cd, cd)) (refreshedCards A))
                       in map (\<lambda>r. \<lparr> scr_storyId = scr_storyId r,
                                      scr_card = (case map_of refreshedById (card_id (scr_card r)) of
                                                    None \<Rightarrow> scr_card r | Some cd \<Rightarrow> cd) \<rparr>)
                              cards1)
                    else cards1)
      in \<lparr> snap_stories = updatedStories applyResult,
            snap_cards = cards2,
            snap_lastSeenTrelloActivity = resolveLatestActivity P now cards2 \<rparr>)"

subsection \<open>syncWithState\<close>

definition shouldSkipApply :: "SyncPlanOptions \<Rightarrow> SyncPlan \<Rightarrow> bool" where
  "shouldSkipApply options plan =
     (dryRun options = Some True
      \<or> ((case conflict options of None \<Rightarrow> False | Some c \<Rightarrow> co_blockWrites c = Some True)
         \<and> 0 < length (conflicts plan)))"

definition syncWithState ::
  "Platform \<Rightarrow> string \<Rightarrow> Adapters \<Rightarrow> SyncPlanOptions \<Rightarrow> FormatReadResult \<Rightarrow> BoardSnapshot
     \<Rightarrow> Effect list \<Rightarrow> (SyncFailure + SyncPlan \<times> SyncSnapshot) \<times> Effect list" where
  "syncWithState P now A options prdResult board log =
     (case buildPlan P options prdResult board of
        Inl e \<Rightarrow> (Inl (FormatFailure e), log)
      | Inr (plan, ctx) \<Rightarrow>
          if shouldSkipApply options plan then
            (Inr (plan, buildSnapshot P now A ctx
                          \<lparr> updatedStories = prdStories ctx, updatedCardsByStoryId = [],
                            checklistTouchedCardIds = [] \<rparr>), log)
          else
            (case applyPlan P A options board plan ctx log of
               (Inl e, log1) \<Rightarrow> (Inl (AdapterFailure e), log1)
             | (Inr (applyResult, plan1), log1) \<Rightarrow>
                 (Inr (plan1, buildSnapshot P now A ctx applyResult), log1)))"

section \<open>sync-state-store.ts and sync-with-state.ts: the state file\<close>

text \<open>
  What is at the path of the state file: nothing, a file that cannot be read, text that
  \<^verbatim>\<open>JSON.parse\<close> or \<^verbatim>\<open>parseSyncState\<close> refuses (with the message of the error), or the state
  that \<^verbatim>\<open>parseSyncState\<close> returns.
\<close>

datatype StateFile =
    NoFile
  | ReadError string
  | InvalidJson string
  | InvalidState string
  | StateJson SyncState

record World =
  w_files :: "string \<Rightarrow> StateFile"
  w_effects :: "Effect list"
  w_warnings :: "string list"

record SyncStateLoadOptions =
  load_boardId :: string
  load_prdPath :: string
  load_mappingSignature :: string

text \<open>\<^verbatim>\<open>validateSyncState\<close>: the message of the error it throws, if any.\<close>

definition validateSyncState :: "SyncState \<Rightarrow> SyncStateLoadOptions \<Rightarrow> string option" where
  "validateSyncState st opts =
     (if load_boardId opts \<noteq> [] \<and> state_boardId st \<noteq> load_boardId opts then
        Some (''state.boardId mismatch (expected '' @ quoted (load_boardId opts) @ '', got ''
                @ quoted (state_boardId st) @ '')'')
      else if load_prdPath opts \<noteq> [] \<and> state_prdPath st \<noteq> load_prdPath opts then
        Some (''state.prdPath mismatch (expected '' @ quoted (load_prdPath opts) @ '', got ''
                @ quoted (state_prdPath st) @ '')'')
      else if load_mappingSignature opts \<noteq> []
              \<and> state_mappingSignature st \<noteq> load_mappingSignature opts then
        Some ''state.mappingSignature mismatch (mapping changed)''
      else None)"

definition loadSyncState ::
  "string \<Rightarrow> SyncStateLoadOptions \<Rightarrow> World \<Rightarrow> SyncState option \<times> World" where
  "loadSyncState statePath opts w =
     (case w_files w statePath of
        NoFile \<Rightarrow> (None, w)
      | ReadError message \<Rightarrow>
          (None, w\<lparr> w_warnings := w_warnings w @
             [''Ignoring sync state at '' @ statePath @ '': failed to read ('' @ message @ '')''] \<rparr>)
      | InvalidJson message \<Rightarrow>
          (None, w\<lparr> w_warnings := w_warnings w @
             [''Ignoring sync state at '' @ statePath @ '': invalid JSON ('' @ message @ '')''] \<rparr>)
      | InvalidState message \<Rightarrow>
          (None, w\<lparr> w_warnings := w_warnings w @
             [''Ignoring sync state at '' @ statePath @ '': '' @ message] \<rparr>)
      | StateJson st \<Rightarrow>
          (case validateSyncState st opts of
             Some message \<Rightarrow>
               (None, w\<lparr> w_warnings := w_warnings w @
                  [''Ignoring sync state at '' @ statePath @ '': '' @ message] \<rparr>)
           | None \<Rightarrow> (Some st, w)))"

text \<open>\<^verbatim>\<open>saveSyncState\<close>: the file holds the serialized state afterwards.\<close>

definition saveSyncState :: "string \<Rightarrow> SyncState \<Rightarrow> World \<Rightarrow> World" where
  "saveSyncState statePath st w =
     w\<lparr> w_files := (w_files w)(statePath := StateJson st),
        w_effects := w_effects w @ [EffSaveState statePath st] \<rparr>"

definition syncWithStateFile ::
  "Platform \<Rightarrow> string \<Rightarrow> Adapters \<Rightarrow> string \<Rightarrow> string \<Rightarrow> SyncPlanOptions
     \<Rightarrow> FormatReadResult \<Rightarrow> BoardSnapshot \<Rightarrow> World
     \<Rightarrow> (SyncFailure + SyncPlan \<times> SyncState) \<times> World" where
  "syncWithStateFile P now A statePath boardId options prdResult board w0 =
     (let shouldUseIncremental = (case incremental options of None \<Rightarrow> True | Some b \<Rightarrow> b);
          mappingSignature = createMappingSignature P (mapping options);
          (priorState, w1) =
            (if shouldUseIncremental then
               loadSyncState statePath
                 \<lparr> load_boardId = boardId, load_prdPath = prdPath options,
                   load_mappingSignature = mappingSignature \<rparr> w0
             else (None, w0))
      in case syncWithState P now A
                (options\<lparr> incremental := Some shouldUseIncremental, state := priorState \<rparr>)
                prdResult board (w_effects w1) of
           (Inl e, log) \<Rightarrow> (Inl e, w1\<lparr> w_effects := log \<rparr>)
         | (Inr (plan, snapshot), log) \<Rightarrow>
             (let w2 = w1\<lparr> w_effects := log \<rparr>;
                  nextState = createSyncState P now
                    \<lparr> in_boardId = boardId, in_prdPath = prdPath options,
                      in_mapping = mapping options, in_stories = snap_stories snapshot,
                      in_cards = snap_cards snapshot,
                      in_lastSeenTrelloActivity = Some (snap_lastSeenTrelloActivity snapshot),
                      in_lastRunAt = None \<rparr>
              in if dryRun options \<noteq> Some True
                 then (Inr (plan, nextState), saveSyncState statePath nextState w2)
                 else (Inr (plan, nextState), w2)))"

section \<open>A reference platform and sample data\<close>

text \<open>
  The theorems below hold for every platform.  Where a theorem is applied to concrete data,
  the platform compares strings by code units, reads timestamps of the form
  \<^verbatim>\<open>YYYY-MM-DDTHH:MM:SSZ\<close> and hashes by the identity.
\<close>

fun codeUnitCompare :: "string \<Rightarrow> string \<Rightarrow> int" where
  "codeUnitCompare [] [] = 0"
| "codeUnitCompare [] (y # ys) = - 1"
| "codeUnitCompare (x # xs) [] = 1"
| "codeUnitCompare (x # xs) (y # ys) =
     (if x = y then codeUnitCompare xs ys
      else if (of_char x :: int) < of_char y then - 1 else 1)"

definition digits_value :: "string \<Rightarrow> int" where
  "digits_value ds = foldl (\<lambda>n c. 10 * n + (of_char c - 48)) 0 ds"

definition days_from_civil :: "int \<Rightarrow> int \<Rightarrow> int \<Rightarrow> int" where
  "days_from_civil y m d =
     (let y1 = (if m \<le> 2 then y - 1 else y);
          era = y1 div 400;
          yoe = y1 - era * 400;
          doy = (153 * (m + (if 2 < m then - 3 else 9)) + 2) div 5 + d - 1;
          doe = yoe * 365 + yoe div 4 - yoe div 100 + doy
      in era * 146097 + doe - 719468)"

definition isoParse :: "string \<Rightarrow> int option" where
  "isoParse s =
     (if length s = 20
         \<and> list_all is_digit (take 4 s) \<and> s ! 4 = CHR ''-''
         \<and> list_all is_digit (take 2 (drop 5 s)) \<and> s ! 7 = CHR ''-''
         \<and> list_all is_digit (take 2 (drop 8 s)) \<and> s ! 10 = CHR ''T''
         \<and> list_all is_digit (take 2 (drop 11 s)) \<and> s ! 13 = CHR '':''
         \<and> list_all is_digit (take 2 (drop 14 s)) \<and> s ! 16 = CHR '':''
         \<and> list_all is_digit (take 2 (drop 17 s)) \<and> s ! 19 = CHR ''Z''
      then
        (let days = days_from_civil (digits_value (take 4 s)) (digits_value (take 2 (drop 5 s)))
                      (digits_value (take 2 (drop 8 s)));
             hours = days * 24 + digits_value (take 2 (drop 11 s));
             minutes = hours * 60 + digits_value (take 2 (drop 14 s));
             seconds = minutes * 60 + digits_value (take 2 (drop 17 s))
         in Some (seconds * 1000))
      else None)"

definition refPlatform :: Platform where
  "refPlatform =
     \<lparr> localeCompare = codeUnitCompare, dateParse = isoParse, sha256hex = (\<lambda>s. s) \<rparr>"

text \<open>The mapping of the README and of the tests.\<close>

definition sampleMapping :: Mapping where
  "sampleMapping =
     \<lparr> map_storyPrefix = ''US'', map_idPattern = ''{prefix}-{number:3}'',
       map_cardTitleFormat = ''[{id}] {title}'', dependsOnLabelPrefix = ''s:'',
       statusToList = \<lparr> stl_open = ''To Do'', stl_in_progress = ''In Progress'',
                        stl_done = ''Done'' \<rparr>,
       acceptanceCriteriaChecklistName = ''Acceptance Criteria'' \<rparr>"

definition sampleCodec :: StoryIdCodec where
  "sampleCodec =
     \<lparr> codec_idPattern =
         \<lparr> ips_template = ''{prefix}-{number:3}'', ips_prefix = ''US'',
           ips_numberToken = ''{number:3}'', ips_padding = Some 3,
           ips_regex = [IdLit CHR ''U'', IdLit CHR ''S'', IdLit CHR ''-'', IdDigits 3] \<rparr>,
       codec_cardTitleSpec =
         \<lparr> cts_template = ''[{id}] {title}'',
           cts_regex = [TLit CHR ''['', TIdGroup, TLit CHR '']'', TLit CHR '' '', TTitleGroup] \<rparr> \<rparr>"

definition sampleLists :: "BoardList list" where
  "sampleLists =
     [\<lparr> list_id = ''list-open'', list_name = ''To Do'', list_closed = False \<rparr>,
      \<lparr> list_id = ''list-progress'', list_name = ''In Progress'', list_closed = False \<rparr>,
      \<lparr> list_id = ''list-done'', list_name = ''Done'', list_closed = False \<rparr>]"

definition sampleStory :: "string \<Rightarrow> string \<Rightarrow> string \<Rightarrow> PrdStory" where
  "sampleStory i t d =
     \<lparr> story_id = i, story_title = t, story_status = Status_open, story_dependsOn = [],
       story_description = d, story_acceptanceCriteria = [] \<rparr>"

definition sampleCard :: "string \<Rightarrow> string \<Rightarrow> string \<Rightarrow> string \<Rightarrow> BoardCard" where
  "sampleCard i n d a =
     \<lparr> card_id = i, card_name = n, card_description = d, card_listId = ''list-open'',
       card_labelIds = [], card_closed = False, card_lastActivityAt = a \<rparr>"

definition sampleOptions :: "ConflictPrefer \<Rightarrow> SyncPlanOptions" where
  "sampleOptions p =
     \<lparr> prdPath = ''prd.json'', mapping = sampleMapping, direction = Some Two_way,
       incremental = None, dryRun = None, state = None,
       conflict = Some \<lparr> co_prefer = Some p, co_defaultPrefer = None,
                         co_blockWrites = Some True, co_createMissingLabels = None \<rparr> \<rparr>"

text \<open>The two stories and two cards of the test \<^verbatim>\<open>blocks writes when conflicts exist\<close>.\<close>

definition samplePrd :: FormatReadResult where
  "samplePrd =
     \<lparr> stories = [sampleStory ''US-001'' ''PRD Title'' ''PRD description'',
                  sampleStory ''US-002'' ''PRD Two'' ''PRD two description''],
       lastModifiedAt = ''2026-01-20T00:00:00Z'' \<rparr>"

definition sampleBoard :: BoardSnapshot where
  "sampleBoard =
     \<lparr> getLists = sampleLists,
       getCards = [sampleCard ''card-1'' ''[US-001] Trello Title'' ''Trello description''
                     ''2026-01-20T00:00:00Z'',
                   sampleCard ''card-2'' ''[US-002] Old Title'' ''Old description''
                     ''2026-01-19T00:00:00Z''],
       getLabels = [],
       getCardChecklists = (\<lambda>_. []) \<rparr>"

section \<open>Notions used in the statements\<close>

definition consistentCompare :: "('a \<Rightarrow> 'a \<Rightarrow> int) \<Rightarrow> bool" where
  "consistentCompare cmp =
     ((\<forall>x y. cmp x y \<le> 0 \<or> cmp y x \<le> 0) \<and>
      (\<forall>x y z. cmp x y \<le> 0 \<longrightarrow> cmp y z \<le> 0 \<longrightarrow> cmp x z \<le> 0))"

definition distinguishingCompare :: "('a \<Rightarrow> 'a \<Rightarrow> int) \<Rightarrow> bool" where
  "distinguishingCompare cmp =
     (consistentCompare cmp \<and> (\<forall>x y. cmp x y \<le> 0 \<longrightarrow> cmp y x \<le> 0 \<longrightarrow> x = y))"

text \<open>The label set as the claim words it.\<close>

definition claimedLabelSet ::
  "Mapping \<Rightarrow> (string \<times> string) list \<Rightarrow> (string \<times> string) list \<Rightarrow> PrdStory \<Rightarrow> BoardCard \<Rightarrow> string set" where
  "claimedLabelSet mp n2i i2n story c =
     {i \<in> set (card_labelIds c). \<exists>n. map_of i2n i = Some n \<and> \<not> startsWith n (dependsOnLabelPrefix mp)}
     \<union> {i. \<exists>d \<in> set (story_dependsOn story). map_of n2i (dependsOnLabelPrefix mp @ d) = Some i}"

definition entryKeyedBy :: "string \<Rightarrow> PlanEntry \<Rightarrow> bool" where
  "entryKeyedBy i e =
     (case e of
        Create c \<Rightarrow> create_id c = i
      | Update u \<Rightarrow> update_id u = i
      | Conflict c \<Rightarrow> conflict_id c = Some i
      | Noop n \<Rightarrow> noop_id n = i)"

definition loopEntries :: "PlanEnv \<Rightarrow> string list \<Rightarrow> (string \<times> PlanEntry) list" where
  "loopEntries env ids =
     List.map_filter (\<lambda>i. case planForId env i of Inr (Some e) \<Rightarrow> Some (i, e) | _ \<Rightarrow> None) ids"

definition entryConflict :: "PlanEntry \<Rightarrow> SyncConflict option" where
  "entryConflict e = (case e of Conflict c \<Rightarrow> Some c | _ \<Rightarrow> None)"

definition entryCreate :: "PlanEntry \<Rightarrow> SyncCreate option" where
  "entryCreate e = (case e of Create c \<Rightarrow> Some c | _ \<Rightarrow> None)"

definition entryUpdate :: "PlanEntry \<Rightarrow> SyncUpdate option" where
  "entryUpdate e = (case e of Update c \<Rightarrow> Some c | _ \<Rightarrow> None)"

definition entryNoop :: "PlanEntry \<Rightarrow> SyncNoop option" where
  "entryNoop e = (case e of Noop c \<Rightarrow> Some c | _ \<Rightarrow> None)"

fun boundListName :: "StatusToList \<Rightarrow> StoryStatus \<Rightarrow> string" where
  "boundListName stl Status_open = stl_open stl"
| "boundListName stl Status_in_progress = stl_in_progress stl"
| "boundListName stl Status_done = stl_done stl"

definition missingListIssue :: "StoryStatus \<Rightarrow> string \<Rightarrow> string" where
  "missingListIssue status listName =
     ''No Trello list found for status '' @ quoted (status_text status) @ '' ('' @ listName @ '')''"

definition ambiguousListIssue :: "StoryStatus \<Rightarrow> string \<Rightarrow> string" where
  "ambiguousListIssue status listName =
     ''Multiple Trello lists found for status '' @ quoted (status_text status)
       @ '' ('' @ listName @ '')''"

definition issueConflict :: "string \<Rightarrow> SyncConflict" where
  "issueConflict issue =
     \<lparr> conflict_id = None, conflict_reason = issue, conflict_cards = None, conflict_story = None \<rparr>"

definition sampleLabelNameToId :: "(string \<times> string) list" where
  "sampleLabelNameToId =
     [(''Keep'', ''label-keep''), (''s:US-000'', ''label-old-dep''),
      (''s:US-001'', ''label-001''), (''s:US-002'', ''label-002'')]"

definition sampleLabelIdToName :: "(string \<times> string) list" where
  "sampleLabelIdToName =
     [(''label-keep'', ''Keep''), (''label-old-dep'', ''s:US-000''),
      (''label-001'', ''s:US-001''), (''label-002'', ''s:US-002'')]"

text \<open>A board with two open lists named \<^verbatim>\<open>To Do\<close>, an archived one, and no list \<^verbatim>\<open>In Progress\<close>.\<close>

definition sampleAmbiguousBoard :: BoardSnapshot where
  "sampleAmbiguousBoard =
     \<lparr> getLists =
         [\<lparr> list_id = ''list-0'', list_name = ''To Do'', list_closed = True \<rparr>,
          \<lparr> list_id = ''list-b'', list_name = ''To Do'', list_closed = False \<rparr>,
          \<lparr> list_id = ''list-a'', list_name = ''To Do'', list_closed = False \<rparr>,
          \<lparr> list_id = ''list-done'', list_name = ''Done'', list_closed = False \<rparr>],
       getCards = [],
       getLabels = [],
       getCardChecklists = (\<lambda>_. []) \<rparr>"

text \<open>The strings the identifier expression matches as a whole, said without the matcher.\<close>

fun id_lang :: "IdAtom list \<Rightarrow> string set" where
  "id_lang [] = {[]}"
| "id_lang (IdLit c # as) = {c # v | v. v \<in> id_lang as}"
| "id_lang (IdDigits n # as) =
     {d @ v | d v. length d = n \<and> list_all is_digit d \<and> v \<in> id_lang as}"
| "id_lang (IdDigitsPlus # as) =
     {d @ v | d v. d \<noteq> [] \<and> list_all is_digit d \<and> v \<in> id_lang as}"

text \<open>A string contains a substring of the identifier grammar.\<close>

definition containsId :: "StoryIdCodec \<Rightarrow> string \<Rightarrow> bool" where
  "containsId codec s =
     (\<exists>u v w. s = u @ v @ w \<and> v \<in> id_lang (ips_regex (codec_idPattern codec)))"












text \<open>
  The test of \<^verbatim>\<open>buildPlan\<close> that makes a pair a no-op before anything is compared: there is
  an incremental state and both sides are unchanged against it.
\<close>

definition skippedAsUnchanged :: "PlanEnv \<Rightarrow> PrdStory \<Rightarrow> CardRecord \<Rightarrow> bool" where
  "skippedAsUnchanged env story record =
     (env_incrementalState env \<noteq> None
      \<and> isStoryUnchanged (env_incrementalState env) (env_storyFingerprints env) story
      \<and> isCardUnchanged (env_incrementalState env) record)"

text \<open>A board whose only card carries a last activity that is no date.\<close>

definition sampleUndatedBoard :: BoardSnapshot where
  "sampleUndatedBoard =
     \<lparr> getLists = sampleLists,
       getCards = [sampleCard ''card-1'' ''[US-001] Trello Title'' ''Trello description''
                     ''some day''],
       getLabels = [],
       getCardChecklists = (\<lambda>_. []) \<rparr>"

text \<open>The cards whose title parses to an identifier, and the stories that carry it.\<close>

definition cardsParsingTo :: "StoryIdCodec \<Rightarrow> BoardCard list \<Rightarrow> string \<Rightarrow> BoardCard list" where
  "cardsParsingTo codec cs i =
     filter (\<lambda>c. case parseCardTitle codec (card_name c) of
                    ParseOk j _ \<Rightarrow> j = i
                  | _ \<Rightarrow> False) cs"

definition storiesCarrying :: "PrdStory list \<Rightarrow> string \<Rightarrow> PrdStory list" where
  "storiesCarrying ss i = filter (\<lambda>s. story_id s = i) ss"

text \<open>A board with two cards titled for \<^verbatim>\<open>US-001\<close>.\<close>

definition sampleDuplicateBoard :: BoardSnapshot where
  "sampleDuplicateBoard =
     \<lparr> getLists = sampleLists,
       getCards = [sampleCard ''card-1'' ''[US-001] First'' ''First description''
                     ''2026-01-20T00:00:00Z'',
                   sampleCard ''card-2'' ''[US-001] Second'' ''Second description''
                     ''2026-01-19T00:00:00Z''],
       getLabels = [],
       getCardChecklists = (\<lambda>_. []) \<rparr>"

text \<open>
  The state recorded after a run that saw the stories of \<open>samplePrd\<close> and the two cards, the
  second one at an earlier activity than \<open>sampleBoard\<close> has it.
\<close>

definition sampleState :: SyncState where
  "sampleState =
     createSyncState refPlatform ''2026-01-21T00:00:00Z''
       \<lparr> in_boardId = ''board-1'', in_prdPath = ''prd.json'', in_mapping = sampleMapping,
         in_stories = stories samplePrd,
         in_cards = [\<lparr> scr_storyId = ''US-001'',
                       scr_card = sampleCard ''card-1'' ''[US-001] Trello Title''
                                    ''Trello description'' ''2026-01-20T00:00:00Z'' \<rparr>,
                     \<lparr> scr_storyId = ''US-002'',
                       scr_card = sampleCard ''card-2'' ''[US-002] Old Title''
                                    ''Old description'' ''2026-01-18T00:00:00Z'' \<rparr>],
         in_lastSeenTrelloActivity = None, in_lastRunAt = None \<rparr>"

definition sampleIncrementalOptions :: SyncPlanOptions where
  "sampleIncrementalOptions = (sampleOptions Prefer_none)\<lparr> state := Some sampleState \<rparr>"

text \<open>
  The run of the test \<^verbatim>\<open>blocks writes when conflicts exist\<close> through \<open>syncWithStateFile\<close>: every
  write of the adapters is refused, there is no state file yet, the run is no dry run and
  \<^verbatim>\<open>blockWrites\<close> is set.  Then the same run again, on what the first one left.
\<close>

definition sampleAdapters :: Adapters where
  "sampleAdapters =
     \<lparr> createLabel = (\<lambda>_. Inl ''Unexpected createLabel call''),
       createCard = (\<lambda>_. Inl ''Unexpected createCard call''),
       updateCard = (\<lambda>_ _. Inl ''Unexpected updateCard call''),
       upsertChecklist = (\<lambda>_ _. Inl ''Unexpected upsertChecklist call''),
       writeStories = (\<lambda>_ _. Inl ''Unexpected writeStories call''),
       refreshedCards = [] \<rparr>"

definition sampleWorld :: World where
  "sampleWorld = \<lparr> w_files = (\<lambda>_. NoFile), w_effects = [], w_warnings = [] \<rparr>"

definition sampleBlockedRun :: "(SyncFailure + SyncPlan \<times> SyncState) \<times> World" where
  "sampleBlockedRun =
     syncWithStateFile refPlatform ''2026-01-21T00:00:00Z'' sampleAdapters ''state.json'' ''board-1''
       (sampleOptions Prefer_none) samplePrd sampleBoard sampleWorld"

definition sampleSecondRun :: "(SyncFailure + SyncPlan \<times> SyncState) \<times> World" where
  "sampleSecondRun =
     syncWithStateFile refPlatform ''2026-01-22T00:00:00Z'' sampleAdapters ''state.json'' ''board-1''
       (sampleOptions Prefer_none) samplePrd sampleBoard (snd sampleBlockedRun)"

text \<open>
  A platform whose \<^verbatim>\<open>localeCompare\<close> ignores the control character U+0001, as a collation
  does that treats control characters as ignorable.
\<close>

definition ignoringCompare :: "string \<Rightarrow> string \<Rightarrow> int" where
  "ignoringCompare left right =
     codeUnitCompare (filter (\<lambda>c. c \<noteq> CHR 0x01) left) (filter (\<lambda>c. c \<noteq> CHR 0x01) right)"

definition ignoringPlatform :: Platform where
  "ignoringPlatform =
     \<lparr> localeCompare = ignoringCompare, dateParse = isoParse, sha256hex = (\<lambda>s. s) \<rparr>"

section \<open>Properties\<close>

lemma mset_js_insort: "mset (js_insort cmp x xs) = add_mset x (mset xs)"
  by (induction xs) auto

lemma mset_js_sort: "mset (js_sort cmp xs) = mset xs"
  unfolding js_sort_def by (induction xs) (auto simp: mset_js_insort)

lemma set_js_sort: "set (js_sort cmp xs) = set xs"
  using mset_js_sort [of cmp xs] by (metis set_mset_mset)

lemma length_js_sort: "length (js_sort cmp xs) = length xs"
  using mset_js_sort [of cmp xs] by (metis size_mset)

lemma set_js_insort: "set (js_insort cmp x xs) = insert x (set xs)"
  using mset_js_insort [of cmp x xs] by (metis set_mset_add_mset_insert set_mset_mset)

lemma sorted_js_insort:
  assumes "consistentCompare cmp" "sorted_wrt (\<lambda>a b. cmp a b \<le> 0) xs"
  shows "sorted_wrt (\<lambda>a b. cmp a b \<le> 0) (js_insort cmp x xs)"
  using assms(2)
proof (induction xs)
  case Nil
  then show ?case by simp
next
  case (Cons y ys)
  have tot: "\<And>a b. cmp a b \<le> 0 \<or> cmp b a \<le> 0"
    and tr: "\<And>a b c. cmp a b \<le> 0 \<Longrightarrow> cmp b c \<le> 0 \<Longrightarrow> cmp a c \<le> 0"
    using assms(1) unfolding consistentCompare_def by blast+
  show ?case
  proof (cases "cmp x y \<le> 0")
    case True
    then show ?thesis using Cons.prems tr by auto
  next
    case False
    then have "cmp y x \<le> 0" using tot by blast
    then show ?thesis using False Cons by (auto simp: set_js_insort)
  qed
qed

lemma sorted_js_sort:
  assumes "consistentCompare cmp"
  shows "sorted_wrt (\<lambda>a b. cmp a b \<le> 0) (js_sort cmp xs)"
  unfolding js_sort_def by (induction xs) (auto intro: sorted_js_insort [OF assms])

lemma sorted_wrt_unique:
  assumes "distinguishingCompare cmp"
    and "sorted_wrt (\<lambda>a b. cmp a b \<le> 0) xs" "sorted_wrt (\<lambda>a b. cmp a b \<le> 0) ys"
    and "mset xs = mset ys"
  shows "xs = ys"
  using assms(2-)
proof (induction xs arbitrary: ys)
  case Nil
  then show ?case by simp
next
  case (Cons x xs)
  have refl: "\<And>a. cmp a a \<le> 0"
    and anti: "\<And>a b. cmp a b \<le> 0 \<Longrightarrow> cmp b a \<le> 0 \<Longrightarrow> a = b"
    using assms(1) unfolding distinguishingCompare_def consistentCompare_def by blast+
  from Cons.prems(3) obtain y ys' where ys: "ys = y # ys'"
    by (cases ys) auto
  have "x \<in> set ys" using Cons.prems(3) by (metis list.set_intros(1) mset_eq_setD)
  then have yx: "cmp y x \<le> 0" using Cons.prems(2) refl ys by auto
  have "y \<in> set (x # xs)" using Cons.prems(3) ys by (metis list.set_intros(1) mset_eq_setD)
  then have xy: "cmp x y \<le> 0" using Cons.prems(1) refl by auto
  have "x = y" using anti xy yx by blast
  then show ?case using Cons ys by auto
qed

lemma js_sort_permutation:
  assumes "distinguishingCompare cmp" "mset xs = mset ys"
  shows "js_sort cmp xs = js_sort cmp ys"
proof -
  have c: "consistentCompare cmp" using assms(1) by (simp add: distinguishingCompare_def)
  show ?thesis
    by (rule sorted_wrt_unique [OF assms(1) sorted_js_sort [OF c] sorted_js_sort [OF c]])
       (simp add: mset_js_sort assms(2))
qed

lemma codeUnitCompare_refl: "codeUnitCompare x x = 0"
  by (induction x) auto

lemma codeUnitCompare_range: "codeUnitCompare x y \<in> {-1, 0, 1}"
  by (induction x y rule: codeUnitCompare.induct) auto

lemma codeUnitCompare_eq: "codeUnitCompare x y = 0 \<Longrightarrow> x = y"
  by (induction x y rule: codeUnitCompare.induct) (auto split: if_splits)

lemma codeUnitCompare_swap: "codeUnitCompare y x = - codeUnitCompare x y"
  by (induction x y rule: codeUnitCompare.induct) (auto simp: )

lemma codeUnitCompare_trans:
  "codeUnitCompare x y \<le> 0 \<Longrightarrow> codeUnitCompare y z \<le> 0 \<Longrightarrow> codeUnitCompare x z \<le> 0"
proof (induction x y arbitrary: z rule: codeUnitCompare.induct)
  case 1
  then show ?case by simp
next
  case (2 y ys)
  then show ?case by (cases z) auto
next
  case (3 x xs)
  then show ?case by simp
next
  case (4 x xs y ys)
  then show ?case by (cases z) (auto split: if_splits)
qed

lemma distinguishing_codeUnitCompare: "distinguishingCompare codeUnitCompare"
  unfolding distinguishingCompare_def consistentCompare_def
proof (intro conjI allI impI)
  fix x y :: string
  show "codeUnitCompare x y \<le> 0 \<or> codeUnitCompare y x \<le> 0"
    using codeUnitCompare_swap [of y x] by linarith
next
  fix x y z :: string
  assume "codeUnitCompare x y \<le> 0" "codeUnitCompare y z \<le> 0"
  then show "codeUnitCompare x z \<le> 0" by (rule codeUnitCompare_trans)
next
  fix x y :: string
  assume "codeUnitCompare x y \<le> 0" "codeUnitCompare y x \<le> 0"
  then have "codeUnitCompare x y = 0" using codeUnitCompare_swap [of y x] by linarith
  then show "x = y" by (rule codeUnitCompare_eq)
qed

lemma set_new_Set_aux: "set (foldl (\<lambda>acc x. set_add x acc) a xs) = set a \<union> set xs"
  by (induction xs arbitrary: a) (auto simp: set_add_def)

lemma set_new_Set: "set (new_Set xs) = set xs"
  by (simp add: new_Set_def set_new_Set_aux)

lemma distinct_new_Set_aux: "distinct a \<Longrightarrow> distinct (foldl (\<lambda>acc x. set_add x acc) a xs)"
  by (induction xs arbitrary: a) (auto simp: set_add_def)

lemma distinct_new_Set: "distinct (new_Set xs)"
  by (simp add: new_Set_def distinct_new_Set_aux)

lemma set_sortStrings: "set (sortStrings P xs) = set xs"
  by (simp add: sortStrings_def set_js_sort)

lemma distinct_sortStrings: "distinct (sortStrings P xs) = distinct xs"
  unfolding sortStrings_def using mset_js_sort [of "localeCompare P" xs]
  by (metis distinct_count_atmost_1 set_js_sort count_mset)

lemma sorted_sortStrings:
  "consistentCompare (localeCompare P) \<Longrightarrow>
   sorted_wrt (\<lambda>a b. localeCompare P a b \<le> 0) (sortStrings P xs)"
  by (simp add: sortStrings_def sorted_js_sort)

lemma truthy_get_Some:
  "truthy_get m k = Some v \<longleftrightarrow> map_of m k = Some v \<and> v \<noteq> []"
  by (auto simp: truthy_get_def split: option.splits)

lemma truthy_get_None:
  "truthy_get m k = None \<longleftrightarrow> map_of m k = None \<or> map_of m k = Some []"
  by (auto simp: truthy_get_def split: option.splits)

lemma keepsLabel_iff:
  "keepsLabel mp i2n i \<longleftrightarrow>
     (\<forall>n. map_of i2n i = Some n \<longrightarrow> n = [] \<or> \<not> startsWith n (dependsOnLabelPrefix mp))"
  by (auto simp: keepsLabel_def truthy_get_def split: option.splits)

lemma set_map_filter: "set (List.map_filter f xs) = {y. \<exists>x \<in> set xs. f x = Some y}"
  by (induction xs) (auto simp: List.map_filter_simps split: option.splits)

lemma resolveLabelIds_merged_set:
  assumes "consistentCompare (localeCompare P)"
  shows "set (labelIds (resolveLabelIds P story mp n2i i2n (Some c))) =
           {i \<in> set (card_labelIds c).
              \<forall>n. map_of i2n i = Some n \<longrightarrow> n = [] \<or> \<not> startsWith n (dependsOnLabelPrefix mp)}
           \<union> {i. i \<noteq> [] \<and> (\<exists>d \<in> set (story_dependsOn story).
                     map_of n2i (dependsOnLabelPrefix mp @ d) = Some i)}"
    and "sorted_wrt (\<lambda>a b. localeCompare P a b \<le> 0)
           (labelIds (resolveLabelIds P story mp n2i i2n (Some c)))"
    and "set (missingLabels (resolveLabelIds P story mp n2i i2n (Some c))) =
           {dependsOnLabelPrefix mp @ d | d. d \<in> set (story_dependsOn story) \<and>
              (map_of n2i (dependsOnLabelPrefix mp @ d) = None \<or>
               map_of n2i (dependsOnLabelPrefix mp @ d) = Some [])}"
    and "sorted_wrt (\<lambda>a b. localeCompare P a b \<le> 0)
           (missingLabels (resolveLabelIds P story mp n2i i2n (Some c)))"
proof -
  show "set (labelIds (resolveLabelIds P story mp n2i i2n (Some c))) =
           {i \<in> set (card_labelIds c).
              \<forall>n. map_of i2n i = Some n \<longrightarrow> n = [] \<or> \<not> startsWith n (dependsOnLabelPrefix mp)}
           \<union> {i. i \<noteq> [] \<and> (\<exists>d \<in> set (story_dependsOn story).
                     map_of n2i (dependsOnLabelPrefix mp @ d) = Some i)}"
    by (auto simp: resolveLabelIds_def Let_def set_sortStrings set_map_filter keepsLabel_iff
        truthy_get_Some)
  show "set (missingLabels (resolveLabelIds P story mp n2i i2n (Some c))) =
           {dependsOnLabelPrefix mp @ d | d. d \<in> set (story_dependsOn story) \<and>
              (map_of n2i (dependsOnLabelPrefix mp @ d) = None \<or>
               map_of n2i (dependsOnLabelPrefix mp @ d) = Some [])}"
    by (auto simp: resolveLabelIds_def Let_def set_sortStrings set_new_Set truthy_get_None)
  show "sorted_wrt (\<lambda>a b. localeCompare P a b \<le> 0)
           (labelIds (resolveLabelIds P story mp n2i i2n (Some c)))"
    by (simp add: resolveLabelIds_def Let_def sorted_sortStrings [OF assms])
  show "sorted_wrt (\<lambda>a b. localeCompare P a b \<le> 0)
           (missingLabels (resolveLabelIds P story mp n2i i2n (Some c)))"
    by (simp add: resolveLabelIds_def Let_def sorted_sortStrings [OF assms])
qed

lemma decidePair_keyed: "entryKeyedBy i (decidePair env i story record cm sm)"
  by (simp add: decidePair_def entryKeyedBy_def Let_def trelloUpdate_def storyConflict_def
      cardConflict_def)

lemma planPair_keyed: "planPair env i story record = Inr e \<Longrightarrow> entryKeyedBy i e"
  by (auto simp: planPair_def decidePair_keyed [unfolded entryKeyedBy_def] entryKeyedBy_def
      split: if_splits sum.splits)

lemma planStoryOnly_keyed: "planStoryOnly env i story = Inr e \<Longrightarrow> entryKeyedBy i e"
  by (auto simp: planStoryOnly_def entryKeyedBy_def storyConflict_def Let_def
      split: if_splits sum.splits)

lemma planCardOnly_keyed: "entryKeyedBy i (planCardOnly env i record)"
  by (simp add: planCardOnly_def entryKeyedBy_def cardConflict_def Let_def)

lemma planForId_keyed: "planForId env i = Inr (Some e) \<Longrightarrow> entryKeyedBy i e"
  by (cases "planStoryOnly env i (the (map_of (env_prdById env) i))";
      cases "planPair env i (the (map_of (env_prdById env) i)) (the (map_of (env_recordById env) i))")
     (auto simp: planForId_def planCardOnly_keyed
      dest: planPair_keyed planStoryOnly_keyed split: if_splits option.splits)

lemma loopEntries_keyed:
  assumes "(i, e) \<in> set (loopEntries env ids)"
  shows "entryKeyedBy i e \<and> i \<in> set ids \<and> planForId env i = Inr (Some e)"
proof -
  from assms obtain x where x: "x \<in> set ids"
    and eq: "(case planForId env x of Inr (Some e) \<Rightarrow> Some (x, e) | _ \<Rightarrow> None) = Some (i, e)"
    unfolding loopEntries_def set_map_filter by blast
  from eq have "x = i" "planForId env x = Inr (Some e)"
    by (auto split: sum.splits option.splits)
  then show ?thesis using x planForId_keyed by blast
qed

lemma loopEntries_mem:
  "i \<in> set ids \<Longrightarrow> planForId env i = Inr (Some e) \<Longrightarrow> (i, e) \<in> set (loopEntries env ids)"
  by (force simp: loopEntries_def set_map_filter)

lemma planLoop_entries:
  "planLoop env ids p0 = Inr p \<Longrightarrow> p = foldl pushEntry p0 (map snd (loopEntries env ids))"
proof (induction ids arbitrary: p0)
  case Nil
  then show ?case by (simp add: loopEntries_def List.map_filter_simps)
next
  case (Cons i ids)
  then show ?case
    by (auto simp: loopEntries_def List.map_filter_simps split: sum.splits option.splits)
qed

lemma planLoop_no_error:
  "planLoop env ids p0 = Inr p \<Longrightarrow> i \<in> set ids \<Longrightarrow> \<exists>r. planForId env i = Inr r"
  by (induction ids arbitrary: p0) (auto split: sum.splits option.splits)

lemma foldl_pushEntry:
  "conflicts (foldl pushEntry p0 es) = conflicts p0 @ List.map_filter entryConflict es"
  "creates (foldl pushEntry p0 es) = creates p0 @ List.map_filter entryCreate es"
  "updates (foldl pushEntry p0 es) = updates p0 @ List.map_filter entryUpdate es"
  "noop (foldl pushEntry p0 es) = noop p0 @ List.map_filter entryNoop es"
  by (induction es arbitrary: p0;
      auto simp: pushEntry_def List.map_filter_simps entryConflict_def entryCreate_def
        entryUpdate_def entryNoop_def split: PlanEntry.splits)+

lemma sortPlan_sets:
  "set (conflicts (sortPlan P p)) = set (conflicts p)"
  "set (creates (sortPlan P p)) = set (creates p)"
  "set (updates (sortPlan P p)) = set (updates p)"
  "set (noop (sortPlan P p)) = set (noop p)"
  by (simp_all add: sortPlan_def set_js_sort)

lemma sortPlan_msets:
  "mset (conflicts (sortPlan P p)) = mset (conflicts p)"
  by (simp_all add: sortPlan_def mset_js_sort)

text \<open>What buildPlan returns, in terms of the loop.\<close>

lemma buildPlan_Inr:
  assumes "buildPlan P options prdResult board = Inr (plan, ctx)"
  obtains codec p where
    "createStoryIdCodec (codecMapping (mapping options)) = Inr codec"
    "planLoop (planEnv P options prdResult board codec)
       (sortedIds_of P (planEnv P options prdResult board codec)
          (uniqueCardRecords_of (groupCardRecords (parsedCardRecords codec (getCards board)))))
       \<lparr> creates = [], updates = [],
         conflicts = initialConflicts (env_statusMapping (planEnv P options prdResult board codec))
                       (indexStories P (stories prdResult)) codec (getCards board),
         noop = [] \<rparr> = Inr p"
    "plan = sortPlan P p"
    "ctx = \<lparr> prdStories = stories prdResult, cardRecords = uniqueCardRecords_of (groupCardRecords (parsedCardRecords codec (getCards board))) \<rparr>"
  using assms unfolding buildPlan_def
  by (auto simp: Let_def split: sum.splits)

lemma hd_js_sort_mem: "xs \<noteq> [] \<Longrightarrow> hd (js_sort cmp xs) \<in> set xs"
  by (metis hd_in_set set_js_sort set_empty)

lemma hd_js_sort_least:
  assumes "consistentCompare cmp" "x \<in> set xs"
  shows "cmp (hd (js_sort cmp xs)) x \<le> 0"
proof -
  have refl: "\<And>a. cmp a a \<le> 0"
    using assms(1) unfolding consistentCompare_def by blast
  have s: "sorted_wrt (\<lambda>a b. cmp a b \<le> 0) (js_sort cmp xs)"
    by (rule sorted_js_sort [OF assms(1)])
  have x: "x \<in> set (js_sort cmp xs)" using assms(2) by (simp add: set_js_sort)
  then obtain y ys where ys: "js_sort cmp xs = y # ys" by (cases "js_sort cmp xs") auto
  then show ?thesis using s x refl by auto
qed

lemma find_list_id:
  "i \<in> list_id ` set ms \<Longrightarrow> \<exists>l. find (\<lambda>l. list_id l = i) ms = Some l \<and> list_id l = i \<and> l \<in> set ms"
  by (induction ms) auto

text \<open>The effect of one turn of the loop.\<close>

lemma statusStep_issues:
  "sm_issues (statusStep P ls acc (s, n)) =
     sm_issues acc @
       (if statusMatches ls n = [] then [missingListIssue s n]
        else if 1 < length (statusMatches ls n) then [ambiguousListIssue s n] else [])"
proof (cases "statusMatches ls n = []")
  case True
  then show ?thesis by (simp add: statusStep_def missingListIssue_def)
next
  case False
  then have "hd (sortStrings P (map list_id (statusMatches ls n))) \<in> list_id ` set (statusMatches ls n)"
    using hd_js_sort_mem [of "map list_id (statusMatches ls n)" "localeCompare P"]
    by (simp add: sortStrings_def)
  from find_list_id [OF this] obtain l where
    "find (\<lambda>l. list_id l = hd (sortStrings P (map list_id (statusMatches ls n)))) (statusMatches ls n) = Some l"
    by blast
  then show ?thesis using False
    by (cases "1 < length (statusMatches ls n)")
       (simp_all add: statusStep_def Let_def ambiguousListIssue_def)
qed

lemma statusStep_lookup:
  "map_of (statusToListId (statusStep P ls acc (s, n))) s' =
     (if s' = s \<and> statusMatches ls n \<noteq> []
      then Some (hd (sortStrings P (map list_id (statusMatches ls n))))
      else map_of (statusToListId acc) s')"
proof (cases "statusMatches ls n = []")
  case True
  then show ?thesis by (simp add: statusStep_def)
next
  case False
  then have "hd (sortStrings P (map list_id (statusMatches ls n))) \<in> list_id ` set (statusMatches ls n)"
    using hd_js_sort_mem [of "map list_id (statusMatches ls n)" "localeCompare P"]
    by (simp add: sortStrings_def)
  from find_list_id [OF this] obtain l where
    "find (\<lambda>l. list_id l = hd (sortStrings P (map list_id (statusMatches ls n)))) (statusMatches ls n) = Some l"
    "list_id l = hd (sortStrings P (map list_id (statusMatches ls n)))"
    by blast
  then show ?thesis using False
    by (simp add: statusStep_def Let_def update_conv')
qed

lemma createStatusMapping_lookup:
  "map_of (statusToListId (createStatusMapping P ls stl)) s =
     (if statusMatches ls (boundListName stl s) = [] then None
      else Some (hd (sortStrings P (map list_id (statusMatches ls (boundListName stl s))))))"
  by (cases s) (simp_all add: createStatusMapping_def statusEntries_def statusStep_lookup)

lemma statusMatches_set:
  "set (statusMatches ls n) =
     (if \<exists>l \<in> set ls. list_name l = n \<and> \<not> list_closed l
      then {l \<in> set ls. list_name l = n \<and> \<not> list_closed l}
      else {l \<in> set ls. list_name l = n})"
  by (auto simp: statusMatches_def Let_def filter_empty_conv)

lemma statusMatches_open:
  "filter (\<lambda>l. list_name l = n \<and> \<not> list_closed l) ls \<noteq> [] \<Longrightarrow>
   statusMatches ls n = filter (\<lambda>l. list_name l = n \<and> \<not> list_closed l) ls"
  by (simp add: statusMatches_def)

lemma statusMatches_empty: "statusMatches ls n = [] \<longleftrightarrow> \<not> (\<exists>l \<in> set ls. list_name l = n)"
  by (auto simp: statusMatches_def Let_def filter_empty_conv)

lemma issue_mem_missing:
  assumes "statusMatches ls (boundListName stl s) = []"
  shows "missingListIssue s (boundListName stl s) \<in> set (sm_issues (createStatusMapping P ls stl))"
  using assms
  by (cases s) (simp_all add: createStatusMapping_def statusEntries_def statusStep_issues)

lemma issue_mem_ambiguous:
  assumes "1 < length (statusMatches ls (boundListName stl s))"
  shows "ambiguousListIssue s (boundListName stl s) \<in> set (sm_issues (createStatusMapping P ls stl))"
  using assms
  by (cases s) (auto simp add: createStatusMapping_def statusEntries_def statusStep_issues)

lemma env_statusMapping_planEnv:
  "env_statusMapping (planEnv P options prdResult board codec) =
     createStatusMapping P (getLists board) (statusToList (mapping options))"
  by (simp add: planEnv_def Let_def)

lemma initial_conflicts_kept:
  assumes "buildPlan P options prdResult board = Inr (plan, ctx)"
    and "createStoryIdCodec (codecMapping (mapping options)) = Inr codec"
  shows "set (initialConflicts (createStatusMapping P (getLists board) (statusToList (mapping options)))
                (indexStories P (stories prdResult)) codec (getCards board))
           \<subseteq> set (conflicts plan)"
proof -
  from assms(1) obtain codec' p where
    c: "createStoryIdCodec (codecMapping (mapping options)) = Inr codec'"
    and l: "planLoop (planEnv P options prdResult board codec')
       (sortedIds_of P (planEnv P options prdResult board codec')
          (uniqueCardRecords_of (groupCardRecords (parsedCardRecords codec' (getCards board)))))
       \<lparr> creates = [], updates = [],
         conflicts = initialConflicts (env_statusMapping (planEnv P options prdResult board codec'))
                       (indexStories P (stories prdResult)) codec' (getCards board),
         noop = [] \<rparr> = Inr p"
    and s: "plan = sortPlan P p"
    by (rule buildPlan_Inr)
  have cc: "codec' = codec" using c assms(2) by simp
  have "conflicts p = initialConflicts (env_statusMapping (planEnv P options prdResult board codec))
                       (indexStories P (stories prdResult)) codec (getCards board)
           @ List.map_filter entryConflict (map snd (loopEntries (planEnv P options prdResult board codec)
       (sortedIds_of P (planEnv P options prdResult board codec)
          (uniqueCardRecords_of (groupCardRecords (parsedCardRecords codec (getCards board)))))))"
    unfolding planLoop_entries [OF l] foldl_pushEntry cc by simp
  then show ?thesis
    unfolding s sortPlan_sets env_statusMapping_planEnv by simp
qed

lemma consistent_refPlatform: "consistentCompare (localeCompare refPlatform)"
  using distinguishing_codeUnitCompare by (simp add: refPlatform_def distinguishingCompare_def)

lemma distinguishing_refPlatform: "distinguishingCompare (localeCompare refPlatform)"
  using distinguishing_codeUnitCompare by (simp add: refPlatform_def)

subsection \<open>The matcher of the identifier codec\<close>

lemma takeWhile_digits_prefix:
  "list_all is_digit d \<Longrightarrow> length d \<le> length (takeWhile is_digit (d @ w))"
  by (induction d) auto

lemma digits_of_takeWhile:
  "k \<le> length (takeWhile is_digit s) \<Longrightarrow> list_all is_digit (take k s) \<and> length (take k s) = k"
proof (induction s arbitrary: k)
  case Nil
  then show ?case by simp
next
  case (Cons c cs)
  then show ?case by (cases k) (auto split: if_splits)
qed

lemma id_ends_sound_complete:
  "set (id_ends as s) = {w. \<exists>v. s = v @ w \<and> v \<in> id_lang as}"
proof (induction as arbitrary: s)
  case Nil
  then show ?case by auto
next
  case (Cons a as)
  show ?case
  proof (cases a)
    case (IdLit c)
    show ?thesis
    proof (cases s)
      case Nil
      then show ?thesis using IdLit by auto
    next
      case (Cons x xs)
      then show ?thesis using IdLit Cons.IH [of xs] by (auto simp: Cons_eq_append_conv)
    qed
  next
    case IdDigitsPlus
    have "set (id_ends (IdDigitsPlus # as) s)
        = (\<Union>k \<in> {1 ..< Suc (length (takeWhile is_digit s))}. set (id_ends as (drop k s)))"
      by (auto simp del: upt_Suc)
    also have "\<dots> = {w. \<exists>v. s = v @ w \<and> v \<in> id_lang (IdDigitsPlus # as)}"
    proof (intro set_eqI iffI)
      fix w assume "w \<in> (\<Union>k \<in> {1 ..< Suc (length (takeWhile is_digit s))}. set (id_ends as (drop k s)))"
      then obtain k v where k: "1 \<le> k" "k \<le> length (takeWhile is_digit s)"
        and v: "drop k s = v @ w" "v \<in> id_lang as"
        using Cons.IH by auto
      have d: "list_all is_digit (take k s)" "length (take k s) = k"
        using digits_of_takeWhile [OF k(2)] by auto
      have "s = take k s @ drop k s" by simp
      then have "s = (take k s @ v) @ w" unfolding v(1) by simp
      moreover have "take k s \<noteq> []" using d(2) k(1) by auto
      then have "\<exists>d va. take k s @ v = d @ va \<and> d \<noteq> [] \<and> list_all is_digit d \<and> va \<in> id_lang as"
        using d(1) v(2) by blast
      then have "take k s @ v \<in> id_lang (IdDigitsPlus # as)"
        by simp
      ultimately show "w \<in> {w. \<exists>v. s = v @ w \<and> v \<in> id_lang (IdDigitsPlus # as)}" by blast
    next
      fix w assume "w \<in> {w. \<exists>v. s = v @ w \<and> v \<in> id_lang (IdDigitsPlus # as)}"
      then obtain d v where s: "s = (d @ v) @ w" and d: "d \<noteq> []" "list_all is_digit d"
        and v: "v \<in> id_lang as"
        by auto
      have "length d \<le> length (takeWhile is_digit s)"
        using takeWhile_digits_prefix [OF d(2), of "v @ w"] s by simp
      moreover have "1 \<le> length d" using d(1) by (cases d) auto
      moreover have "w \<in> set (id_ends as (drop (length d) s))"
        using Cons.IH [of "drop (length d) s"] s v by auto
      ultimately show "w \<in> (\<Union>k \<in> {1 ..< Suc (length (takeWhile is_digit s))}. set (id_ends as (drop k s)))"
        by auto
    qed
    finally show ?thesis using IdDigitsPlus by simp
  next
    case (IdDigits n)
    show ?thesis
    proof (intro set_eqI iffI)
      fix w assume "w \<in> set (id_ends (a # as) s)"
      then have n: "n \<le> length (takeWhile is_digit (take n s))" and w: "w \<in> set (id_ends as (drop n s))"
        using IdDigits by (auto split: if_splits)
      from w obtain v where v: "drop n s = v @ w" "v \<in> id_lang as" using Cons.IH by auto
      have "length (takeWhile is_digit (take n s)) \<le> length (take n s)" by (rule length_takeWhile_le)
      then have len: "length (take n s) = n" using n by simp
      have dg: "list_all is_digit (take n s)"
        using digits_of_takeWhile [of n "take n s"] n by simp
      have "s = take n s @ drop n s" by simp
      then have "s = (take n s @ v) @ w" unfolding v(1) by simp
      moreover have "\<exists>d va. take n s @ v = d @ va \<and> length d = n \<and> list_all is_digit d \<and> va \<in> id_lang as"
        using len dg v(2) by blast
      then have "take n s @ v \<in> id_lang (a # as)"
        unfolding IdDigits by simp
      ultimately show "w \<in> {w. \<exists>v. s = v @ w \<and> v \<in> id_lang (a # as)}" by blast
    next
      fix w assume "w \<in> {w. \<exists>v. s = v @ w \<and> v \<in> id_lang (a # as)}"
      then obtain d v where s: "s = (d @ v) @ w" and d: "length d = n" "list_all is_digit d"
        and v: "v \<in> id_lang as"
        using IdDigits by auto
      have t: "take n s = d" "drop n s = v @ w" using s d(1) by auto
      have "n \<le> length (takeWhile is_digit (take n s))"
        unfolding t(1) using takeWhile_digits_prefix [OF d(2), of "[]"] d(1) by simp
      moreover have "w \<in> set (id_ends as (drop n s))" using Cons.IH [of "drop n s"] t v by auto
      ultimately show "w \<in> set (id_ends (a # as) s)" using IdDigits by simp
    qed
  qed
qed


lemma matchAll_go_empty:
  "matchAll_go m 0 s = [] \<longleftrightarrow> (\<forall>u t. s = u @ t \<longrightarrow> m t = None)"
proof (induction s)
  case Nil
  then show ?case by (auto split: option.splits)
next
  case (Cons c cs)
  have "(\<forall>u t. c # cs = u @ t \<longrightarrow> m t = None)
      \<longleftrightarrow> m (c # cs) = None \<and> (\<forall>u t. cs = u @ t \<longrightarrow> m t = None)"
    by (auto simp: Cons_eq_append_conv)
  then show ?case using Cons.IH by (auto split: option.splits)
qed

lemma matchAll_go_elem:
  "x \<in> set (matchAll_go m k s) \<Longrightarrow> \<exists>u t n. s = u @ t \<and> m t = Some n \<and> x = take n t"
proof (induction s arbitrary: k)
  case Nil
  then obtain n where "m [] = Some n" "x = []"
    by (cases "m []") (auto split: if_splits)
  then show ?case by simp
next
  case (Cons c cs)
  show ?case
  proof (cases "0 < k")
    case True
    then have "x \<in> set (matchAll_go m (k - 1) cs)" using Cons.prems by simp
    from Cons.IH [OF this] obtain u t n where "cs = u @ t" "m t = Some n" "x = take n t" by blast
    then have "c # cs = (c # u) @ t" by simp
    then show ?thesis using \<open>m t = Some n\<close> \<open>x = take n t\<close> by blast
  next
    case False
    show ?thesis
    proof (cases "m (c # cs)")
      case None
      then have "x \<in> set (matchAll_go m 0 cs)" using Cons.prems False by simp
      from Cons.IH [OF this] obtain u t n where "cs = u @ t" "m t = Some n" "x = take n t" by blast
      then have "c # cs = (c # u) @ t" by simp
      then show ?thesis using \<open>m t = Some n\<close> \<open>x = take n t\<close> by blast
    next
      case (Some n)
      then have "x = take n (c # cs) \<or> x \<in> set (matchAll_go m (n - 1) cs)"
        using Cons.prems False by auto
      then show ?thesis
      proof
        assume "x = take n (c # cs)"
        then have "c # cs = [] @ (c # cs) \<and> m (c # cs) = Some n \<and> x = take n (c # cs)"
          using Some by simp
        then show ?thesis by blast
      next
        assume "x \<in> set (matchAll_go m (n - 1) cs)"
        from Cons.IH [OF this] obtain u t n' where "cs = u @ t" "m t = Some n'" "x = take n' t"
          by blast
        then have "c # cs = (c # u) @ t" by simp
        then show ?thesis using \<open>m t = Some n'\<close> \<open>x = take n' t\<close> by blast
      qed
    qed
  qed
qed

lemma id_match_at_None:
  "id_match_at atoms t = None \<longleftrightarrow> \<not> (\<exists>v w. t = v @ w \<and> v \<in> id_lang atoms)"
proof -
  have "id_match_at atoms t = None \<longleftrightarrow> set (id_ends atoms t) = {}"
    by (cases "id_ends atoms t") (auto simp: id_match_at_def)
  then show ?thesis unfolding id_ends_sound_complete by auto
qed

lemma id_match_at_Some:
  assumes "id_match_at atoms t = Some n"
  shows "take n t \<in> id_lang atoms"
proof -
  from assms obtain r rs where r: "id_ends atoms t = r # rs" "n = length t - length r"
    by (cases "id_ends atoms t") (auto simp: id_match_at_def)
  then have "r \<in> set (id_ends atoms t)" by simp
  then obtain v where v: "t = v @ r" "v \<in> id_lang atoms"
    unfolding id_ends_sound_complete by blast
  then have "take n t = v" using r(2) by simp
  then show ?thesis using v(2) by simp
qed

lemma id_matches_empty: "id_matches codec s = [] \<longleftrightarrow> \<not> containsId codec s"
proof -
  have "containsId codec s \<longleftrightarrow>
      (\<exists>u t. s = u @ t \<and> (\<exists>v w. t = v @ w \<and> v \<in> id_lang (ips_regex (codec_idPattern codec))))"
    unfolding containsId_def by blast
  then show ?thesis
    unfolding id_matches_def matchAll_def matchAll_go_empty id_match_at_None by blast
qed

lemma id_matches_elem:
  assumes "x \<in> set (id_matches codec s)"
  shows "x \<in> id_lang (ips_regex (codec_idPattern codec)) \<and> (\<exists>u w. s = u @ x @ w)"
proof -
  from assms obtain u t n where
    s: "s = u @ t" and m: "id_match_at (ips_regex (codec_idPattern codec)) t = Some n"
    and x: "x = take n t"
    unfolding id_matches_def matchAll_def using matchAll_go_elem by blast
  have "s = u @ x @ drop n t" unfolding s x by simp
  then show ?thesis using id_match_at_Some [OF m] x by blast
qed

subsection \<open>The codec of the default mapping\<close>


subsection \<open>Replacing a token in a text without braces\<close>







lemma split_go_id_token:
  "split_go ''{title}'' 0 acc (''{id}'' @ r) = split_go ''{title}'' 0 (rev ''{id}'' @ acc) r"
  by (simp add: startsWith_def)




subsection \<open>The identifier expression with one run of digits\<close>






lemma id_lang_nonempty:
  assumes "\<forall>c. run \<noteq> IdLit c" "run \<noteq> IdDigits 0" "v \<in> id_lang (map IdLit l1 @ run # map IdLit l2)"
  shows "v \<noteq> []"
  using assms(3)
proof (induction l1 arbitrary: v)
  case Nil
  then show ?case using assms(1,2) by (cases run) auto
next
  case (Cons c l1)
  then show ?case by auto
qed


subsection \<open>The scan of a card title that holds one identifier\<close>





subsection \<open>The card-title expression on such a card title\<close>










subsection \<open>Format, then parse\<close>




subsection \<open>Maps built by successive updates\<close>

lemma map_of_foldl_update:
  "map_of (foldl (\<lambda>m e. AList.update (fst e) (snd e) m) m0 es) k =
     (case map_of (rev es) k of Some v \<Rightarrow> Some v | None \<Rightarrow> map_of m0 k)"
proof (induction es arbitrary: m0)
  case Nil
  then show ?case by simp
next
  case (Cons e es)
  show ?case
    by (cases e) (auto simp: Cons.IH update_conv' map_add_def split: option.splits)
qed

lemma map_of_new_Map_SomeD: "map_of (new_Map es) k = Some v \<Longrightarrow> (k, v) \<in> set es"
  unfolding new_Map_def map_of_foldl_update
  by (auto split: option.splits dest: map_of_SomeD)

lemma map_of_new_Map_None: "map_of (new_Map es) k = None \<longleftrightarrow> k \<notin> fst ` set es"
proof -
  have "map_of (rev es) k = None \<longleftrightarrow> k \<notin> fst ` set es"
    by (simp add: map_of_eq_None_iff)
  then show ?thesis
    unfolding new_Map_def map_of_foldl_update by (auto split: option.splits)
qed

subsection \<open>The environment of the loop\<close>

lemma planEnv_fields:
  "env_platform (planEnv P options prdResult board codec) = P"
  "env_direction (planEnv P options prdResult board codec) = direction_of options"
  "env_conflictPrefer (planEnv P options prdResult board codec) = resolveConflictPrefer (conflict options)"
  "env_incrementalState (planEnv P options prdResult board codec) = incrementalState_of options"
  "env_prdById (planEnv P options prdResult board codec) = prdById (indexStories P (stories prdResult))"
  "env_storyFingerprints (planEnv P options prdResult board codec)
     = storyFingerprints (indexStories P (stories prdResult))"
  "env_recordById (planEnv P options prdResult board codec)
     = new_Map (map (\<lambda>r. (storyId r, r))
         (uniqueCardRecords_of (groupCardRecords (parsedCardRecords codec (getCards board)))))"
  "env_conflictedIds (planEnv P options prdResult board codec)
     = conflictedIds_of (duplicateStoryIds (indexStories P (stories prdResult)))
         (groupCardRecords (parsedCardRecords codec (getCards board)))"
  "env_lastModifiedAt (planEnv P options prdResult board codec) = lastModifiedAt prdResult"
  by (simp_all add: planEnv_def Let_def)

lemma sortedIds_mem:
  "set (sortedIds_of P env uniq) = fst ` set (env_prdById env) \<union> storyId ` set uniq"
  by (simp add: sortedIds_of_def set_sortStrings set_new_Set)

lemma recordById_SomeD:
  assumes "map_of (env_recordById (planEnv P options prdResult board codec)) i = Some record"
  shows "storyId record = i"
    and "record \<in> set (uniqueCardRecords_of (groupCardRecords (parsedCardRecords codec (getCards board))))"
  using map_of_new_Map_SomeD [OF assms [unfolded planEnv_fields]] by auto

subsection \<open>The buckets of the plan\<close>

lemma buildPlan_buckets:
  assumes "buildPlan P options prdResult board = Inr (plan, ctx)"
    and "createStoryIdCodec (codecMapping (mapping options)) = Inr codec"
    and "env = planEnv P options prdResult board codec"
    and "ids = sortedIds_of P env
           (uniqueCardRecords_of (groupCardRecords (parsedCardRecords codec (getCards board))))"
  shows "mset (conflicts plan)
           = mset (initialConflicts (env_statusMapping env) (indexStories P (stories prdResult))
                     codec (getCards board))
             + mset (List.map_filter entryConflict (map snd (loopEntries env ids)))"
    and "set (creates plan) = set (List.map_filter entryCreate (map snd (loopEntries env ids)))"
    and "set (updates plan) = set (List.map_filter entryUpdate (map snd (loopEntries env ids)))"
    and "set (noop plan) = set (List.map_filter entryNoop (map snd (loopEntries env ids)))"
proof -
  from assms(1) obtain codec' p where
    c: "createStoryIdCodec (codecMapping (mapping options)) = Inr codec'"
    and l: "planLoop (planEnv P options prdResult board codec')
       (sortedIds_of P (planEnv P options prdResult board codec')
          (uniqueCardRecords_of (groupCardRecords (parsedCardRecords codec' (getCards board)))))
       \<lparr> creates = [], updates = [],
         conflicts = initialConflicts (env_statusMapping (planEnv P options prdResult board codec'))
                       (indexStories P (stories prdResult)) codec' (getCards board),
         noop = [] \<rparr> = Inr p"
    and s: "plan = sortPlan P p"
    by (rule buildPlan_Inr)
  have cc: "codec' = codec" using c assms(2) by simp
  have p: "p = foldl pushEntry
       \<lparr> creates = [], updates = [],
         conflicts = initialConflicts (env_statusMapping env)
                       (indexStories P (stories prdResult)) codec (getCards board),
         noop = [] \<rparr> (map snd (loopEntries env ids))"
    unfolding assms(3) assms(4) using planLoop_entries [OF l] unfolding cc .
  have cf: "conflicts p = initialConflicts (env_statusMapping env)
              (indexStories P (stories prdResult)) codec (getCards board)
            @ List.map_filter entryConflict (map snd (loopEntries env ids))"
    by (subst p) (simp add: foldl_pushEntry)
  have cr: "creates p = List.map_filter entryCreate (map snd (loopEntries env ids))"
    by (subst p) (simp add: foldl_pushEntry)
  have up: "updates p = List.map_filter entryUpdate (map snd (loopEntries env ids))"
    by (subst p) (simp add: foldl_pushEntry)
  have no: "noop p = List.map_filter entryNoop (map snd (loopEntries env ids))"
    by (subst p) (simp add: foldl_pushEntry)
  show "mset (conflicts plan)
           = mset (initialConflicts (env_statusMapping env) (indexStories P (stories prdResult))
                     codec (getCards board))
             + mset (List.map_filter entryConflict (map snd (loopEntries env ids)))"
    unfolding s sortPlan_msets cf by simp
  show "set (creates plan) = set (List.map_filter entryCreate (map snd (loopEntries env ids)))"
    unfolding s sortPlan_sets cr by simp
  show "set (updates plan) = set (List.map_filter entryUpdate (map snd (loopEntries env ids)))"
    unfolding s sortPlan_sets up by simp
  show "set (noop plan) = set (List.map_filter entryNoop (map snd (loopEntries env ids)))"
    unfolding s sortPlan_sets no by simp
qed

lemma entry_Some:
  "entryConflict e = Some c \<longleftrightarrow> e = Conflict c"
  "entryUpdate e = Some u \<longleftrightarrow> e = Update u"
  "entryCreate e = Some cr \<longleftrightarrow> e = Create cr"
  "entryNoop e = Some n \<longleftrightarrow> e = Noop n"
  by (cases e; simp add: entryConflict_def entryUpdate_def entryCreate_def entryNoop_def)+

lemma snd_image_mem: "x \<in> snd ` set es \<longleftrightarrow> (\<exists>j. (j, x) \<in> set es)"
  by force

lemma entry_projections:
  "c \<in> set (List.map_filter entryConflict (map snd es)) \<longleftrightarrow> (\<exists>j. (j, Conflict c) \<in> set es)"
  "u \<in> set (List.map_filter entryUpdate (map snd es)) \<longleftrightarrow> (\<exists>j. (j, Update u) \<in> set es)"
  "cr \<in> set (List.map_filter entryCreate (map snd es)) \<longleftrightarrow> (\<exists>j. (j, Create cr) \<in> set es)"
  "n \<in> set (List.map_filter entryNoop (map snd es)) \<longleftrightarrow> (\<exists>j. (j, Noop n) \<in> set es)"
  by (simp_all add: set_map_filter entry_Some snd_image_mem [symmetric])

lemma set_foldl_set_add:
  "set (foldl (\<lambda>acc e. set_add (f e) acc) a xs) = set a \<union> f ` set xs"
  by (induction xs arbitrary: a) (auto simp: set_add_def)

lemma set_conflictedIds_of:
  "set (conflictedIds_of dups byId) = set dups \<union> fst ` {e \<in> set byId. 1 < length (snd e)}"
  by (simp add: conflictedIds_of_def set_foldl_set_add set_new_Set)

lemma parseCard_conflict_id: "parseCard codec c = Inl x \<Longrightarrow> conflict_id x = None"
  by (auto simp: parseCard_def split: StoryIdParseResult.splits)

lemma titleConflicts_ids:
  assumes "x \<in> set (titleConflicts codec cs)"
  shows "conflict_id x = None"
proof -
  from assms obtain c where
    c: "(case parseCard codec c of Inl y \<Rightarrow> Some y | Inr r \<Rightarrow> None) = Some x"
    unfolding titleConflicts_def set_map_filter by auto
  then have "parseCard codec c = Inl x" by (cases "parseCard codec c") simp_all
  then show ?thesis by (rule parseCard_conflict_id)
qed

lemma initialConflicts_keyed:
  assumes "x \<in> set (initialConflicts sm idx codec cs)" "conflict_id x = Some i"
  shows "i \<in> set (conflictedIds_of (duplicateStoryIds idx)
                  (groupCardRecords (parsedCardRecords codec cs)))"
proof -
  from assms(1) consider
      (issue) "x \<in> (\<lambda>issue. \<lparr> conflict_id = None, conflict_reason = issue,
                     conflict_cards = None, conflict_story = None \<rparr>) ` set (sm_issues sm)"
    | (story) "x \<in> duplicateStoryConflict ` set (duplicateStoryIds idx)"
    | (title) "x \<in> set (titleConflicts codec cs)"
    | (cards) "x \<in> set (duplicateCardConflicts (groupCardRecords (parsedCardRecords codec cs)))"
    unfolding initialConflicts_def by auto
  then show ?thesis
  proof cases
    case issue
    then show ?thesis using assms(2) by auto
  next
    case story
    then show ?thesis using assms(2)
      by (auto simp: set_conflictedIds_of duplicateStoryConflict_def)
  next
    case title
    then show ?thesis using assms(2) titleConflicts_ids [of x codec cs] by simp
  next
    case cards
    then obtain e where e: "e \<in> set (groupCardRecords (parsedCardRecords codec cs))"
        "1 < length (snd e)" "x = duplicateCardConflict (fst e) (snd e)"
      unfolding duplicateCardConflicts_def by auto
    from e(3) assms(2) have "fst e = i" by (simp add: duplicateCardConflict_def)
    with e(1,2) have "i \<in> fst ` {e \<in> set (groupCardRecords (parsedCardRecords codec cs)).
                         1 < length (snd e)}"
      by (intro image_eqI [where x = e]) simp_all
    then show ?thesis unfolding set_conflictedIds_of by simp
  qed
qed

text \<open>A conflict keyed by an identifier the loop classifies comes from that identifier's turn.\<close>

lemma plan_conflict_from_loop:
  assumes "buildPlan P options prdResult board = Inr (plan, ctx)"
    and "createStoryIdCodec (codecMapping (mapping options)) = Inr codec"
    and "env = planEnv P options prdResult board codec"
    and "i \<notin> set (env_conflictedIds env)"
    and "x \<in> set (conflicts plan)" "conflict_id x = Some i"
  shows "planForId env i = Inr (Some (Conflict x))"
proof -
  define ids where "ids = sortedIds_of P env
           (uniqueCardRecords_of (groupCardRecords (parsedCardRecords codec (getCards board))))"
  have "x \<in># mset (conflicts plan)" using assms(5) by simp
  then have "x \<in> set (initialConflicts (env_statusMapping env) (indexStories P (stories prdResult))
                     codec (getCards board))
      \<or> x \<in> set (List.map_filter entryConflict (map snd (loopEntries env ids)))"
    unfolding buildPlan_buckets(1) [OF assms(1-3) ids_def] by simp
  then show ?thesis
  proof
    assume "x \<in> set (initialConflicts (env_statusMapping env) (indexStories P (stories prdResult))
                     codec (getCards board))"
    from initialConflicts_keyed [OF this assms(6)] have "i \<in> set (env_conflictedIds env)"
      unfolding assms(3) planEnv_fields .
    then show ?thesis using assms(4) by simp
  next
    assume "x \<in> set (List.map_filter entryConflict (map snd (loopEntries env ids)))"
    then obtain j where j: "(j, Conflict x) \<in> set (loopEntries env ids)"
      unfolding entry_projections by blast
    from loopEntries_keyed [OF j] have "conflict_id x = Some j" "planForId env j = Inr (Some (Conflict x))"
      by (simp_all add: entryKeyedBy_def)
    then show ?thesis using assms(6) by simp
  qed
qed

lemma plan_update_from_loop:
  assumes "buildPlan P options prdResult board = Inr (plan, ctx)"
    and "createStoryIdCodec (codecMapping (mapping options)) = Inr codec"
    and "env = planEnv P options prdResult board codec"
    and "u \<in> set (updates plan)"
  shows "planForId env (update_id u) = Inr (Some (Update u))"
proof -
  define ids where "ids = sortedIds_of P env
           (uniqueCardRecords_of (groupCardRecords (parsedCardRecords codec (getCards board))))"
  from assms(4) obtain j where j: "(j, Update u) \<in> set (loopEntries env ids)"
    unfolding buildPlan_buckets(3) [OF assms(1-3) ids_def] entry_projections by blast
  from loopEntries_keyed [OF j] have "update_id u = j" "planForId env j = Inr (Some (Update u))"
    by (simp_all add: entryKeyedBy_def)
  then show ?thesis by simp
qed

lemma plan_create_from_loop:
  assumes "buildPlan P options prdResult board = Inr (plan, ctx)"
    and "createStoryIdCodec (codecMapping (mapping options)) = Inr codec"
    and "env = planEnv P options prdResult board codec"
    and "c \<in> set (creates plan)"
  shows "planForId env (create_id c) = Inr (Some (Create c))"
proof -
  define ids where "ids = sortedIds_of P env
           (uniqueCardRecords_of (groupCardRecords (parsedCardRecords codec (getCards board))))"
  from assms(4) obtain j where j: "(j, Create c) \<in> set (loopEntries env ids)"
    unfolding buildPlan_buckets(2) [OF assms(1-3) ids_def] entry_projections by blast
  from loopEntries_keyed [OF j] have "create_id c = j" "planForId env j = Inr (Some (Create c))"
    by (simp_all add: entryKeyedBy_def)
  then show ?thesis by simp
qed

lemma plan_noop_from_loop:
  assumes "buildPlan P options prdResult board = Inr (plan, ctx)"
    and "createStoryIdCodec (codecMapping (mapping options)) = Inr codec"
    and "env = planEnv P options prdResult board codec"
    and "n \<in> set (noop plan)"
  shows "planForId env (noop_id n) = Inr (Some (Noop n))"
proof -
  define ids where "ids = sortedIds_of P env
           (uniqueCardRecords_of (groupCardRecords (parsedCardRecords codec (getCards board))))"
  from assms(4) obtain j where j: "(j, Noop n) \<in> set (loopEntries env ids)"
    unfolding buildPlan_buckets(4) [OF assms(1-3) ids_def] entry_projections by blast
  from loopEntries_keyed [OF j] have "noop_id n = j" "planForId env j = Inr (Some (Noop n))"
    by (simp_all add: entryKeyedBy_def)
  then show ?thesis by simp
qed

text \<open>What the loop decides for a present identifier is in the plan.\<close>

lemma plan_holds_loop_entry:
  assumes "buildPlan P options prdResult board = Inr (plan, ctx)"
    and "createStoryIdCodec (codecMapping (mapping options)) = Inr codec"
    and "env = planEnv P options prdResult board codec"
    and "i \<in> fst ` set (env_prdById env)"
    and "planForId env i = Inr (Some e)"
  shows "case e of Create c \<Rightarrow> c \<in> set (creates plan)
         | Update u \<Rightarrow> u \<in> set (updates plan)
         | Conflict c \<Rightarrow> c \<in> set (conflicts plan)
         | Noop n \<Rightarrow> n \<in> set (noop plan)"
proof -
  define ids where "ids = sortedIds_of P env
           (uniqueCardRecords_of (groupCardRecords (parsedCardRecords codec (getCards board))))"
  have "i \<in> set ids" unfolding ids_def sortedIds_mem using assms(4) by simp
  then have m: "(i, e) \<in> set (loopEntries env ids)" using assms(5) by (rule loopEntries_mem)
  have c: "set (conflicts plan) \<supseteq> set (List.map_filter entryConflict (map snd (loopEntries env ids)))"
    using buildPlan_buckets(1) [OF assms(1-3) ids_def]
    by (metis mset_append set_append set_mset_mset sup_ge2)
  show ?thesis
  proof (cases e)
    case (Create x)
    then show ?thesis using m buildPlan_buckets(2) [OF assms(1-3) ids_def] entry_projections(3) by auto
  next
    case (Update x)
    then show ?thesis using m buildPlan_buckets(3) [OF assms(1-3) ids_def] entry_projections(2) by auto
  next
    case (Conflict x)
    then show ?thesis using m c entry_projections(1) by auto
  next
    case (Noop x)
    then show ?thesis using m buildPlan_buckets(4) [OF assms(1-3) ids_def] entry_projections(4) by auto
  qed
qed


subsection \<open>A pair whose two sides both changed\<close>

lemma planForId_pair:
  assumes "i \<notin> set (env_conflictedIds env)"
    and "map_of (env_prdById env) i = Some story"
    and "map_of (env_recordById env) i = Some record"
    and "\<not> skippedAsUnchanged env story record"
    and "pairCardMapping env story record = Inr cardMapping"
  shows "planForId env i
           = Inr (Some (decidePair env i story record cardMapping (pairStoryMapping env record)))"
proof -
  have "planPair env i story record
          = Inr (decidePair env i story record cardMapping (pairStoryMapping env record))"
    using assms(4,5) unfolding planPair_def skippedAsUnchanged_def by auto
  then show ?thesis using assms(1-3) by (simp add: planForId_def)
qed

lemma decidePair_tie:
  assumes "env_direction env = Two_way"
    and "needsCardUpdate env cardMapping"
    and "needsStoryUpdate env story storyMapping"
    and "compareIsoTimestamps (env_platform env) (env_lastModifiedAt env)
           (card_lastActivityAt (card record)) = 0"
  shows "decidePair env i story record cardMapping storyMapping =
     (case env_conflictPrefer env of
        Prefer_none \<Rightarrow>
          Conflict \<lparr> conflict_id = Some i,
                     conflict_reason = ''PRD and Trello updates conflict (equal timestamps)'',
                     conflict_cards = Some [card record], conflict_story = Some story \<rparr>
      | Prefer_prd \<Rightarrow>
          trelloUpdate env i ''PRD preferred over Trello (equal timestamps)'' story record cardMapping
      | Prefer_trello \<Rightarrow>
          Update (UpdatePrd i ''Trello preferred over PRD (equal timestamps)''
                    (stm_story storyMapping) (card record)))"
proof -
  have c: "length (cm_issues cardMapping) = 0" "length (stm_issues storyMapping) = 0"
    using assms(2,3) by (simp_all add: needsCardUpdate_def needsStoryUpdate_def)
  show ?thesis
    unfolding decidePair_def Let_def
    using assms c
    by (cases "env_conflictPrefer env") (simp_all add: resolveTimestampComparison_def)
qed

lemma tie_in_plan:
  assumes "buildPlan P options prdResult board = Inr (plan, ctx)"
    and "createStoryIdCodec (codecMapping (mapping options)) = Inr codec"
    and "env = planEnv P options prdResult board codec"
    and "direction_of options = Two_way"
    and "i \<notin> set (env_conflictedIds env)"
    and "map_of (env_prdById env) i = Some story"
    and "map_of (env_recordById env) i = Some record"
    and "\<not> skippedAsUnchanged env story record"
    and "pairCardMapping env story record = Inr cardMapping"
    and "needsCardUpdate env cardMapping"
    and "needsStoryUpdate env story (pairStoryMapping env record)"
    and "compareIsoTimestamps P (lastModifiedAt prdResult) (card_lastActivityAt (card record)) = 0"
  shows "(resolveConflictPrefer (conflict options) = Prefer_none \<longrightarrow>
            (\<exists>c \<in> set (conflicts plan). conflict_id c = Some i
               \<and> conflict_reason c = ''PRD and Trello updates conflict (equal timestamps)'')
            \<and> (\<forall>u \<in> set (updates plan). update_id u \<noteq> i))
       \<and> (resolveConflictPrefer (conflict options) = Prefer_prd \<longrightarrow>
            (\<exists>u \<in> set (updates plan). update_id u = i)
            \<and> (\<forall>u \<in> set (updates plan). update_id u = i \<longrightarrow> update_target u = Trello)
            \<and> (\<forall>c \<in> set (conflicts plan). conflict_id c \<noteq> Some i))
       \<and> (resolveConflictPrefer (conflict options) = Prefer_trello \<longrightarrow>
            (\<exists>u \<in> set (updates plan). update_id u = i)
            \<and> (\<forall>u \<in> set (updates plan). update_id u = i \<longrightarrow> update_target u = Prd)
            \<and> (\<forall>c \<in> set (conflicts plan). conflict_id c \<noteq> Some i))"
proof -
  define e where "e = decidePair env i story record cardMapping (pairStoryMapping env record)"
  have dir: "env_direction env = Two_way" and pl: "env_platform env = P"
    and lm: "env_lastModifiedAt env = lastModifiedAt prdResult"
    and pr: "env_conflictPrefer env = resolveConflictPrefer (conflict options)"
    unfolding assms(3) planEnv_fields using assms(4) by simp_all
  have pf: "planForId env i = Inr (Some e)"
    unfolding e_def using assms(5-9) by (rule planForId_pair)
  have key: "i \<in> fst ` set (env_prdById env)"
    using map_of_SomeD [OF assms(6)] by force
  note held = plan_holds_loop_entry [OF assms(1-3) key pf]
  have cf: "e = Conflict x" if "x \<in> set (conflicts plan)" "conflict_id x = Some i" for x
    using plan_conflict_from_loop [OF assms(1-3) assms(5) that] pf by simp
  have up: "e = Update u" if "u \<in> set (updates plan)" "update_id u = i" for u
    using plan_update_from_loop [OF assms(1-3) that(1)] that(2) pf by simp
  have tie: "e = (case resolveConflictPrefer (conflict options) of
        Prefer_none \<Rightarrow>
          Conflict \<lparr> conflict_id = Some i,
                     conflict_reason = ''PRD and Trello updates conflict (equal timestamps)'',
                     conflict_cards = Some [card record], conflict_story = Some story \<rparr>
      | Prefer_prd \<Rightarrow>
          trelloUpdate env i ''PRD preferred over Trello (equal timestamps)'' story record cardMapping
      | Prefer_trello \<Rightarrow>
          Update (UpdatePrd i ''Trello preferred over PRD (equal timestamps)''
                    (stm_story (pairStoryMapping env record)) (card record)))"
    unfolding e_def pr [symmetric]
    by (rule decidePair_tie [OF dir assms(10,11)]) (simp add: pl lm assms(12))
  show ?thesis
  proof (intro conjI impI)
    assume p: "resolveConflictPrefer (conflict options) = Prefer_none"
    let ?c = "\<lparr> conflict_id = Some i,
                 conflict_reason = ''PRD and Trello updates conflict (equal timestamps)'',
                 conflict_cards = Some [card record], conflict_story = Some story \<rparr>"
    have e: "e = Conflict ?c" using tie p by simp
    then have "?c \<in> set (conflicts plan)" using held by simp
    then show "\<exists>c \<in> set (conflicts plan). conflict_id c = Some i
               \<and> conflict_reason c = ''PRD and Trello updates conflict (equal timestamps)''"
      by (intro bexI [where x = ?c]) simp_all
    show "\<forall>u \<in> set (updates plan). update_id u \<noteq> i"
      using up e by auto
  next
    assume p: "resolveConflictPrefer (conflict options) = Prefer_prd"
    let ?u = "trelloUpdate env i ''PRD preferred over Trello (equal timestamps)'' story record cardMapping"
    have e: "e = ?u" using tie p by simp
    obtain r where r: "?u = Update (UpdateTrello r)" "ut_id r = i"
      by (simp add: trelloUpdate_def)
    have "UpdateTrello r \<in> set (updates plan)" using held e r by simp
    then show "\<exists>u \<in> set (updates plan). update_id u = i"
      by (intro bexI [where x = "UpdateTrello r"]) (simp_all add: r)
    show "\<forall>u \<in> set (updates plan). update_id u = i \<longrightarrow> update_target u = Trello"
    proof (intro ballI impI)
      fix u assume "u \<in> set (updates plan)" "update_id u = i"
      then have "e = Update u" by (rule up)
      then have "u = UpdateTrello r" using e r by simp
      then show "update_target u = Trello" by simp
    qed
    show "\<forall>c \<in> set (conflicts plan). conflict_id c \<noteq> Some i"
      using cf e r by auto
  next
    assume p: "resolveConflictPrefer (conflict options) = Prefer_trello"
    let ?u = "UpdatePrd i ''Trello preferred over PRD (equal timestamps)''
                    (stm_story (pairStoryMapping env record)) (card record)"
    have e: "e = Update ?u" using tie p by simp
    have "?u \<in> set (updates plan)" using held e by simp
    then show "\<exists>u \<in> set (updates plan). update_id u = i"
      by (intro bexI [where x = ?u]) simp_all
    show "\<forall>u \<in> set (updates plan). update_id u = i \<longrightarrow> update_target u = Prd"
    proof (intro ballI impI)
      fix u assume "u \<in> set (updates plan)" "update_id u = i"
      then have "e = Update u" by (rule up)
      then have "u = ?u" using e by simp
      then show "update_target u = Prd" by simp
    qed
    show "\<forall>c \<in> set (conflicts plan). conflict_id c \<noteq> Some i"
      using cf e by auto
  qed
qed

subsection \<open>Duplicated identifiers\<close>

lemma map_of_None_keys: "map_of m k = None \<longleftrightarrow> k \<notin> fst ` set m"
  by (simp add: map_of_eq_None_iff)

lemma indexStories_snoc:
  "indexStories P (ss @ [s]) = indexStory P (indexStories P ss) s"
  by (simp add: indexStories_def)

lemma indexStories_keys:
  "fst ` set (prdById (indexStories P ss)) = story_id ` set ss"
proof (induction ss rule: rev_induct)
  case Nil
  then show ?case by (simp add: indexStories_def)
next
  case (snoc s ss)
  show ?case
  proof (cases "map_of (prdById (indexStories P ss)) (story_id s) = None")
    case True
    then show ?thesis
      using snoc by (simp add: indexStories_snoc indexStory_def Let_def dom_update)
  next
    case False
    then have "story_id s \<in> story_id ` set ss"
      using snoc by (simp add: map_of_None_keys)
    then show ?thesis
      using snoc False by (auto simp: indexStories_snoc indexStory_def Let_def)
  qed
qed

lemma indexStories_duplicates:
  "distinct (duplicateStoryIds (indexStories P ss))
   \<and> set (duplicateStoryIds (indexStories P ss)) = {i. 2 \<le> length (storiesCarrying ss i)}"
proof (induction ss rule: rev_induct)
  case Nil
  then show ?case by (simp add: indexStories_def storiesCarrying_def)
next
  case (snoc s ss)
  let ?idx = "indexStories P ss"
  have seen: "map_of (prdById ?idx) (story_id s) \<noteq> None \<longleftrightarrow> storiesCarrying ss (story_id s) \<noteq> []"
  proof -
    have "map_of (prdById ?idx) (story_id s) \<noteq> None \<longleftrightarrow> story_id s \<in> story_id ` set ss"
      by (simp add: map_of_None_keys indexStories_keys)
    also have "\<dots> \<longleftrightarrow> storiesCarrying ss (story_id s) \<noteq> []"
      unfolding storiesCarrying_def by (auto simp: filter_empty_conv intro: rev_image_eqI)
    finally show ?thesis .
  qed
  show ?case
  proof (cases "map_of (prdById ?idx) (story_id s) = None")
    case True
    then have d: "duplicateStoryIds (indexStories P (ss @ [s])) = duplicateStoryIds ?idx"
      by (simp add: indexStories_snoc indexStory_def Let_def)
    from True seen have z: "storiesCarrying ss (story_id s) = []" by simp
    have "{i. 2 \<le> length (storiesCarrying (ss @ [s]) i)} = {i. 2 \<le> length (storiesCarrying ss i)}"
      using z by (auto simp: storiesCarrying_def)
    then show ?thesis unfolding d using snoc by simp
  next
    case False
    then have d: "duplicateStoryIds (indexStories P (ss @ [s]))
                   = set_add (story_id s) (duplicateStoryIds ?idx)"
      by (simp add: indexStories_snoc indexStory_def Let_def)
    from False seen have "storiesCarrying ss (story_id s) \<noteq> []" by simp
    then have z: "1 \<le> length (storiesCarrying ss (story_id s))"
      by (cases "storiesCarrying ss (story_id s)") simp_all
    have "{i. 2 \<le> length (storiesCarrying (ss @ [s]) i)}
            = insert (story_id s) {i. 2 \<le> length (storiesCarrying ss i)}"
      using z by (auto simp: storiesCarrying_def)
    then show ?thesis unfolding d using snoc by (auto simp: set_add_def)
  qed
qed

lemma groupCardRecords_snoc:
  "groupCardRecords (rs @ [r]) =
     AList.update (storyId r)
       ((case map_of (groupCardRecords rs) (storyId r) of None \<Rightarrow> [] | Some bucket \<Rightarrow> bucket) @ [r])
       (groupCardRecords rs)"
  by (simp add: groupCardRecords_def)

lemma groupCardRecords_buckets:
  "distinct (map fst (groupCardRecords rs))
   \<and> (\<forall>k. map_of (groupCardRecords rs) k =
           (if filter (\<lambda>r. storyId r = k) rs = [] then None
            else Some (filter (\<lambda>r. storyId r = k) rs)))"
proof (induction rs rule: rev_induct)
  case Nil
  then show ?case by (simp add: groupCardRecords_def)
next
  case (snoc r rs)
  then have d: "distinct (map fst (groupCardRecords rs))"
    and m: "\<And>k. map_of (groupCardRecords rs) k =
           (if filter (\<lambda>r. storyId r = k) rs = [] then None
            else Some (filter (\<lambda>r. storyId r = k) rs))"
    by simp_all
  have b: "(case map_of (groupCardRecords rs) (storyId r) of None \<Rightarrow> [] | Some bucket \<Rightarrow> bucket)
            = filter (\<lambda>x. storyId x = storyId r) rs"
    by (simp add: m)
  show ?case
    unfolding groupCardRecords_snoc b
    by (simp add: distinct_update d update_conv' m)
qed

lemma alist_key_filter:
  assumes "distinct (map fst m)"
  shows "filter (\<lambda>e. fst e = k \<and> Q (snd e)) m =
           (case map_of m k of None \<Rightarrow> [] | Some v \<Rightarrow> if Q v then [(k, v)] else [])"
  using assms
proof (induction m)
  case Nil
  then show ?case by simp
next
  case (Cons e m)
  obtain a b where e: "e = (a, b)" by (cases e)
  show ?case
  proof (cases "a = k")
    case True
    then have "k \<notin> fst ` set m" using Cons.prems e by auto
    then have "filter (\<lambda>e. fst e = k \<and> Q (snd e)) m = []"
      by (auto simp: filter_empty_conv)
    then show ?thesis using True e by simp
  next
    case False
    then show ?thesis using Cons e by simp
  qed
qed

lemma filter_map_filter_length:
  "length (filter Q (List.map_filter f xs))
     = length (filter (\<lambda>x. case f x of None \<Rightarrow> False | Some y \<Rightarrow> Q y) xs)"
  by (induction xs) (auto simp: List.map_filter_simps split: option.splits)

lemma parsed_records_count:
  "length (filter (\<lambda>r. storyId r = i) (parsedCardRecords codec cs))
     = length (cardsParsingTo codec cs i)"
proof -
  have "(case (case parseCard codec c of Inl _ \<Rightarrow> None | Inr r \<Rightarrow> Some r) of
           None \<Rightarrow> False | Some y \<Rightarrow> storyId y = i)
        = (case parseCardTitle codec (card_name c) of ParseOk j _ \<Rightarrow> j = i | _ \<Rightarrow> False)" for c
    by (cases "parseCardTitle codec (card_name c)") (simp_all add: parseCard_def)
  then show ?thesis
    unfolding parsedCardRecords_def cardsParsingTo_def filter_map_filter_length by simp
qed


lemma distinct_count_one:
  "distinct xs \<Longrightarrow> length (filter (\<lambda>j. j = i \<and> b) xs) = (if i \<in> set xs \<and> b then 1 else 0)"
  by (induction xs) auto

lemma conflicted_iff:
  "i \<in> set (conflictedIds_of (duplicateStoryIds (indexStories P ss))
               (groupCardRecords (parsedCardRecords codec cs)))
     \<longleftrightarrow> 2 \<le> length (storiesCarrying ss i) \<or> 2 \<le> length (cardsParsingTo codec cs i)"
proof -
  let ?g = "groupCardRecords (parsedCardRecords codec cs)"
  let ?f = "filter (\<lambda>r. storyId r = i) (parsedCardRecords codec cs)"
  have d: "distinct (map fst ?g)"
    and m: "map_of ?g i = (if ?f = [] then None else Some ?f)"
    using groupCardRecords_buckets [of "parsedCardRecords codec cs"] by simp_all
  have "i \<in> fst ` {e \<in> set ?g. 1 < length (snd e)} \<longleftrightarrow> (\<exists>b. (i, b) \<in> set ?g \<and> 1 < length b)"
    by force
  also have "\<dots> \<longleftrightarrow> (\<exists>b. map_of ?g i = Some b \<and> 1 < length b)"
    using d by simp
  also have "\<dots> \<longleftrightarrow> 2 \<le> length ?f"
    unfolding m by auto
  finally have "i \<in> fst ` {e \<in> set ?g. 1 < length (snd e)}
      \<longleftrightarrow> 2 \<le> length (cardsParsingTo codec cs i)"
    unfolding parsed_records_count .
  then show ?thesis
    unfolding set_conflictedIds_of using indexStories_duplicates [of P ss] by simp
qed

lemma initialConflicts_count:
  "length (filter (\<lambda>c. conflict_id c = Some i \<and> Q (conflict_reason c))
             (initialConflicts sm (indexStories P ss) codec cs))
     = (if 2 \<le> length (storiesCarrying ss i) \<and> Q ''Duplicate story ID in PRD stories''
        then 1 else 0)
     + (if 2 \<le> length (cardsParsingTo codec cs i) \<and> Q ''Duplicate story ID across Trello cards''
        then 1 else 0)"
proof -
  let ?R = "\<lambda>c. conflict_id c = Some i \<and> Q (conflict_reason c)"
  let ?g = "groupCardRecords (parsedCardRecords codec cs)"
  let ?f = "filter (\<lambda>r. storyId r = i) (parsedCardRecords codec cs)"
  have a: "filter ?R (map (\<lambda>issue. \<lparr> conflict_id = None, conflict_reason = issue,
                     conflict_cards = None, conflict_story = None \<rparr>) (sm_issues sm)) = []"
    by (simp add: filter_empty_conv)
  have t: "filter ?R (titleConflicts codec cs) = []"
    using titleConflicts_ids [of _ codec cs] by (auto simp: filter_empty_conv)
  have "length (filter ?R (map duplicateStoryConflict (duplicateStoryIds (indexStories P ss))))
          = length (filter (\<lambda>j. j = i \<and> Q ''Duplicate story ID in PRD stories'')
                      (duplicateStoryIds (indexStories P ss)))"
    by (simp add: filter_map comp_def duplicateStoryConflict_def)
  also have "\<dots> = (if 2 \<le> length (storiesCarrying ss i) \<and> Q ''Duplicate story ID in PRD stories''
                     then 1 else 0)"
    using indexStories_duplicates [of P ss] by (simp add: distinct_count_one)
  finally have b: "length (filter ?R (map duplicateStoryConflict (duplicateStoryIds (indexStories P ss))))
      = (if 2 \<le> length (storiesCarrying ss i) \<and> Q ''Duplicate story ID in PRD stories''
         then 1 else 0)" .
  have dg: "distinct (map fst ?g)"
    and m: "map_of ?g i = (if ?f = [] then None else Some ?f)"
    using groupCardRecords_buckets [of "parsedCardRecords codec cs"] by simp_all
  have "length (filter ?R (duplicateCardConflicts ?g))
          = length (filter (\<lambda>e. fst e = i
                \<and> (Q ''Duplicate story ID across Trello cards'' \<and> 1 < length (snd e))) ?g)"
    unfolding duplicateCardConflicts_def
    by (simp add: filter_map comp_def duplicateCardConflict_def conj_commute conj_left_commute)
  also have "\<dots> = (if 2 \<le> length ?f \<and> Q ''Duplicate story ID across Trello cards'' then 1 else 0)"
    unfolding alist_key_filter [OF dg, where Q = "\<lambda>v. Q ''Duplicate story ID across Trello cards'' \<and> 1 < length v"] m
    by auto
  finally have d: "length (filter ?R (duplicateCardConflicts ?g))
      = (if 2 \<le> length (cardsParsingTo codec cs i) \<and> Q ''Duplicate story ID across Trello cards''
         then 1 else 0)"
    unfolding parsed_records_count .
  show ?thesis
    unfolding initialConflicts_def filter_append length_append a t b d by simp
qed

lemma planForId_conflicted: "i \<in> set (env_conflictedIds env) \<Longrightarrow> planForId env i = Inr None"
  by (simp add: planForId_def)

lemma plan_conflicts_count:
  assumes "buildPlan P options prdResult board = Inr (plan, ctx)"
    and "createStoryIdCodec (codecMapping (mapping options)) = Inr codec"
    and "env = planEnv P options prdResult board codec"
    and "i \<in> set (env_conflictedIds env)"
  shows "length (filter (\<lambda>c. conflict_id c = Some i \<and> Q (conflict_reason c)) (conflicts plan))
     = length (filter (\<lambda>c. conflict_id c = Some i \<and> Q (conflict_reason c))
         (initialConflicts (env_statusMapping env) (indexStories P (stories prdResult))
            codec (getCards board)))"
proof -
  let ?R = "\<lambda>c. conflict_id c = Some i \<and> Q (conflict_reason c)"
  define ids where "ids = sortedIds_of P env
           (uniqueCardRecords_of (groupCardRecords (parsedCardRecords codec (getCards board))))"
  let ?init = "initialConflicts (env_statusMapping env) (indexStories P (stories prdResult))
                 codec (getCards board)"
  let ?loop = "List.map_filter entryConflict (map snd (loopEntries env ids))"
  have "filter ?R ?loop = []"
  proof -
    have "\<not> ?R x" if "x \<in> set ?loop" for x
    proof
      assume r: "?R x"
      from that obtain j where j: "(j, Conflict x) \<in> set (loopEntries env ids)"
        unfolding entry_projections by blast
      from loopEntries_keyed [OF j] r have "planForId env i = Inr (Some (Conflict x))"
        by (simp add: entryKeyedBy_def)
      then show False using planForId_conflicted [OF assms(4)] by simp
    qed
    then show ?thesis by (simp add: filter_empty_conv)
  qed
  then have l: "length (filter ?R (?init @ ?loop)) = length (filter ?R ?init)" by simp
  have "mset (conflicts plan) = mset (?init @ ?loop)"
    using buildPlan_buckets(1) [OF assms(1-3) ids_def] by simp
  then have "filter_mset ?R (mset (conflicts plan)) = filter_mset ?R (mset (?init @ ?loop))"
    by (rule arg_cong)
  then have "mset (filter ?R (conflicts plan)) = mset (filter ?R (?init @ ?loop))"
    unfolding mset_filter .
  then have "length (filter ?R (conflicts plan)) = length (filter ?R (?init @ ?loop))"
    by (rule mset_eq_length)
  then show ?thesis using l by simp
qed

lemma plan_skips_conflicted:
  assumes "buildPlan P options prdResult board = Inr (plan, ctx)"
    and "createStoryIdCodec (codecMapping (mapping options)) = Inr codec"
    and "env = planEnv P options prdResult board codec"
    and "i \<in> set (env_conflictedIds env)"
  shows "i \<notin> create_id ` set (creates plan)"
    and "i \<notin> update_id ` set (updates plan)"
    and "i \<notin> noop_id ` set (noop plan)"
proof -
  note none = planForId_conflicted [OF assms(4)]
  show "i \<notin> create_id ` set (creates plan)"
  proof
    assume "i \<in> create_id ` set (creates plan)"
    then obtain c where c: "c \<in> set (creates plan)" "create_id c = i" by auto
    from plan_create_from_loop [OF assms(1-3) c(1)] c(2) none show False by simp
  qed
  show "i \<notin> update_id ` set (updates plan)"
  proof
    assume "i \<in> update_id ` set (updates plan)"
    then obtain c where c: "c \<in> set (updates plan)" "update_id c = i" by auto
    from plan_update_from_loop [OF assms(1-3) c(1)] c(2) none show False by simp
  qed
  show "i \<notin> noop_id ` set (noop plan)"
  proof
    assume "i \<in> noop_id ` set (noop plan)"
    then obtain c where c: "c \<in> set (noop plan)" "noop_id c = i" by auto
    from plan_noop_from_loop [OF assms(1-3) c(1)] c(2) none show False by simp
  qed
qed

subsection \<open>The index of the stories\<close>

lemma storiesCarrying_snoc:
  "storiesCarrying (ss @ [s]) i
     = (if story_id s = i then storiesCarrying ss i @ [s] else storiesCarrying ss i)"
  by (simp add: storiesCarrying_def)

lemma indexStories_first:
  "map_of (prdById (indexStories P ss)) i =
     (if storiesCarrying ss i = [] then None else Some (hd (storiesCarrying ss i)))"
proof (induction ss arbitrary: i rule: rev_induct)
  case Nil
  then show ?case by (simp add: indexStories_def storiesCarrying_def)
next
  case (snoc s ss)
  show ?case
  proof (cases "storiesCarrying ss (story_id s) = []")
    case True
    then have "map_of (prdById (indexStories P ss)) (story_id s) = None"
      by (simp add: snoc)
    then have "prdById (indexStories P (ss @ [s]))
                 = AList.update (story_id s) s (prdById (indexStories P ss))"
      by (simp add: indexStories_snoc indexStory_def Let_def)
    then show ?thesis
      using True by (simp add: update_conv' storiesCarrying_snoc snoc)
  next
    case False
    then have "map_of (prdById (indexStories P ss)) (story_id s) \<noteq> None"
      by (simp add: snoc)
    then have "prdById (indexStories P (ss @ [s])) = prdById (indexStories P ss)"
      by (simp add: indexStories_snoc indexStory_def Let_def)
    then show ?thesis
      using False by (auto simp: storiesCarrying_snoc snoc)
  qed
qed

lemma indexStories_fingerprints:
  "map_of (storyFingerprints (indexStories P ss)) i =
     (if storiesCarrying ss i = [] then None
      else Some (createStoryFingerprint P (last (storiesCarrying ss i))))"
proof (induction ss rule: rev_induct)
  case Nil
  then show ?case by (simp add: indexStories_def storiesCarrying_def)
next
  case (snoc s ss)
  have "storyFingerprints (indexStories P (ss @ [s]))
          = AList.update (story_id s) (createStoryFingerprint P s)
              (storyFingerprints (indexStories P ss))"
    by (simp add: indexStories_snoc indexStory_def Let_def)
  then show ?case
    using snoc by (simp add: update_conv' storiesCarrying_snoc)
qed

lemma sole_story:
  assumes "map_of (prdById (indexStories P ss)) i = Some story"
    and "\<not> 2 \<le> length (storiesCarrying ss i)"
  shows "story_id story = i"
    and "map_of (storyFingerprints (indexStories P ss)) i = Some (createStoryFingerprint P story)"
proof -
  from assms(1) have ne: "storiesCarrying ss i \<noteq> []" and h: "story = hd (storiesCarrying ss i)"
    unfolding indexStories_first by (auto split: if_splits)
  from ne assms(2) obtain s where s: "storiesCarrying ss i = [s]"
    by (cases "storiesCarrying ss i"; cases "tl (storiesCarrying ss i)") auto
  have "s \<in> set (storiesCarrying ss i)" using s by simp
  then have "story_id s = i" unfolding storiesCarrying_def by simp
  then show "story_id story = i" using h s by simp
  show "map_of (storyFingerprints (indexStories P ss)) i = Some (createStoryFingerprint P story)"
    unfolding indexStories_fingerprints using h s by simp
qed


subsection \<open>A pair unchanged since the last run\<close>

lemma skipped_iff_recorded:
  assumes "env = planEnv P options prdResult board codec"
    and "incrementalState_of options = Some st"
    and "i \<notin> set (env_conflictedIds env)"
    and "map_of (env_prdById env) i = Some story"
    and "map_of (env_recordById env) i = Some record"
  shows "skippedAsUnchanged env story record \<longleftrightarrow>
            (\<exists>e. map_of (storyIndex st) i = Some e
                  \<and> fingerprint e = createStoryFingerprint P story)
          \<and> (\<exists>e. map_of (cardIndex st) i = Some e
                  \<and> entry_cardId e = card_id (card record)
                  \<and> entry_lastActivityAt e = card_lastActivityAt (card record))"
proof -
  have inc: "env_incrementalState env = Some st"
    unfolding assms(1) planEnv_fields by (rule assms(2))
  have "\<not> 2 \<le> length (storiesCarrying (stories prdResult) i)"
    using assms(3) unfolding assms(1) planEnv_fields conflicted_iff by simp
  with assms(4) have sid: "story_id story = i"
    and fp: "map_of (env_storyFingerprints env) i = Some (createStoryFingerprint P story)"
    unfolding assms(1) planEnv_fields by (rule sole_story)+
  have rid: "storyId record = i"
    using assms(5) unfolding assms(1) by (rule recordById_SomeD(1))
  have a: "isStoryUnchanged (env_incrementalState env) (env_storyFingerprints env) story
        \<longleftrightarrow> (\<exists>e. map_of (storyIndex st) i = Some e
                  \<and> fingerprint e = createStoryFingerprint P story)"
    unfolding isStoryUnchanged_def inc sid fp by (auto split: option.splits)
  have b: "isCardUnchanged (env_incrementalState env) record
        \<longleftrightarrow> (\<exists>e. map_of (cardIndex st) i = Some e
                  \<and> entry_cardId e = card_id (card record)
                  \<and> entry_lastActivityAt e = card_lastActivityAt (card record))"
    unfolding isCardUnchanged_def inc rid by (auto split: option.splits)
  show ?thesis
    unfolding skippedAsUnchanged_def a b using inc by simp
qed

lemma planForId_skipped:
  assumes "i \<notin> set (env_conflictedIds env)"
    and "map_of (env_prdById env) i = Some story"
    and "map_of (env_recordById env) i = Some record"
    and "skippedAsUnchanged env story record"
  shows "planForId env i
           = Inr (Some (Noop \<lparr> noop_id = i, noop_reason = ''Unchanged since last sync'' \<rparr>))"
proof -
  have "planPair env i story record
          = Inr (Noop \<lparr> noop_id = i, noop_reason = ''Unchanged since last sync'' \<rparr>)"
    using assms(4) unfolding planPair_def skippedAsUnchanged_def by simp
  then show ?thesis using assms(1-3) by (simp add: planForId_def)
qed

lemma checklistTargets_pair:
  assumes "env = planEnv P options prdResult board codec"
    and "map_of (env_prdById env) i = Some story"
    and "map_of (env_recordById env) i = Some record"
  shows "record \<in> set (checklistTargets (direction_of options) (incrementalState_of options)
                        (env_prdById env) (env_storyFingerprints env)
                        (uniqueCardRecords_of
                           (groupCardRecords (parsedCardRecords codec (getCards board)))))
           \<longleftrightarrow> \<not> skippedAsUnchanged env story record"
proof -
  have rid: "storyId record = i"
    and mem: "record \<in> set (uniqueCardRecords_of
                             (groupCardRecords (parsedCardRecords codec (getCards board))))"
    using assms(3) unfolding assms(1) by (rule recordById_SomeD)+
  have inc: "env_incrementalState env = incrementalState_of options"
    unfolding assms(1) planEnv_fields ..
  show ?thesis
    unfolding checklistTargets_def skippedAsUnchanged_def inc
    using mem rid assms(2) by auto
qed

subsection \<open>When the state file is written\<close>

lemma loadSyncState_keeps:
  "w_files (snd (loadSyncState statePath opts w)) = w_files w
   \<and> w_effects (snd (loadSyncState statePath opts w)) = w_effects w"
  by (simp add: loadSyncState_def split: StateFile.splits option.splits)

lemma syncWithState_dry_run:
  assumes "dryRun options = Some True"
  shows "snd (syncWithState P now A options prdResult board log) = log"
  using assms
  by (simp add: syncWithState_def shouldSkipApply_def split: sum.splits prod.splits)

lemma dry_run_keeps_state_file:
  assumes "dryRun options = Some True"
  shows "w_files (snd (syncWithStateFile P now A statePath boardId options prdResult board w0))
           = w_files w0
       \<and> w_effects (snd (syncWithStateFile P now A statePath boardId options prdResult board w0))
           = w_effects w0"
proof -
  define opts where "opts = \<lparr> load_boardId = boardId, load_prdPath = prdPath options,
                   load_mappingSignature = createMappingSignature P (mapping options) \<rparr>"
  define inc where "inc = (case incremental options of None \<Rightarrow> True | Some b \<Rightarrow> b)"
  define lw where "lw = (if inc then loadSyncState statePath opts w0 else (None, w0))"
  have lw: "w_files (snd lw) = w_files w0" "w_effects (snd lw) = w_effects w0"
    unfolding lw_def using loadSyncState_keeps [of statePath opts w0] by auto
  define options1 where "options1 = options\<lparr> incremental := Some inc, state := fst lw \<rparr>"
  have d: "dryRun options1 = Some True" unfolding options1_def using assms by simp
  define res where "res = syncWithState P now A options1 prdResult board (w_effects (snd lw))"
  have r: "snd res = w_effects (snd lw)"
    unfolding res_def using d by (rule syncWithState_dry_run)
  have "syncWithStateFile P now A statePath boardId options prdResult board w0 =
      (case res of
         (Inl e, log) \<Rightarrow> (Inl e, (snd lw)\<lparr> w_effects := log \<rparr>)
       | (Inr (plan, snapshot), log) \<Rightarrow>
           (Inr (plan, createSyncState P now
                    \<lparr> in_boardId = boardId, in_prdPath = prdPath options,
                      in_mapping = mapping options, in_stories = snap_stories snapshot,
                      in_cards = snap_cards snapshot,
                      in_lastSeenTrelloActivity = Some (snap_lastSeenTrelloActivity snapshot),
                      in_lastRunAt = None \<rparr>), (snd lw)\<lparr> w_effects := log \<rparr>))"
    unfolding syncWithStateFile_def Let_def res_def options1_def lw_def inc_def opts_def
    using assms by (simp add: case_prod_beta split: sum.splits)
  then show ?thesis
    using r lw by (cases res; cases "fst res") (auto split: prod.splits)
qed

lemma applyLabels_conflicts:
  assumes "applyLabels P A options board plan log = (Inr plan1, log1)"
  shows "conflicts plan1 = conflicts plan"
  using assms
  by (auto simp: applyLabels_def Let_def split: if_splits prod.splits sum.splits)

lemma applyPlan_conflicts:
  assumes "applyPlan P A options board plan ctx log = (Inr (applyResult, plan1), log1)"
  shows "conflicts plan1 = conflicts plan"
proof -
  from assms obtain log2 where "applyLabels P A options board plan log = (Inr plan1, log2)"
    unfolding applyPlan_def Let_def
    by (auto split: prod.splits sum.splits if_splits)
  then show ?thesis by (rule applyLabels_conflicts)
qed

lemma syncWithState_blocked:
  assumes "syncWithState P now A options prdResult board log = (Inr (plan, snapshot), log1)"
    and "conflict options = Some c" "co_blockWrites c = Some True"
    and "conflicts plan \<noteq> []"
  shows "log1 = log"
proof -
  from assms(1) obtain plan0 ctx where b: "buildPlan P options prdResult board = Inr (plan0, ctx)"
    unfolding syncWithState_def by (auto split: sum.splits)
  show ?thesis
  proof (cases "shouldSkipApply options plan0")
    case True
    then show ?thesis using assms(1) b by (simp add: syncWithState_def)
  next
    case False
    then obtain applyResult where
      "applyPlan P A options board plan0 ctx log = (Inr (applyResult, plan), log1)"
      using assms(1) b
      by (auto simp: syncWithState_def split: prod.splits sum.splits)
    then have "conflicts plan0 = conflicts plan" by (rule applyPlan_conflicts [symmetric])
    then have "shouldSkipApply options plan0"
      using assms(2-4) by (simp add: shouldSkipApply_def)
    then show ?thesis using False by simp
  qed
qed

text \<open>
  A run that is no dry run and comes back with a plan writes the state file, also when the
  conflicts of the plan blocked every other write.
\<close>

lemma blocked_run_writes_state_file:
  assumes "syncWithStateFile P now A statePath boardId options prdResult board w0
             = (Inr (plan, st), w)"
    and "dryRun options \<noteq> Some True"
    and "conflict options = Some c" "co_blockWrites c = Some True"
    and "conflicts plan \<noteq> []"
  shows "w_effects w = w_effects w0 @ [EffSaveState statePath st]
       \<and> w_files w statePath = StateJson st"
proof -
  define opts where "opts = \<lparr> load_boardId = boardId, load_prdPath = prdPath options,
                   load_mappingSignature = createMappingSignature P (mapping options) \<rparr>"
  define inc where "inc = (case incremental options of None \<Rightarrow> True | Some b \<Rightarrow> b)"
  define lw where "lw = (if inc then loadSyncState statePath opts w0 else (None, w0))"
  have lw: "w_effects (snd lw) = w_effects w0"
    unfolding lw_def using loadSyncState_keeps [of statePath opts w0] by auto
  define options1 where "options1 = options\<lparr> incremental := Some inc, state := fst lw \<rparr>"
  have o: "conflict options1 = Some c" unfolding options1_def using assms(3) by simp
  define res where "res = syncWithState P now A options1 prdResult board (w_effects (snd lw))"
  have unf: "syncWithStateFile P now A statePath boardId options prdResult board w0 =
      (case res of
         (Inl e, log) \<Rightarrow> (Inl e, (snd lw)\<lparr> w_effects := log \<rparr>)
       | (Inr (plan, snapshot), log) \<Rightarrow>
           (Inr (plan, createSyncState P now
                    \<lparr> in_boardId = boardId, in_prdPath = prdPath options,
                      in_mapping = mapping options, in_stories = snap_stories snapshot,
                      in_cards = snap_cards snapshot,
                      in_lastSeenTrelloActivity = Some (snap_lastSeenTrelloActivity snapshot),
                      in_lastRunAt = None \<rparr>),
            saveSyncState statePath (createSyncState P now
                    \<lparr> in_boardId = boardId, in_prdPath = prdPath options,
                      in_mapping = mapping options, in_stories = snap_stories snapshot,
                      in_cards = snap_cards snapshot,
                      in_lastSeenTrelloActivity = Some (snap_lastSeenTrelloActivity snapshot),
                      in_lastRunAt = None \<rparr>) ((snd lw)\<lparr> w_effects := log \<rparr>)))"
    unfolding syncWithStateFile_def Let_def res_def options1_def lw_def inc_def opts_def
    using assms(2) by (simp add: case_prod_beta split: sum.splits)
  from assms(1) obtain snapshot log where
    r: "res = (Inr (plan, snapshot), log)"
    and w: "w = saveSyncState statePath st ((snd lw)\<lparr> w_effects := log \<rparr>)"
    unfolding unf by (auto split: prod.splits sum.splits)
  have "log = w_effects (snd lw)"
    using r [unfolded res_def] o assms(4,5) by (rule syncWithState_blocked)
  then show ?thesis
    unfolding w using lw by (simp add: saveSyncState_def)
qed

subsection \<open>What is fetched for a pair\<close>

lemma decidePair_not_unchanged:
  "decidePair env i story record cardMapping storyMapping = Noop n
     \<Longrightarrow> noop_reason n \<noteq> ''Unchanged since last sync''"
  by (auto simp: decidePair_def Let_def trelloUpdate_def storyConflict_def cardConflict_def
      split: if_splits)

lemma planForId_unchanged_noop:
  assumes "planForId env i
             = Inr (Some (Noop \<lparr> noop_id = i, noop_reason = ''Unchanged since last sync'' \<rparr>))"
    and "map_of (env_prdById env) i = Some story"
    and "map_of (env_recordById env) i = Some record"
  shows "skippedAsUnchanged env story record"
proof (rule ccontr)
  assume n: "\<not> skippedAsUnchanged env story record"
  have c: "i \<notin> set (env_conflictedIds env)"
    using assms(1) by (auto simp: planForId_def split: if_splits)
  from assms(1) have "planPair env i story record
          = Inr (Noop \<lparr> noop_id = i, noop_reason = ''Unchanged since last sync'' \<rparr>)"
    using c assms(2,3)
    by (cases "planPair env i story record") (simp_all add: planForId_def)
  then obtain cm where
    "decidePair env i story record cm (pairStoryMapping env record)
       = Noop \<lparr> noop_id = i, noop_reason = ''Unchanged since last sync'' \<rparr>"
    using n unfolding planPair_def skippedAsUnchanged_def
    by (auto split: if_splits sum.splits)
  from decidePair_not_unchanged [OF this] show False by simp
qed

lemma parseCard_card: "parseCard codec c = Inr r \<Longrightarrow> card r = c"
  by (auto simp: parseCard_def split: StoryIdParseResult.splits)

lemma parsedCardRecords_mem:
  assumes "r \<in> set (parsedCardRecords codec cs)"
  shows "\<exists>c \<in> set cs. parseCard codec c = Inr r"
proof -
  from assms obtain c where c: "c \<in> set cs"
    and e: "(case parseCard codec c of Inl x \<Rightarrow> None | Inr y \<Rightarrow> Some y) = Some r"
    unfolding parsedCardRecords_def set_map_filter by auto
  from e have "parseCard codec c = Inr r" by (cases "parseCard codec c") simp_all
  with c show ?thesis by blast
qed

lemma uniqueCardRecords_mem:
  assumes "r \<in> set (uniqueCardRecords_of (groupCardRecords rs))"
  shows "r \<in> set rs"
proof -
  from assms obtain e where e: "e \<in> set (groupCardRecords rs)" and r: "r \<in> set (take 1 (snd e))"
    unfolding uniqueCardRecords_of_def by auto
  have d: "distinct (map fst (groupCardRecords rs))"
    and m: "map_of (groupCardRecords rs) (fst e) =
              (if filter (\<lambda>r. storyId r = fst e) rs = [] then None
               else Some (filter (\<lambda>r. storyId r = fst e) rs))"
    using groupCardRecords_buckets [of rs] by simp_all
  have "map_of (groupCardRecords rs) (fst e) = Some (snd e)"
    using d e by (cases e) simp
  then have "snd e = filter (\<lambda>r. storyId r = fst e) rs"
    unfolding m by (auto split: if_splits)
  moreover have "r \<in> set (snd e)" using r by (rule in_set_takeD)
  ultimately show ?thesis by auto
qed

lemma unique_record_of_card:
  assumes "r \<in> set (uniqueCardRecords_of (groupCardRecords (parsedCardRecords codec cs)))"
  shows "card r \<in> set cs \<and> parseCard codec (card r) = Inr r"
proof -
  from assms have "r \<in> set (parsedCardRecords codec cs)" by (rule uniqueCardRecords_mem)
  then obtain c where "c \<in> set cs" "parseCard codec c = Inr r"
    using parsedCardRecords_mem by blast
  then show ?thesis using parseCard_card by fastforce
qed

lemma planEnv_checklists:
  "env_checklistByCardId (planEnv P options prdResult board codec)
     = new_Map (map (\<lambda>r. (card_id (card r), getCardChecklists board (card_id (card r))))
         (checklistTargets (direction_of options) (incrementalState_of options)
            (prdById (indexStories P (stories prdResult)))
            (storyFingerprints (indexStories P (stories prdResult)))
            (uniqueCardRecords_of (groupCardRecords (parsedCardRecords codec (getCards board))))))"
  by (simp add: planEnv_def Let_def)

lemma checklists_of_pair:
  assumes "env = planEnv P options prdResult board codec"
    and "map_of (env_prdById env) i = Some story"
    and "map_of (env_recordById env) i = Some record"
    and "distinct (map card_id (getCards board))"
  shows "map_of (env_checklistByCardId env) (card_id (card record)) =
           (if skippedAsUnchanged env story record then None
            else Some (getCardChecklists board (card_id (card record))))"
proof -
  let ?uniq = "uniqueCardRecords_of (groupCardRecords (parsedCardRecords codec (getCards board)))"
  let ?targets = "checklistTargets (direction_of options) (incrementalState_of options)
                    (env_prdById env) (env_storyFingerprints env) ?uniq"
  let ?es = "map (\<lambda>r. (card_id (card r), getCardChecklists board (card_id (card r)))) ?targets"
  have cl: "env_checklistByCardId env = new_Map ?es"
    unfolding assms(1) planEnv_checklists planEnv_fields ..
  have t: "record \<in> set ?targets \<longleftrightarrow> \<not> skippedAsUnchanged env story record"
    using assms(1-3) by (rule checklistTargets_pair)
  have ru: "record \<in> set ?uniq"
    using assms(3) unfolding assms(1) by (rule recordById_SomeD(2))
  have inj: "inj_on card_id (set (getCards board))"
    using assms(4) by (simp add: distinct_map)
  show ?thesis
  proof (cases "skippedAsUnchanged env story record")
    case True
    have "card_id (card record) \<notin> fst ` set ?es"
    proof
      assume "card_id (card record) \<in> fst ` set ?es"
      then obtain r where r: "r \<in> set ?targets" "card_id (card r) = card_id (card record)"
        by auto
      from r(1) have "r \<in> set ?uniq" by (simp add: checklistTargets_def)
      then have a: "card r \<in> set (getCards board)" "parseCard codec (card r) = Inr r"
        using unique_record_of_card by blast+
      have b: "card record \<in> set (getCards board)" "parseCard codec (card record) = Inr record"
        using ru unique_record_of_card by blast+
      have eq: "card r = card record" using inj r(2) a(1) b(1) by (rule inj_onD)
      have p1: "parseCard codec (card record) = Inr r" using a(2) unfolding eq .
      have "Inr r = (Inr record :: SyncConflict + CardRecord)"
        using p1 b(2) by (rule trans [OF sym])
      then have "r = record" by (simp only: sum.inject)
      then show False using r(1) t True by simp
    qed
    then have "map_of (new_Map ?es) (card_id (card record)) = None"
      by (simp add: map_of_new_Map_None)
    then show ?thesis using True cl by simp
  next
    case False
    then have "record \<in> set ?targets" using t by simp
    then have "(card_id (card record), getCardChecklists board (card_id (card record))) \<in> set ?es"
      by force
    then have "card_id (card record) \<in> fst ` set ?es" by force
    then obtain v where v: "map_of (new_Map ?es) (card_id (card record)) = Some v"
      using map_of_new_Map_None [of ?es "card_id (card record)"] by (cases "map_of (new_Map ?es) (card_id (card record))") auto
    from map_of_new_Map_SomeD [OF v] have "v = getCardChecklists board (card_id (card record))"
      by auto
    then show ?thesis using False cl v by simp
  qed
qed

subsection \<open>Sorting lists whose members the comparator tells apart\<close>

lemma sorted_wrt_unique_on:
  assumes "consistentCompare cmp"
    and "\<forall>x \<in> set xs. \<forall>y \<in> set xs. cmp x y \<le> 0 \<longrightarrow> cmp y x \<le> 0 \<longrightarrow> x = y"
    and "sorted_wrt (\<lambda>a b. cmp a b \<le> 0) xs" "sorted_wrt (\<lambda>a b. cmp a b \<le> 0) ys"
    and "mset xs = mset ys"
  shows "xs = ys"
  using assms(2-)
proof (induction xs arbitrary: ys)
  case Nil
  then show ?case by simp
next
  case (Cons x xs)
  have refl: "\<And>a. cmp a a \<le> 0"
    using assms(1) unfolding consistentCompare_def by blast
  from Cons.prems(4) obtain y ys' where ys: "ys = y # ys'"
    by (cases ys) auto
  have sets: "set ys = set (x # xs)" using Cons.prems(4) by (metis mset_eq_setD)
  have "x \<in> set (x # xs)" by simp
  then have "x \<in> set ys" unfolding sets [symmetric] .
  then have yx: "cmp y x \<le> 0" using Cons.prems(3) refl ys by auto
  have "y \<in> set ys" using ys by simp
  then have ym: "y \<in> set (x # xs)" unfolding sets .
  then have xy: "cmp x y \<le> 0" using Cons.prems(2) refl by auto
  have "x = y" using Cons.prems(1) xy yx ym by auto
  moreover have "xs = ys'"
  proof (rule Cons.IH)
    show "\<forall>a \<in> set xs. \<forall>b \<in> set xs. cmp a b \<le> 0 \<longrightarrow> cmp b a \<le> 0 \<longrightarrow> a = b"
      using Cons.prems(1) by simp
    show "sorted_wrt (\<lambda>a b. cmp a b \<le> 0) xs" using Cons.prems(2) by simp
    show "sorted_wrt (\<lambda>a b. cmp a b \<le> 0) ys'" using Cons.prems(3) ys by simp
    show "mset xs = mset ys'" using Cons.prems(4) ys \<open>x = y\<close> by simp
  qed
  ultimately show ?case using ys by simp
qed

lemma js_sort_permutation_on:
  assumes "consistentCompare cmp"
    and "\<forall>x \<in> set xs. \<forall>y \<in> set xs. cmp x y \<le> 0 \<longrightarrow> cmp y x \<le> 0 \<longrightarrow> x = y"
    and "mset xs = mset ys"
  shows "js_sort cmp xs = js_sort cmp ys"
proof (rule sorted_wrt_unique_on [OF assms(1)])
  show "\<forall>x \<in> set (js_sort cmp xs). \<forall>y \<in> set (js_sort cmp xs).
          cmp x y \<le> 0 \<longrightarrow> cmp y x \<le> 0 \<longrightarrow> x = y"
    using assms(2) by (simp add: set_js_sort)
  show "sorted_wrt (\<lambda>a b. cmp a b \<le> 0) (js_sort cmp xs)" by (rule sorted_js_sort [OF assms(1)])
  show "sorted_wrt (\<lambda>a b. cmp a b \<le> 0) (js_sort cmp ys)" by (rule sorted_js_sort [OF assms(1)])
  show "mset (js_sort cmp xs) = mset (js_sort cmp ys)" by (simp add: mset_js_sort assms(3))
qed

lemma consistent_ignoringPlatform: "consistentCompare (localeCompare ignoringPlatform)"
proof -
  have c: "consistentCompare codeUnitCompare"
    using distinguishing_codeUnitCompare by (simp add: distinguishingCompare_def)
  have tot: "\<And>a b. codeUnitCompare a b \<le> 0 \<or> codeUnitCompare b a \<le> 0"
    and tr: "\<And>a b c. codeUnitCompare a b \<le> 0 \<Longrightarrow> codeUnitCompare b c \<le> 0
               \<Longrightarrow> codeUnitCompare a c \<le> 0"
    using c unfolding consistentCompare_def by blast+
  show ?thesis
    unfolding consistentCompare_def ignoringPlatform_def ignoringCompare_def
    using tot tr by (simp; blast)
qed

section \<open>Both sides changed: the tie of the timestamps\<close>

text \<open>
  Claim C1.  In a two-way run, take an identifier outside the duplicated ones that has a
  story and a card record, whose pair is not skipped as unchanged, and for which both
  updates are needed (\<^verbatim>\<open>needsCardUpdate\<close> and \<^verbatim>\<open>needsStoryUpdate\<close>, which include that neither
  mapping has issues).  If \<^verbatim>\<open>lastModifiedAt\<close> of the document and \<^verbatim>\<open>lastActivityAt\<close> of the card
  parse to the same time, then: with the preference \<^verbatim>\<open>none\<close> the plan has the conflict
  \<^verbatim>\<open>PRD and Trello updates conflict (equal timestamps)\<close> for the identifier and no update for
  it; with \<^verbatim>\<open>prd\<close> it has an update for the identifier, every such update targets Trello,
  and no conflict carries the identifier; with \<^verbatim>\<open>trello\<close> it has an update for the
  identifier, every such update targets the PRD, and no conflict carries the identifier.
\<close>

theorem equal_timestamps_decided_by_preference:
  assumes "buildPlan P options prdResult board = Inr (plan, ctx)"
    and "createStoryIdCodec (codecMapping (mapping options)) = Inr codec"
    and "env = planEnv P options prdResult board codec"
    and "direction_of options = Two_way"
    and "i \<notin> set (env_conflictedIds env)"
    and "map_of (env_prdById env) i = Some story"
    and "map_of (env_recordById env) i = Some record"
    and "\<not> skippedAsUnchanged env story record"
    and "pairCardMapping env story record = Inr cardMapping"
    and "needsCardUpdate env cardMapping"
    and "needsStoryUpdate env story (pairStoryMapping env record)"
    and "dateParse P (lastModifiedAt prdResult) = Some t"
    and "dateParse P (card_lastActivityAt (card record)) = Some t"
  shows "(resolveConflictPrefer (conflict options) = Prefer_none \<longrightarrow>
            (\<exists>c \<in> set (conflicts plan). conflict_id c = Some i
               \<and> conflict_reason c = ''PRD and Trello updates conflict (equal timestamps)'')
            \<and> (\<forall>u \<in> set (updates plan). update_id u \<noteq> i))
       \<and> (resolveConflictPrefer (conflict options) = Prefer_prd \<longrightarrow>
            (\<exists>u \<in> set (updates plan). update_id u = i)
            \<and> (\<forall>u \<in> set (updates plan). update_id u = i \<longrightarrow> update_target u = Trello)
            \<and> (\<forall>c \<in> set (conflicts plan). conflict_id c \<noteq> Some i))
       \<and> (resolveConflictPrefer (conflict options) = Prefer_trello \<longrightarrow>
            (\<exists>u \<in> set (updates plan). update_id u = i)
            \<and> (\<forall>u \<in> set (updates plan). update_id u = i \<longrightarrow> update_target u = Prd)
            \<and> (\<forall>c \<in> set (conflicts plan). conflict_id c \<noteq> Some i))"
proof -
  have "compareIsoTimestamps P (lastModifiedAt prdResult) (card_lastActivityAt (card record)) = 0"
    using assms(12,13) by (simp add: compareIsoTimestamps_def)
  with assms(1-11) show ?thesis by (rule tie_in_plan)
qed

theorem equal_timestamps_decided_by_preference_witness:
  "(case buildPlan refPlatform (sampleOptions Prefer_none) samplePrd sampleBoard of
      Inl _ \<Rightarrow> False
    | Inr (plan, ctx) \<Rightarrow> (\<exists>c \<in> set (conflicts plan). conflict_id c = Some ''US-001''
            \<and> conflict_reason c = ''PRD and Trello updates conflict (equal timestamps)''))"
proof -
  let ?o = "sampleOptions Prefer_none"
  let ?env = "planEnv refPlatform ?o samplePrd sampleBoard sampleCodec"
  let ?story = "sampleStory ''US-001'' ''PRD Title'' ''PRD description''"
  let ?rec = "\<lparr> card = sampleCard ''card-1'' ''[US-001] Trello Title'' ''Trello description''
                            ''2026-01-20T00:00:00Z'',
                   storyId = ''US-001'', storyTitle = ''Trello Title'' \<rparr>"
  have ok: "\<not> isl (buildPlan refPlatform ?o samplePrd sampleBoard)"
    by code_simp
  then obtain plan ctx where b: "buildPlan refPlatform ?o samplePrd sampleBoard = Inr (plan, ctx)"
    by (cases "buildPlan refPlatform ?o samplePrd sampleBoard") auto
  have c: "createStoryIdCodec (codecMapping (mapping ?o)) = Inr sampleCodec"
    by code_simp
  have d: "direction_of ?o = Two_way"
    by code_simp
  have n: "''US-001'' \<notin> set (env_conflictedIds ?env)"
    by code_simp
  have s: "map_of (env_prdById ?env) ''US-001'' = Some ?story"
    by code_simp
  have r: "map_of (env_recordById ?env) ''US-001'' = Some ?rec"
    by code_simp
  have u: "\<not> skippedAsUnchanged ?env ?story ?rec"
    by code_simp
  have "\<not> isl (pairCardMapping ?env ?story ?rec)"
    by code_simp
  then have m: "pairCardMapping ?env ?story ?rec = Inr (projr (pairCardMapping ?env ?story ?rec))"
    by simp
  have nc: "needsCardUpdate ?env (projr (pairCardMapping ?env ?story ?rec))"
    by code_simp
  have ns: "needsStoryUpdate ?env ?story (pairStoryMapping ?env ?rec)"
    by code_simp
  have p: "resolveConflictPrefer (conflict ?o) = Prefer_none"
    by code_simp
  have "dateParse refPlatform (lastModifiedAt samplePrd) \<noteq> None"
    by code_simp
  then obtain t where t1: "dateParse refPlatform (lastModifiedAt samplePrd) = Some t"
    by auto
  have "dateParse refPlatform (card_lastActivityAt (card ?rec))
          = dateParse refPlatform (lastModifiedAt samplePrd)"
    by (simp add: sampleCard_def samplePrd_def)
  then have t2: "dateParse refPlatform (card_lastActivityAt (card ?rec)) = Some t"
    using t1 by simp
  show ?thesis
    using equal_timestamps_decided_by_preference [OF b c refl d n s r u m nc ns t1 t2] p b
    by simp
qed

section \<open>Duplicated identifiers\<close>

text \<open>
  Claim C2.  If two or more stories of the document carry the identifier \<open>i\<close>, the plan has
  exactly one conflict for \<open>i\<close> with the reason \<^verbatim>\<open>Duplicate story ID in PRD stories\<close>; if two or
  more cards have a title that parses to \<open>i\<close>, the plan has exactly one conflict for \<open>i\<close>
  with the reason \<^verbatim>\<open>Duplicate story ID across Trello cards\<close>.  The conflicts of the plan that
  carry \<open>i\<close> are these and no other: one for each side on which \<open>i\<close> is duplicated.  In both
  cases \<open>i\<close> is the identifier of no create, no update and no no-op of the plan.
\<close>

theorem duplicate_identifier_conflict:
  assumes "buildPlan P options prdResult board = Inr (plan, ctx)"
    and "createStoryIdCodec (codecMapping (mapping options)) = Inr codec"
    and "2 \<le> length (storiesCarrying (stories prdResult) i)
         \<or> 2 \<le> length (cardsParsingTo codec (getCards board) i)"
  shows "(2 \<le> length (storiesCarrying (stories prdResult) i) \<longrightarrow>
            length (filter (\<lambda>c. conflict_id c = Some i
                              \<and> conflict_reason c = ''Duplicate story ID in PRD stories'')
                      (conflicts plan)) = 1)
       \<and> (2 \<le> length (cardsParsingTo codec (getCards board) i) \<longrightarrow>
            length (filter (\<lambda>c. conflict_id c = Some i
                              \<and> conflict_reason c = ''Duplicate story ID across Trello cards'')
                      (conflicts plan)) = 1)
       \<and> length (filter (\<lambda>c. conflict_id c = Some i) (conflicts plan))
           = (if 2 \<le> length (storiesCarrying (stories prdResult) i) then 1 else 0)
             + (if 2 \<le> length (cardsParsingTo codec (getCards board) i) then 1 else 0)
       \<and> i \<notin> create_id ` set (creates plan)
       \<and> i \<notin> update_id ` set (updates plan)
       \<and> i \<notin> noop_id ` set (noop plan)"
proof -
  define env where "env = planEnv P options prdResult board codec"
  have c: "i \<in> set (env_conflictedIds env)"
    unfolding env_def planEnv_fields conflicted_iff using assms(3) .
  note count = plan_conflicts_count [OF assms(1,2) env_def c, unfolded initialConflicts_count]
  have s: "length (filter (\<lambda>c. conflict_id c = Some i
                              \<and> conflict_reason c = ''Duplicate story ID in PRD stories'')
                      (conflicts plan))
             = (if 2 \<le> length (storiesCarrying (stories prdResult) i) then 1 else 0)"
    using count [of "\<lambda>r. r = ''Duplicate story ID in PRD stories''"] by simp
  have t: "length (filter (\<lambda>c. conflict_id c = Some i
                              \<and> conflict_reason c = ''Duplicate story ID across Trello cards'')
                      (conflicts plan))
             = (if 2 \<le> length (cardsParsingTo codec (getCards board) i) then 1 else 0)"
    using count [of "\<lambda>r. r = ''Duplicate story ID across Trello cards''"] by simp
  have a: "length (filter (\<lambda>c. conflict_id c = Some i) (conflicts plan))
           = (if 2 \<le> length (storiesCarrying (stories prdResult) i) then 1 else 0)
             + (if 2 \<le> length (cardsParsingTo codec (getCards board) i) then 1 else 0)"
    using count [of "\<lambda>r. True"] by simp
  note skip = plan_skips_conflicted [OF assms(1,2) env_def c]
  show ?thesis
  proof (intro conjI impI)
    assume "2 \<le> length (storiesCarrying (stories prdResult) i)"
    then show "length (filter (\<lambda>c. conflict_id c = Some i
                              \<and> conflict_reason c = ''Duplicate story ID in PRD stories'')
                      (conflicts plan)) = 1"
      using s by simp
  next
    assume "2 \<le> length (cardsParsingTo codec (getCards board) i)"
    then show "length (filter (\<lambda>c. conflict_id c = Some i
                              \<and> conflict_reason c = ''Duplicate story ID across Trello cards'')
                      (conflicts plan)) = 1"
      using t by simp
  next
    show "length (filter (\<lambda>c. conflict_id c = Some i) (conflicts plan))
           = (if 2 \<le> length (storiesCarrying (stories prdResult) i) then 1 else 0)
             + (if 2 \<le> length (cardsParsingTo codec (getCards board) i) then 1 else 0)"
      by (rule a)
  next
    show "i \<notin> create_id ` set (creates plan)" by (rule skip(1))
  next
    show "i \<notin> update_id ` set (updates plan)" by (rule skip(2))
  next
    show "i \<notin> noop_id ` set (noop plan)" by (rule skip(3))
  qed
qed

theorem duplicate_identifier_conflict_witness:
  "(case buildPlan refPlatform (sampleOptions Prefer_none) samplePrd sampleDuplicateBoard of
      Inl _ \<Rightarrow> False
    | Inr (plan, ctx) \<Rightarrow>
        length (filter (\<lambda>c. conflict_id c = Some ''US-001'') (conflicts plan)) = 1
        \<and> length (filter (\<lambda>c. conflict_id c = Some ''US-001''
                              \<and> conflict_reason c = ''Duplicate story ID across Trello cards'')
                      (conflicts plan)) = 1
        \<and> ''US-001'' \<notin> create_id ` set (creates plan)
        \<and> ''US-001'' \<notin> update_id ` set (updates plan)
        \<and> ''US-001'' \<notin> noop_id ` set (noop plan))"
proof -
  let ?o = "sampleOptions Prefer_none"
  have ok: "\<not> isl (buildPlan refPlatform ?o samplePrd sampleDuplicateBoard)"
    by code_simp
  then obtain plan ctx where
    b: "buildPlan refPlatform ?o samplePrd sampleDuplicateBoard = Inr (plan, ctx)"
    by (cases "buildPlan refPlatform ?o samplePrd sampleDuplicateBoard") auto
  have c: "createStoryIdCodec (codecMapping (mapping ?o)) = Inr sampleCodec"
    by code_simp
  have two: "2 \<le> length (cardsParsingTo sampleCodec (getCards sampleDuplicateBoard) ''US-001'')"
    by code_simp
  have one: "\<not> 2 \<le> length (storiesCarrying (stories samplePrd) ''US-001'')"
    by code_simp
  show ?thesis
    using duplicate_identifier_conflict [OF b c disjI2, OF two] two one b by simp
qed

section \<open>Pairs unchanged since the last run\<close>

text \<open>
  Claim C3.  With an incremental state, for an identifier outside the duplicated ones that
  has a story and a card record, on a board whose cards have distinct ids: the plan holds the
  no-op \<^verbatim>\<open>Unchanged since last sync\<close> for the identifier exactly when the state records for it
  the fingerprint of the story and the pair (\<^verbatim>\<open>cardId\<close>, \<^verbatim>\<open>lastActivityAt\<close>) of the card.  When
  it does, every no-op of the identifier has that reason, no create, update or conflict
  carries the identifier, and \<^verbatim>\<open>checklistByCardId\<close> has no entry for the card: its checklists
  were not fetched.  When it does not, no no-op of the identifier has that reason, and
  \<^verbatim>\<open>checklistByCardId\<close> holds what \<^verbatim>\<open>getCardChecklists\<close> returns for the card.
\<close>

theorem unchanged_pair_is_noop:
  assumes "buildPlan P options prdResult board = Inr (plan, ctx)"
    and "createStoryIdCodec (codecMapping (mapping options)) = Inr codec"
    and "env = planEnv P options prdResult board codec"
    and "incrementalState_of options = Some st"
    and "i \<notin> set (env_conflictedIds env)"
    and "map_of (env_prdById env) i = Some story"
    and "map_of (env_recordById env) i = Some record"
    and "distinct (map card_id (getCards board))"
  shows "(\<lparr> noop_id = i, noop_reason = ''Unchanged since last sync'' \<rparr> \<in> set (noop plan) \<longleftrightarrow>
            (\<exists>e. map_of (storyIndex st) i = Some e
                  \<and> fingerprint e = createStoryFingerprint P story)
          \<and> (\<exists>e. map_of (cardIndex st) i = Some e
                  \<and> entry_cardId e = card_id (card record)
                  \<and> entry_lastActivityAt e = card_lastActivityAt (card record)))
       \<and> (\<lparr> noop_id = i, noop_reason = ''Unchanged since last sync'' \<rparr> \<in> set (noop plan) \<longrightarrow>
            (\<forall>n \<in> set (noop plan). noop_id n = i
                  \<longrightarrow> noop_reason n = ''Unchanged since last sync'')
            \<and> i \<notin> create_id ` set (creates plan)
            \<and> i \<notin> update_id ` set (updates plan)
            \<and> (\<forall>c \<in> set (conflicts plan). conflict_id c \<noteq> Some i)
            \<and> map_of (env_checklistByCardId env) (card_id (card record)) = None)
       \<and> (\<lparr> noop_id = i, noop_reason = ''Unchanged since last sync'' \<rparr> \<notin> set (noop plan) \<longrightarrow>
            (\<forall>n \<in> set (noop plan). noop_id n = i
                  \<longrightarrow> noop_reason n \<noteq> ''Unchanged since last sync'')
            \<and> map_of (env_checklistByCardId env) (card_id (card record))
                = Some (getCardChecklists board (card_id (card record))))"
proof -
  let ?n = "\<lparr> noop_id = i, noop_reason = ''Unchanged since last sync'' \<rparr>"
  have rec: "skippedAsUnchanged env story record \<longleftrightarrow>
            (\<exists>e. map_of (storyIndex st) i = Some e
                  \<and> fingerprint e = createStoryFingerprint P story)
          \<and> (\<exists>e. map_of (cardIndex st) i = Some e
                  \<and> entry_cardId e = card_id (card record)
                  \<and> entry_lastActivityAt e = card_lastActivityAt (card record))"
    using assms(3-7) by (rule skipped_iff_recorded)
  have key: "i \<in> fst ` set (env_prdById env)"
    using map_of_SomeD [OF assms(6)] by force
  have fwd: "?n \<in> set (noop plan)" if sk: "skippedAsUnchanged env story record"
  proof -
    have pf: "planForId env i = Inr (Some (Noop ?n))"
      using assms(5-7) sk by (rule planForId_skipped)
    show ?thesis using plan_holds_loop_entry [OF assms(1-3) key pf] by simp
  qed
  have bwd: "skippedAsUnchanged env story record" if n: "?n \<in> set (noop plan)"
  proof -
    have "planForId env (noop_id ?n) = Inr (Some (Noop ?n))"
      using assms(1-3) n by (rule plan_noop_from_loop)
    then have "planForId env i = Inr (Some (Noop ?n))" by simp
    then show ?thesis using assms(6,7) by (rule planForId_unchanged_noop)
  qed
  have iff: "?n \<in> set (noop plan) \<longleftrightarrow> skippedAsUnchanged env story record"
    using fwd bwd by blast
  note fetched = checklists_of_pair [OF assms(3,6,7,8)]
  show ?thesis
  proof (intro conjI impI)
    show "?n \<in> set (noop plan) \<longleftrightarrow>
            (\<exists>e. map_of (storyIndex st) i = Some e
                  \<and> fingerprint e = createStoryFingerprint P story)
          \<and> (\<exists>e. map_of (cardIndex st) i = Some e
                  \<and> entry_cardId e = card_id (card record)
                  \<and> entry_lastActivityAt e = card_lastActivityAt (card record))"
      unfolding iff by (rule rec)
  next
    assume "?n \<notin> set (noop plan)"
    then have ns: "\<not> skippedAsUnchanged env story record" using iff by simp
    show "\<forall>n \<in> set (noop plan). noop_id n = i
                  \<longrightarrow> noop_reason n \<noteq> ''Unchanged since last sync''"
    proof (intro ballI impI notI)
      fix n assume m: "n \<in> set (noop plan)" and e: "noop_id n = i"
        "noop_reason n = ''Unchanged since last sync''"
      have "n = ?n" using e by (cases n) simp
      then have "?n \<in> set (noop plan)" using m by simp
      then show False using \<open>?n \<notin> set (noop plan)\<close> by simp
    qed
    show "map_of (env_checklistByCardId env) (card_id (card record))
                = Some (getCardChecklists board (card_id (card record)))"
      using fetched ns by simp
  next
    assume n: "?n \<in> set (noop plan)"
    then have sk: "skippedAsUnchanged env story record" using iff by simp
    have pf: "planForId env i = Inr (Some (Noop ?n))"
      using assms(5-7) sk by (rule planForId_skipped)
    show "\<forall>n \<in> set (noop plan). noop_id n = i
             \<longrightarrow> noop_reason n = ''Unchanged since last sync''"
    proof (intro ballI impI)
      fix n assume "n \<in> set (noop plan)" "noop_id n = i"
      then have "planForId env i = Inr (Some (Noop n))"
        using plan_noop_from_loop [OF assms(1-3)] by blast
      then have "n = ?n" using pf by simp
      then show "noop_reason n = ''Unchanged since last sync''" by simp
    qed
    show "i \<notin> create_id ` set (creates plan)"
    proof
      assume "i \<in> create_id ` set (creates plan)"
      then obtain c where c: "c \<in> set (creates plan)" "create_id c = i" by auto
      from plan_create_from_loop [OF assms(1-3) c(1)] c(2) pf show False by simp
    qed
    show "i \<notin> update_id ` set (updates plan)"
    proof
      assume "i \<in> update_id ` set (updates plan)"
      then obtain c where c: "c \<in> set (updates plan)" "update_id c = i" by auto
      from plan_update_from_loop [OF assms(1-3) c(1)] c(2) pf show False by simp
    qed
    show "\<forall>c \<in> set (conflicts plan). conflict_id c \<noteq> Some i"
    proof (intro ballI notI)
      fix c assume "c \<in> set (conflicts plan)" "conflict_id c = Some i"
      from plan_conflict_from_loop [OF assms(1-3) assms(5) this] pf show False by simp
    qed
    show "map_of (env_checklistByCardId env) (card_id (card record)) = None"
      using fetched sk by simp
  qed
qed

theorem unchanged_pair_is_noop_witness:
  "(case buildPlan refPlatform sampleIncrementalOptions samplePrd sampleBoard of
      Inl _ \<Rightarrow> False
    | Inr (plan, ctx) \<Rightarrow>
        \<lparr> noop_id = ''US-001'', noop_reason = ''Unchanged since last sync'' \<rparr> \<in> set (noop plan)
        \<and> ''US-001'' \<notin> update_id ` set (updates plan)
        \<and> \<lparr> noop_id = ''US-002'', noop_reason = ''Unchanged since last sync'' \<rparr> \<notin> set (noop plan))
   \<and> map_of (env_checklistByCardId
               (planEnv refPlatform sampleIncrementalOptions samplePrd sampleBoard sampleCodec))
        ''card-1'' = None
   \<and> map_of (env_checklistByCardId
               (planEnv refPlatform sampleIncrementalOptions samplePrd sampleBoard sampleCodec))
        ''card-2'' = Some (getCardChecklists sampleBoard ''card-2'')"
proof -
  let ?o = "sampleIncrementalOptions"
  let ?env = "planEnv refPlatform ?o samplePrd sampleBoard sampleCodec"
  let ?story = "sampleStory ''US-001'' ''PRD Title'' ''PRD description''"
  let ?rec = "\<lparr> card = sampleCard ''card-1'' ''[US-001] Trello Title'' ''Trello description''
                            ''2026-01-20T00:00:00Z'',
                storyId = ''US-001'', storyTitle = ''Trello Title'' \<rparr>"
  let ?story2 = "sampleStory ''US-002'' ''PRD Two'' ''PRD two description''"
  let ?rec2 = "\<lparr> card = sampleCard ''card-2'' ''[US-002] Old Title'' ''Old description''
                            ''2026-01-19T00:00:00Z'',
                storyId = ''US-002'', storyTitle = ''Old Title'' \<rparr>"
  have ok: "\<not> isl (buildPlan refPlatform ?o samplePrd sampleBoard)"
    by code_simp
  then obtain plan ctx where b: "buildPlan refPlatform ?o samplePrd sampleBoard = Inr (plan, ctx)"
    by (cases "buildPlan refPlatform ?o samplePrd sampleBoard") auto
  have c: "createStoryIdCodec (codecMapping (mapping ?o)) = Inr sampleCodec"
    by code_simp
  have st: "incrementalState_of ?o = Some sampleState"
    by (simp add: incrementalState_of_def sampleIncrementalOptions_def sampleOptions_def)
  have d: "distinct (map card_id (getCards sampleBoard))"
    by (simp add: sampleBoard_def sampleCard_def)
  have n: "''US-001'' \<notin> set (env_conflictedIds ?env)"
    by code_simp
  have s: "map_of (env_prdById ?env) ''US-001'' = Some ?story"
    by code_simp
  have r: "map_of (env_recordById ?env) ''US-001'' = Some ?rec"
    by code_simp
  have f: "map_of (storyIndex sampleState) ''US-001''
             = Some \<lparr> fingerprint = createStoryFingerprint refPlatform ?story \<rparr>"
    by code_simp
  have a: "map_of (cardIndex sampleState) ''US-001''
             = Some \<lparr> entry_cardId = ''card-1'', entry_lastActivityAt = ''2026-01-20T00:00:00Z'' \<rparr>"
    by code_simp
  have n2: "''US-002'' \<notin> set (env_conflictedIds ?env)"
    by code_simp
  have s2: "map_of (env_prdById ?env) ''US-002'' = Some ?story2"
    by code_simp
  have r2: "map_of (env_recordById ?env) ''US-002'' = Some ?rec2"
    by code_simp
  have a2: "map_of (cardIndex sampleState) ''US-002''
             = Some \<lparr> entry_cardId = ''card-2'', entry_lastActivityAt = ''2026-01-18T00:00:00Z'' \<rparr>"
    by code_simp
  note facts = unchanged_pair_is_noop [OF b c refl st n s r d]
  note facts2 = unchanged_pair_is_noop [OF b c refl st n2 s2 r2 d]
  have one: "\<lparr> noop_id = ''US-001'', noop_reason = ''Unchanged since last sync'' \<rparr> \<in> set (noop plan)"
    using facts f a by (simp add: sampleCard_def)
  have two: "\<lparr> noop_id = ''US-002'', noop_reason = ''Unchanged since last sync'' \<rparr> \<notin> set (noop plan)"
    using facts2 a2 by (simp add: sampleCard_def)
  have "''US-001'' \<notin> update_id ` set (updates plan)"
    using facts one by blast
  moreover have "map_of (env_checklistByCardId ?env) ''card-1'' = None"
    using facts one by (simp add: sampleCard_def)
  moreover have "map_of (env_checklistByCardId ?env) ''card-2''
                   = Some (getCardChecklists sampleBoard ''card-2'')"
    using facts2 two by (simp add: sampleCard_def)
  ultimately show ?thesis
    using one two b by simp
qed

section \<open>Formatting and parsing a card title\<close>




section \<open>The three failures of parseCardTitle\<close>

text \<open>
  Claim C5.  A card title that contains no substring of the identifier grammar parses to
  \<^verbatim>\<open>missing\<close> with no matches; one in which the scan finds more than one identifier parses
  to \<^verbatim>\<open>ambiguous\<close> with all the matches; one in which the scan finds exactly one identifier
  but which the card-title expression does not match parses to \<^verbatim>\<open>missing\<close>.  The scan finds
  nothing exactly when the title contains no substring of the grammar, and everything it
  finds is such a substring.
\<close>

theorem parseCardTitle_cases:
  "(\<not> containsId codec s \<longrightarrow>
      parseCardTitle codec s = ParseMissing ''No story ID found in card title'' [] s)
   \<and> (1 < length (id_matches codec s) \<longrightarrow>
      parseCardTitle codec s
        = ParseAmbiguous ''Multiple story IDs found in card title'' (id_matches codec s) s)
   \<and> (length (id_matches codec s) = 1
        \<and> title_exec (ips_regex (codec_idPattern codec)) (cts_regex (codec_cardTitleSpec codec)) s
            = None \<longrightarrow>
      parseCardTitle codec s
        = ParseMissing ''Story ID not in canonical card title format'' (id_matches codec s) s)
   \<and> (id_matches codec s = [] \<longleftrightarrow> \<not> containsId codec s)
   \<and> (\<forall>x \<in> set (id_matches codec s).
        x \<in> id_lang (ips_regex (codec_idPattern codec)) \<and> (\<exists>u w. s = u @ x @ w))"
proof (intro conjI impI ballI)
  assume "\<not> containsId codec s"
  then have "id_matches codec s = []" by (simp add: id_matches_empty)
  then show "parseCardTitle codec s = ParseMissing ''No story ID found in card title'' [] s"
    by (simp add: parseCardTitle_def)
next
  assume "1 < length (id_matches codec s)"
  then show "parseCardTitle codec s
        = ParseAmbiguous ''Multiple story IDs found in card title'' (id_matches codec s) s"
    by (auto simp add: parseCardTitle_def Let_def)
next
  assume "length (id_matches codec s) = 1
        \<and> title_exec (ips_regex (codec_idPattern codec)) (cts_regex (codec_cardTitleSpec codec)) s
            = None"
  then show "parseCardTitle codec s
        = ParseMissing ''Story ID not in canonical card title format'' (id_matches codec s) s"
    by (auto simp add: parseCardTitle_def Let_def)
next
  show "id_matches codec s = [] \<longleftrightarrow> \<not> containsId codec s" by (rule id_matches_empty)
next
  fix x assume x: "x \<in> set (id_matches codec s)"
  show "x \<in> id_lang (ips_regex (codec_idPattern codec))"
    using id_matches_elem [OF x] by simp
  show "\<exists>u w. s = u @ x @ w"
    using id_matches_elem [OF x] by simp
qed

theorem parseCardTitle_cases_witness:
  "\<not> containsId sampleCodec ''Title only''
   \<and> parseCardTitle sampleCodec ''Title only''
       = ParseMissing ''No story ID found in card title'' [] ''Title only''
   \<and> parseCardTitle sampleCodec ''[US-001] Title with US-002''
       = ParseAmbiguous ''Multiple story IDs found in card title'' [''US-001'', ''US-002'']
           ''[US-001] Title with US-002''
   \<and> parseCardTitle sampleCodec ''US-001 Title''
       = ParseMissing ''Story ID not in canonical card title format'' [''US-001'']
           ''US-001 Title''"
proof -
  have m0: "id_matches sampleCodec ''Title only'' = []" by code_simp
  have m2: "id_matches sampleCodec ''[US-001] Title with US-002'' = [''US-001'', ''US-002'']"
    by code_simp
  have m1: "id_matches sampleCodec ''US-001 Title'' = [''US-001'']" by code_simp
  have t1: "title_exec (ips_regex (codec_idPattern sampleCodec))
              (cts_regex (codec_cardTitleSpec sampleCodec)) ''US-001 Title'' = None"
    by code_simp
  note a = parseCardTitle_cases [of sampleCodec "''Title only''"]
  note b = parseCardTitle_cases [of sampleCodec "''[US-001] Title with US-002''"]
  note c = parseCardTitle_cases [of sampleCodec "''US-001 Title''"]
  have n0: "\<not> containsId sampleCodec ''Title only''" using a m0 by blast
  have r0: "parseCardTitle sampleCodec ''Title only''
       = ParseMissing ''No story ID found in card title'' [] ''Title only''"
    using a n0 by blast
  have r2: "parseCardTitle sampleCodec ''[US-001] Title with US-002''
       = ParseAmbiguous ''Multiple story IDs found in card title''
           (id_matches sampleCodec ''[US-001] Title with US-002'') ''[US-001] Title with US-002''"
    using b m2 by simp
  have r1: "parseCardTitle sampleCodec ''US-001 Title''
       = ParseMissing ''Story ID not in canonical card title format''
           (id_matches sampleCodec ''US-001 Title'') ''US-001 Title''"
    using c m1 t1 by simp
  show ?thesis using n0 r0 r2 r1 unfolding m2 m1 by (intro conjI)
qed

section \<open>The mapping from statuses to lists\<close>

text \<open>
  Claim C6.  For a status \<open>s\<close> bound to the list name \<open>n\<close>: the list the mapping chooses has
  the name \<open>n\<close> and is open whenever an open list of that name exists; if several open
  lists have the name, the chosen id is least among theirs in the order of
  \<^verbatim>\<open>localeCompare\<close> and the issue \<^verbatim>\<open>Multiple Trello lists found\<close> is recorded; if no list has
  the name, nothing is mapped and the issue \<^verbatim>\<open>No Trello list found\<close> is recorded; every
  recorded issue is a conflict of the plan.  Whenever some list has the name, open or
  archived, the status is mapped, and the chosen id is least in the order of
  \<^verbatim>\<open>localeCompare\<close> among the open lists of the name, or among all lists of the name when
  none of them is open.
\<close>

theorem createStatusMapping_policy:
  assumes "consistentCompare (localeCompare P)"
    and "r = createStatusMapping P (getLists board) (statusToList (mapping options))"
    and "n = boundListName (statusToList (mapping options)) s"
  shows "(\<forall>i. map_of (statusToListId r) s = Some i \<longrightarrow>
            (\<exists>l \<in> set (getLists board). list_id l = i \<and> list_name l = n \<and>
               ((\<exists>l' \<in> set (getLists board). list_name l' = n \<and> \<not> list_closed l')
                  \<longrightarrow> \<not> list_closed l)))
       \<and> (1 < length (filter (\<lambda>l. list_name l = n \<and> \<not> list_closed l) (getLists board)) \<longrightarrow>
            (\<exists>i. map_of (statusToListId r) s = Some i \<and>
               (\<forall>l' \<in> set (getLists board). list_name l' = n \<and> \<not> list_closed l'
                  \<longrightarrow> localeCompare P i (list_id l') \<le> 0))
            \<and> ambiguousListIssue s n \<in> set (sm_issues r))
       \<and> ((\<forall>l \<in> set (getLists board). list_name l \<noteq> n) \<longrightarrow>
            map_of (statusToListId r) s = None \<and> missingListIssue s n \<in> set (sm_issues r))
       \<and> (buildPlan P options prdResult board = Inr (plan, ctx) \<longrightarrow>
            (\<forall>issue \<in> set (sm_issues r). issueConflict issue \<in> set (conflicts plan)))
       \<and> ((\<exists>l \<in> set (getLists board). list_name l = n) \<longrightarrow>
            (\<exists>i. map_of (statusToListId r) s = Some i))
       \<and> (\<forall>i. map_of (statusToListId r) s = Some i \<longrightarrow>
            (\<forall>l' \<in> set (getLists board).
               list_name l' = n
               \<and> (\<not> list_closed l'
                    \<or> (\<forall>l'' \<in> set (getLists board). list_name l'' = n \<longrightarrow> list_closed l''))
               \<longrightarrow> localeCompare P i (list_id l') \<le> 0))"
proof (intro conjI allI impI ballI)
  let ?ls = "getLists board"
  let ?m = "statusMatches ?ls n"
  have lookup: "map_of (statusToListId r) s =
      (if ?m = [] then None else Some (hd (sortStrings P (map list_id ?m))))"
    unfolding assms(2) assms(3) by (rule createStatusMapping_lookup)
  {
    fix i assume "map_of (statusToListId r) s = Some i"
    then have ne: "?m \<noteq> []" and i: "i = hd (sortStrings P (map list_id ?m))"
      using lookup by (auto split: if_splits)
    have "i \<in> list_id ` set ?m"
      using hd_js_sort_mem [of "map list_id ?m" "localeCompare P"] ne i
      by (simp add: sortStrings_def)
    then obtain l where l: "l \<in> set ?m" "list_id l = i" by auto
    then show "\<exists>l \<in> set ?ls. list_id l = i \<and> list_name l = n \<and>
               ((\<exists>l' \<in> set ?ls. list_name l' = n \<and> \<not> list_closed l') \<longrightarrow> \<not> list_closed l)"
      unfolding statusMatches_set by (auto split: if_splits)
  }
  {
    assume several: "1 < length (filter (\<lambda>l. list_name l = n \<and> \<not> list_closed l) ?ls)"
    then have ne: "filter (\<lambda>l. list_name l = n \<and> \<not> list_closed l) ?ls \<noteq> []" by auto
    have m: "?m = filter (\<lambda>l. list_name l = n \<and> \<not> list_closed l) ?ls"
      by (rule statusMatches_open [OF ne])
    have "map_of (statusToListId r) s = Some (hd (sortStrings P (map list_id ?m)))"
      using lookup ne m by simp
    moreover have "\<forall>l' \<in> set ?ls. list_name l' = n \<and> \<not> list_closed l'
          \<longrightarrow> localeCompare P (hd (sortStrings P (map list_id ?m))) (list_id l') \<le> 0"
    proof (intro ballI impI)
      fix l' assume "l' \<in> set ?ls" "list_name l' = n \<and> \<not> list_closed l'"
      then have "list_id l' \<in> set (map list_id ?m)" unfolding m by auto
      then show "localeCompare P (hd (sortStrings P (map list_id ?m))) (list_id l') \<le> 0"
        unfolding sortStrings_def by (rule hd_js_sort_least [OF assms(1)])
    qed
    ultimately show "\<exists>i. map_of (statusToListId r) s = Some i \<and>
               (\<forall>l' \<in> set ?ls. list_name l' = n \<and> \<not> list_closed l'
                  \<longrightarrow> localeCompare P i (list_id l') \<le> 0)"
      by blast
    show "ambiguousListIssue s n \<in> set (sm_issues r)"
      unfolding assms(2) assms(3)
      by (rule issue_mem_ambiguous) (use several m assms(3) in simp)
  }
  {
    assume none: "\<forall>l \<in> set ?ls. list_name l \<noteq> n"
    then have e: "?m = []" by (simp add: statusMatches_empty)
    then show "map_of (statusToListId r) s = None" using lookup by simp
    show "missingListIssue s n \<in> set (sm_issues r)"
      unfolding assms(2) assms(3)
      by (rule issue_mem_missing) (use e assms(3) in simp)
  }
  {
    assume "\<exists>l \<in> set ?ls. list_name l = n"
    then have "?m \<noteq> []" by (simp add: statusMatches_empty)
    then show "\<exists>i. map_of (statusToListId r) s = Some i" using lookup by simp
  }
  {
    fix i l'
    assume i: "map_of (statusToListId r) s = Some i" and l': "l' \<in> set ?ls"
      and c: "list_name l' = n
               \<and> (\<not> list_closed l'
                    \<or> (\<forall>l'' \<in> set ?ls. list_name l'' = n \<longrightarrow> list_closed l''))"
    from i have e: "i = hd (sortStrings P (map list_id ?m))"
      using lookup by (auto split: if_splits)
    have "l' \<in> set ?m" unfolding statusMatches_set using l' c by auto
    then have "list_id l' \<in> set (map list_id ?m)" by simp
    then show "localeCompare P i (list_id l') \<le> 0"
      unfolding e sortStrings_def by (rule hd_js_sort_least [OF assms(1)])
  }
  {
    fix issue
    assume b: "buildPlan P options prdResult board = Inr (plan, ctx)"
      and i: "issue \<in> set (sm_issues r)"
    from b obtain codec where c: "createStoryIdCodec (codecMapping (mapping options)) = Inr codec"
      by (rule buildPlan_Inr)
    have "issueConflict issue \<in> set (initialConflicts r (indexStories P (stories prdResult)) codec (getCards board))"
      using i by (auto simp: initialConflicts_def issueConflict_def)
    then show "issueConflict issue \<in> set (conflicts plan)"
      using initial_conflicts_kept [OF b c] assms(2) by blast
  }
qed

theorem createStatusMapping_policy_witness:
  "consistentCompare (localeCompare refPlatform)
   \<and> map_of (statusToListId (createStatusMapping refPlatform (getLists sampleAmbiguousBoard)
                 (statusToList (mapping (sampleOptions Prefer_none))))) Status_open
       = Some ''list-a''
   \<and> ambiguousListIssue Status_open ''To Do''
       \<in> set (sm_issues (createStatusMapping refPlatform (getLists sampleAmbiguousBoard)
                 (statusToList (mapping (sampleOptions Prefer_none)))))
   \<and> map_of (statusToListId (createStatusMapping refPlatform (getLists sampleAmbiguousBoard)
                 (statusToList (mapping (sampleOptions Prefer_none))))) Status_in_progress
       = None
   \<and> (case buildPlan refPlatform (sampleOptions Prefer_none) samplePrd sampleAmbiguousBoard of
         Inl _ \<Rightarrow> False
       | Inr (plan, ctx) \<Rightarrow>
           issueConflict (missingListIssue Status_in_progress ''In Progress'')
             \<in> set (conflicts plan))
   \<and> map_of (statusToListId (createStatusMapping refPlatform (getLists sampleAmbiguousBoard)
                 (statusToList (mapping (sampleOptions Prefer_none))))) Status_done
       = Some ''list-done''"
proof -
  let ?r = "createStatusMapping refPlatform (getLists sampleAmbiguousBoard)
              (statusToList (mapping (sampleOptions Prefer_none)))"
  have n_open: "''To Do'' = boundListName (statusToList (mapping (sampleOptions Prefer_none))) Status_open"
    and n_prog: "''In Progress''
        = boundListName (statusToList (mapping (sampleOptions Prefer_none))) Status_in_progress"
    by (simp_all add: sampleOptions_def sampleMapping_def)
  have several: "1 < length (filter (\<lambda>l. list_name l = ''To Do'' \<and> \<not> list_closed l)
                       (getLists sampleAmbiguousBoard))"
    by (simp add: sampleAmbiguousBoard_def)
  have none: "\<forall>l \<in> set (getLists sampleAmbiguousBoard). list_name l \<noteq> ''In Progress''"
    by (simp add: sampleAmbiguousBoard_def)
  have chosen: "map_of (statusToListId ?r) Status_open = Some ''list-a''"
    by code_simp
  have ok: "\<not> isl (buildPlan refPlatform (sampleOptions Prefer_none) samplePrd sampleAmbiguousBoard)"
    by code_simp
  then obtain plan ctx where
    b: "buildPlan refPlatform (sampleOptions Prefer_none) samplePrd sampleAmbiguousBoard
          = Inr (plan, ctx)"
    by (cases "buildPlan refPlatform (sampleOptions Prefer_none) samplePrd sampleAmbiguousBoard")
       auto
  note open_facts = createStatusMapping_policy [OF consistent_refPlatform refl n_open,
      of sampleAmbiguousBoard samplePrd plan ctx]
  note prog_facts = createStatusMapping_policy [OF consistent_refPlatform refl n_prog,
      of sampleAmbiguousBoard samplePrd plan ctx]
  have amb: "ambiguousListIssue Status_open ''To Do'' \<in> set (sm_issues ?r)"
    using open_facts several by blast
  have miss: "map_of (statusToListId ?r) Status_in_progress = None"
    "missingListIssue Status_in_progress ''In Progress'' \<in> set (sm_issues ?r)"
    using prog_facts none by blast+
  have "issueConflict (missingListIssue Status_in_progress ''In Progress'') \<in> set (conflicts plan)"
    using prog_facts b miss(2) by blast
  moreover have "map_of (statusToListId ?r) Status_done = Some ''list-done''"
  proof -
    have n_done: "''Done'' = boundListName (statusToList (mapping (sampleOptions Prefer_none))) Status_done"
      by (simp add: sampleOptions_def sampleMapping_def)
    note done_facts = createStatusMapping_policy [OF consistent_refPlatform refl n_done,
        of sampleAmbiguousBoard samplePrd plan ctx]
    have "\<exists>l \<in> set (getLists sampleAmbiguousBoard). list_name l = ''Done''"
      by (simp add: sampleAmbiguousBoard_def)
    then obtain i where i: "map_of (statusToListId ?r) Status_done = Some i"
      using done_facts by blast
    then have "\<exists>l \<in> set (getLists sampleAmbiguousBoard). list_id l = i \<and> list_name l = ''Done''"
      using done_facts by blast
    then have "i = ''list-done''" by (auto simp: sampleAmbiguousBoard_def)
    then show ?thesis using i by simp
  qed
  ultimately show ?thesis
    using consistent_refPlatform chosen amb miss(1) b by simp
qed

section \<open>The label set of a card update\<close>

text \<open>
  Claim C7, as amended.  The label ids \<^verbatim>\<open>resolveLabelIds\<close> computes for a card are, as a
  set, the card's label ids that have no name or an empty name in the label table or whose
  name does not start with the dependency prefix, together with the non-empty label ids
  registered under the prefix followed by a dependency of the story; the list is sorted by
  \<^verbatim>\<open>localeCompare\<close>.  The missing-labels list holds, sorted, the label names (prefix
  followed by the dependency) that have no or an empty id in the table.
\<close>

theorem resolveLabelIds_label_set:
  assumes "consistentCompare (localeCompare P)"
    and "r = resolveLabelIds P story mp n2i i2n (Some c)"
  shows "set (labelIds r) =
           {i \<in> set (card_labelIds c).
              \<forall>n. map_of i2n i = Some n \<longrightarrow> n = [] \<or> \<not> startsWith n (dependsOnLabelPrefix mp)}
           \<union> {i. i \<noteq> [] \<and> (\<exists>d \<in> set (story_dependsOn story).
                     map_of n2i (dependsOnLabelPrefix mp @ d) = Some i)}
       \<and> sorted_wrt (\<lambda>a b. localeCompare P a b \<le> 0) (labelIds r)
       \<and> set (missingLabels r) =
           {dependsOnLabelPrefix mp @ d | d. d \<in> set (story_dependsOn story) \<and>
              (map_of n2i (dependsOnLabelPrefix mp @ d) = None \<or>
               map_of n2i (dependsOnLabelPrefix mp @ d) = Some [])}
       \<and> sorted_wrt (\<lambda>a b. localeCompare P a b \<le> 0) (missingLabels r)"
  unfolding assms(2) by (intro conjI resolveLabelIds_merged_set [OF assms(1)])

theorem resolveLabelIds_label_set_witness:
  "consistentCompare (localeCompare refPlatform)
   \<and> labelIds (resolveLabelIds refPlatform
        ((sampleStory ''US-007'' ''T'' ''D'')\<lparr> story_dependsOn := [''US-001'', ''US-002'', ''US-003''] \<rparr>)
        sampleMapping sampleLabelNameToId sampleLabelIdToName
        (Some ((sampleCard ''card-7'' ''[US-007] T'' ''D'' ''2026-01-20T00:00:00Z'')
                 \<lparr> card_labelIds := [''label-keep'', ''label-old-dep''] \<rparr>)))
       = [''label-001'', ''label-002'', ''label-keep'']
   \<and> set [''label-001'', ''label-002'', ''label-keep''] =
        {i \<in> set [''label-keep'', ''label-old-dep''].
           \<forall>n. map_of sampleLabelIdToName i = Some n \<longrightarrow> n = [] \<or> \<not> startsWith n ''s:''}
        \<union> {i. i \<noteq> [] \<and> (\<exists>d \<in> set [''US-001'', ''US-002'', ''US-003''].
                  map_of sampleLabelNameToId (''s:'' @ d) = Some i)}"
proof -
  let ?story = "(sampleStory ''US-007'' ''T'' ''D'')\<lparr> story_dependsOn := [''US-001'', ''US-002'', ''US-003''] \<rparr>"
  let ?card = "(sampleCard ''card-7'' ''[US-007] T'' ''D'' ''2026-01-20T00:00:00Z'')
                 \<lparr> card_labelIds := [''label-keep'', ''label-old-dep''] \<rparr>"
  have ev: "labelIds (resolveLabelIds refPlatform ?story sampleMapping sampleLabelNameToId
              sampleLabelIdToName (Some ?card)) = [''label-001'', ''label-002'', ''label-keep'']"
    by code_simp
  have pre: "story_dependsOn ?story = [''US-001'', ''US-002'', ''US-003'']"
    "card_labelIds ?card = [''label-keep'', ''label-old-dep'']"
    "dependsOnLabelPrefix sampleMapping = ''s:''"
    by (simp_all add: sampleStory_def sampleCard_def sampleMapping_def)
  from resolveLabelIds_label_set [OF consistent_refPlatform refl,
      of ?story sampleMapping sampleLabelNameToId sampleLabelIdToName ?card]
  have "set (labelIds (resolveLabelIds refPlatform ?story sampleMapping sampleLabelNameToId
              sampleLabelIdToName (Some ?card))) =
        {i \<in> set (card_labelIds ?card).
           \<forall>n. map_of sampleLabelIdToName i = Some n \<longrightarrow>
                 n = [] \<or> \<not> startsWith n (dependsOnLabelPrefix sampleMapping)}
        \<union> {i. i \<noteq> [] \<and> (\<exists>d \<in> set (story_dependsOn ?story).
                  map_of sampleLabelNameToId (dependsOnLabelPrefix sampleMapping @ d) = Some i)}"
    by (rule conjunct1)
  then have "set [''label-001'', ''label-002'', ''label-keep''] =
        {i \<in> set [''label-keep'', ''label-old-dep''].
           \<forall>n. map_of sampleLabelIdToName i = Some n \<longrightarrow> n = [] \<or> \<not> startsWith n ''s:''}
        \<union> {i. i \<noteq> [] \<and> (\<exists>d \<in> set [''US-001'', ''US-002'', ''US-003''].
                  map_of sampleLabelNameToId (''s:'' @ d) = Some i)}"
    unfolding ev pre .
  then show ?thesis
    using ev consistent_refPlatform by (intro conjI)
qed

text \<open>
  The claim as it is worded fails: with the default (empty) dependency prefix a label
  without a name stays on the card, although every name starts with the empty prefix.
\<close>

theorem resolveLabelIds_keeps_unnamed_label:
  "labelIds (resolveLabelIds refPlatform (sampleStory ''US-007'' ''T'' ''D'')
      (sampleMapping\<lparr> dependsOnLabelPrefix := [] \<rparr>) [([], ''label-1'')] [(''label-1'', [])]
      (Some ((sampleCard ''card-7'' ''[US-007] T'' ''D'' ''2026-01-20T00:00:00Z'')
               \<lparr> card_labelIds := [''label-1''] \<rparr>)))
     = [''label-1'']
   \<and> claimedLabelSet (sampleMapping\<lparr> dependsOnLabelPrefix := [] \<rparr>) [([], ''label-1'')]
        [(''label-1'', [])] (sampleStory ''US-007'' ''T'' ''D'')
        ((sampleCard ''card-7'' ''[US-007] T'' ''D'' ''2026-01-20T00:00:00Z'')
               \<lparr> card_labelIds := [''label-1''] \<rparr>) = {}"
proof
  show "labelIds (resolveLabelIds refPlatform (sampleStory ''US-007'' ''T'' ''D'')
      (sampleMapping\<lparr> dependsOnLabelPrefix := [] \<rparr>) [([], ''label-1'')] [(''label-1'', [])]
      (Some ((sampleCard ''card-7'' ''[US-007] T'' ''D'' ''2026-01-20T00:00:00Z'')
               \<lparr> card_labelIds := [''label-1''] \<rparr>)))
     = [''label-1'']"
    by code_simp
  show "claimedLabelSet (sampleMapping\<lparr> dependsOnLabelPrefix := [] \<rparr>) [([], ''label-1'')]
        [(''label-1'', [])] (sampleStory ''US-007'' ''T'' ''D'')
        ((sampleCard ''card-7'' ''[US-007] T'' ''D'' ''2026-01-20T00:00:00Z'')
               \<lparr> card_labelIds := [''label-1''] \<rparr>) = {}"
    by (simp add: claimedLabelSet_def sampleStory_def sampleCard_def sampleMapping_def startsWith_def)
qed

section \<open>The state file of a run whose writes are blocked\<close>

text \<open>
  Claim C8.  The claim says that \<open>syncWithStateFile\<close> writes the state file only after the
  plan was applied, and not on a dry run nor on a run whose writes are suppressed.  A dry
  run writes nothing (\<open>dry_run_keeps_state_file\<close>).  A run whose writes are suppressed by
  \<^verbatim>\<open>blockWrites\<close> does write the state file: on the two stories and two cards of the test
  \<^verbatim>\<open>blocks writes when conflicts exist\<close> the plan has the conflict of \<^verbatim>\<open>US-001\<close>, the only write
  request of the run is the one that saves the state, and the file holds that state
  afterwards.  The next run reads it and finds both pairs unchanged: its plan has no
  conflict, no update and no create, although nothing was applied in between.
\<close>

theorem state_saved_though_writes_blocked:
  "(case sampleBlockedRun of
      (Inl _, _) \<Rightarrow> False
    | (Inr (plan, st), w) \<Rightarrow>
        dryRun (sampleOptions Prefer_none) \<noteq> Some True
        \<and> shouldSkipApply (sampleOptions Prefer_none) plan
        \<and> map conflict_id (conflicts plan) = [Some ''US-001'']
        \<and> w_effects w = [EffSaveState ''state.json'' st]
        \<and> w_files w ''state.json'' = StateJson st)
   \<and> (case sampleSecondRun of
        (Inl _, _) \<Rightarrow> False
      | (Inr (plan, st), w) \<Rightarrow>
          conflicts plan = [] \<and> updates plan = [] \<and> creates plan = []
          \<and> map noop_reason (noop plan)
              = [''Unchanged since last sync'', ''Unchanged since last sync''])"
proof (rule conjI)
  show "case sampleBlockedRun of
      (Inl _, _) \<Rightarrow> False
    | (Inr (plan, st), w) \<Rightarrow>
        dryRun (sampleOptions Prefer_none) \<noteq> Some True
        \<and> shouldSkipApply (sampleOptions Prefer_none) plan
        \<and> map conflict_id (conflicts plan) = [Some ''US-001'']
        \<and> w_effects w = [EffSaveState ''state.json'' st]
        \<and> w_files w ''state.json'' = StateJson st"
    by code_simp
  show "case sampleSecondRun of
        (Inl _, _) \<Rightarrow> False
      | (Inr (plan, st), w) \<Rightarrow>
          conflicts plan = [] \<and> updates plan = [] \<and> creates plan = []
          \<and> map noop_reason (noop plan)
              = [''Unchanged since last sync'', ''Unchanged since last sync'']"
    by code_simp
qed

section \<open>Fingerprints and the order of the dependencies\<close>

text \<open>
  Claim C9, as amended.  On a platform whose \<^verbatim>\<open>localeCompare\<close> is a consistent comparison, two
  stories that agree on identifier, title, status, description and acceptance criteria and
  whose \<open>dependsOn\<close> lists are permutations of each other have the same fingerprint, provided
  \<^verbatim>\<open>localeCompare\<close> places one of any two distinct identifiers of the list before the other.
  Without the proviso the fingerprint depends on the order: the sort is stable, so two
  distinct identifiers that \<^verbatim>\<open>localeCompare\<close> takes for equal stay in the order of the list.
\<close>

theorem fingerprint_ignores_dependsOn_order:
  assumes "consistentCompare (localeCompare P)"
    and "\<forall>x \<in> set (story_dependsOn a). \<forall>y \<in> set (story_dependsOn a).
           localeCompare P x y \<le> 0 \<longrightarrow> localeCompare P y x \<le> 0 \<longrightarrow> x = y"
    and "story_id a = story_id b" "story_title a = story_title b"
    and "story_status a = story_status b" "story_description a = story_description b"
    and "story_acceptanceCriteria a = story_acceptanceCriteria b"
    and "mset (story_dependsOn a) = mset (story_dependsOn b)"
  shows "createStoryFingerprint P a = createStoryFingerprint P b"
proof -
  have "js_sort (localeCompare P) (story_dependsOn a) = js_sort (localeCompare P) (story_dependsOn b)"
    using assms(1,2,8) by (rule js_sort_permutation_on)
  then have "normalizedStory P a = normalizedStory P b"
    unfolding normalizedStory_def using assms(3-7) by simp
  then show ?thesis by (simp add: createStoryFingerprint_def)
qed

theorem fingerprint_ignores_dependsOn_order_witness:
  "consistentCompare (localeCompare refPlatform)
   \<and> mset [''US-002'', ''US-001''] = mset [''US-001'', ''US-002'']
   \<and> createStoryFingerprint refPlatform
         ((sampleStory ''US-007'' ''T'' ''D'')\<lparr> story_dependsOn := [''US-002'', ''US-001''] \<rparr>)
       = createStoryFingerprint refPlatform
         ((sampleStory ''US-007'' ''T'' ''D'')\<lparr> story_dependsOn := [''US-001'', ''US-002''] \<rparr>)
   \<and> createStoryFingerprint ignoringPlatform
         ((sampleStory ''US-007'' ''T'' ''D'')\<lparr> story_dependsOn := [''US-002'', ''US-001''] \<rparr>)
       = createStoryFingerprint ignoringPlatform
         ((sampleStory ''US-007'' ''T'' ''D'')\<lparr> story_dependsOn := [''US-001'', ''US-002''] \<rparr>)"
proof -
  let ?a = "(sampleStory ''US-007'' ''T'' ''D'')\<lparr> story_dependsOn := [''US-002'', ''US-001''] \<rparr>"
  let ?b = "(sampleStory ''US-007'' ''T'' ''D'')\<lparr> story_dependsOn := [''US-001'', ''US-002''] \<rparr>"
  have m: "mset (story_dependsOn ?a) = mset (story_dependsOn ?b)"
    by simp
  have d: "\<forall>x \<in> set (story_dependsOn ?a). \<forall>y \<in> set (story_dependsOn ?a).
           localeCompare refPlatform x y \<le> 0 \<longrightarrow> localeCompare refPlatform y x \<le> 0 \<longrightarrow> x = y"
    using distinguishing_refPlatform unfolding distinguishingCompare_def by blast
  have d': "\<forall>x \<in> set (story_dependsOn ?a). \<forall>y \<in> set (story_dependsOn ?a).
           localeCompare ignoringPlatform x y \<le> 0 \<longrightarrow> localeCompare ignoringPlatform y x \<le> 0
             \<longrightarrow> x = y"
    by (simp add: ignoringPlatform_def ignoringCompare_def)
  have "createStoryFingerprint refPlatform ?a = createStoryFingerprint refPlatform ?b"
    by (rule fingerprint_ignores_dependsOn_order [OF consistent_refPlatform d _ _ _ _ _ m])
       simp_all
  moreover have "createStoryFingerprint ignoringPlatform ?a = createStoryFingerprint ignoringPlatform ?b"
    by (rule fingerprint_ignores_dependsOn_order [OF consistent_ignoringPlatform d' _ _ _ _ _ m])
       simp_all
  ultimately show ?thesis using consistent_refPlatform by simp
qed

theorem fingerprint_depends_on_order_of_ties:
  "story_id ((sampleStory ''US-007'' ''T'' ''D'')\<lparr> story_dependsOn := [''US-001'', ''US-001'' @ [CHR 0x01]] \<rparr>)
     = story_id ((sampleStory ''US-007'' ''T'' ''D'')\<lparr> story_dependsOn := [''US-001'' @ [CHR 0x01], ''US-001''] \<rparr>)
   \<and> mset [''US-001'', ''US-001'' @ [CHR 0x01]] = mset [''US-001'' @ [CHR 0x01], ''US-001'']
   \<and> localeCompare ignoringPlatform ''US-001'' (''US-001'' @ [CHR 0x01]) = 0
   \<and> createStoryFingerprint ignoringPlatform
         ((sampleStory ''US-007'' ''T'' ''D'')\<lparr> story_dependsOn := [''US-001'', ''US-001'' @ [CHR 0x01]] \<rparr>)
       \<noteq> createStoryFingerprint ignoringPlatform
         ((sampleStory ''US-007'' ''T'' ''D'')\<lparr> story_dependsOn := [''US-001'' @ [CHR 0x01], ''US-001''] \<rparr>)"
proof (intro conjI)
  show "story_id ((sampleStory ''US-007'' ''T'' ''D'')\<lparr> story_dependsOn := [''US-001'', ''US-001'' @ [CHR 0x01]] \<rparr>)
     = story_id ((sampleStory ''US-007'' ''T'' ''D'')\<lparr> story_dependsOn := [''US-001'' @ [CHR 0x01], ''US-001''] \<rparr>)"
    by simp
  show "mset [''US-001'', ''US-001'' @ [CHR 0x01]] = mset [''US-001'' @ [CHR 0x01], ''US-001'']"
    by simp
  show "localeCompare ignoringPlatform ''US-001'' (''US-001'' @ [CHR 0x01]) = 0"
    by code_simp
  show "createStoryFingerprint ignoringPlatform
         ((sampleStory ''US-007'' ''T'' ''D'')\<lparr> story_dependsOn := [''US-001'', ''US-001'' @ [CHR 0x01]] \<rparr>)
       \<noteq> createStoryFingerprint ignoringPlatform
         ((sampleStory ''US-007'' ''T'' ''D'')\<lparr> story_dependsOn := [''US-001'' @ [CHR 0x01], ''US-001''] \<rparr>)"
    by code_simp
qed

section \<open>Both sides changed: a timestamp that is no date\<close>

text \<open>
  Claim C10.  For a pair as in the previous section, if \<^verbatim>\<open>lastModifiedAt\<close> of the document or
  \<^verbatim>\<open>lastActivityAt\<close> of the card does not parse as a date, \<^verbatim>\<open>compareIsoTimestamps\<close> gives 0
  whatever the other timestamp is, and the plan decides the pair by the preference alone:
  the conflict \<^verbatim>\<open>PRD and Trello updates conflict (equal timestamps)\<close> under \<^verbatim>\<open>none\<close>, an update
  of Trello under \<^verbatim>\<open>prd\<close>, an update of the PRD under \<^verbatim>\<open>trello\<close>.
\<close>

theorem unparsable_timestamp_decided_by_preference:
  assumes "buildPlan P options prdResult board = Inr (plan, ctx)"
    and "createStoryIdCodec (codecMapping (mapping options)) = Inr codec"
    and "env = planEnv P options prdResult board codec"
    and "direction_of options = Two_way"
    and "i \<notin> set (env_conflictedIds env)"
    and "map_of (env_prdById env) i = Some story"
    and "map_of (env_recordById env) i = Some record"
    and "\<not> skippedAsUnchanged env story record"
    and "pairCardMapping env story record = Inr cardMapping"
    and "needsCardUpdate env cardMapping"
    and "needsStoryUpdate env story (pairStoryMapping env record)"
    and "dateParse P (lastModifiedAt prdResult) = None
         \<or> dateParse P (card_lastActivityAt (card record)) = None"
  shows "compareIsoTimestamps P (lastModifiedAt prdResult) (card_lastActivityAt (card record)) = 0
       \<and> (resolveConflictPrefer (conflict options) = Prefer_none \<longrightarrow>
            (\<exists>c \<in> set (conflicts plan). conflict_id c = Some i
               \<and> conflict_reason c = ''PRD and Trello updates conflict (equal timestamps)'')
            \<and> (\<forall>u \<in> set (updates plan). update_id u \<noteq> i))
       \<and> (resolveConflictPrefer (conflict options) = Prefer_prd \<longrightarrow>
            (\<exists>u \<in> set (updates plan). update_id u = i)
            \<and> (\<forall>u \<in> set (updates plan). update_id u = i \<longrightarrow> update_target u = Trello)
            \<and> (\<forall>c \<in> set (conflicts plan). conflict_id c \<noteq> Some i))
       \<and> (resolveConflictPrefer (conflict options) = Prefer_trello \<longrightarrow>
            (\<exists>u \<in> set (updates plan). update_id u = i)
            \<and> (\<forall>u \<in> set (updates plan). update_id u = i \<longrightarrow> update_target u = Prd)
            \<and> (\<forall>c \<in> set (conflicts plan). conflict_id c \<noteq> Some i))"
proof -
  have z: "compareIsoTimestamps P (lastModifiedAt prdResult) (card_lastActivityAt (card record)) = 0"
    using assms(12) by (auto simp: compareIsoTimestamps_def split: option.splits)
  with assms(1-11) have "(resolveConflictPrefer (conflict options) = Prefer_none \<longrightarrow>
            (\<exists>c \<in> set (conflicts plan). conflict_id c = Some i
               \<and> conflict_reason c = ''PRD and Trello updates conflict (equal timestamps)'')
            \<and> (\<forall>u \<in> set (updates plan). update_id u \<noteq> i))
       \<and> (resolveConflictPrefer (conflict options) = Prefer_prd \<longrightarrow>
            (\<exists>u \<in> set (updates plan). update_id u = i)
            \<and> (\<forall>u \<in> set (updates plan). update_id u = i \<longrightarrow> update_target u = Trello)
            \<and> (\<forall>c \<in> set (conflicts plan). conflict_id c \<noteq> Some i))
       \<and> (resolveConflictPrefer (conflict options) = Prefer_trello \<longrightarrow>
            (\<exists>u \<in> set (updates plan). update_id u = i)
            \<and> (\<forall>u \<in> set (updates plan). update_id u = i \<longrightarrow> update_target u = Prd)
            \<and> (\<forall>c \<in> set (conflicts plan). conflict_id c \<noteq> Some i))"
    by (rule tie_in_plan)
  with z show ?thesis by (rule conjI)
qed

theorem unparsable_timestamp_decided_by_preference_witness:
  "(case buildPlan refPlatform (sampleOptions Prefer_trello) samplePrd sampleUndatedBoard of
      Inl _ \<Rightarrow> False
    | Inr (plan, ctx) \<Rightarrow> compareIsoTimestamps refPlatform (lastModifiedAt samplePrd) ''some day'' = 0
        \<and> (\<exists>u \<in> set (updates plan). update_id u = ''US-001'' \<and> update_target u = Prd))"
proof -
  let ?o = "sampleOptions Prefer_trello"
  let ?env = "planEnv refPlatform ?o samplePrd sampleUndatedBoard sampleCodec"
  let ?story = "sampleStory ''US-001'' ''PRD Title'' ''PRD description''"
  let ?rec = "\<lparr> card = sampleCard ''card-1'' ''[US-001] Trello Title'' ''Trello description''
                            ''some day'',
                   storyId = ''US-001'', storyTitle = ''Trello Title'' \<rparr>"
  have ok: "\<not> isl (buildPlan refPlatform ?o samplePrd sampleUndatedBoard)"
    by code_simp
  then obtain plan ctx where b: "buildPlan refPlatform ?o samplePrd sampleUndatedBoard = Inr (plan, ctx)"
    by (cases "buildPlan refPlatform ?o samplePrd sampleUndatedBoard") auto
  have c: "createStoryIdCodec (codecMapping (mapping ?o)) = Inr sampleCodec"
    by code_simp
  have d: "direction_of ?o = Two_way"
    by code_simp
  have n: "''US-001'' \<notin> set (env_conflictedIds ?env)"
    by code_simp
  have s: "map_of (env_prdById ?env) ''US-001'' = Some ?story"
    by code_simp
  have r: "map_of (env_recordById ?env) ''US-001'' = Some ?rec"
    by code_simp
  have u: "\<not> skippedAsUnchanged ?env ?story ?rec"
    by code_simp
  have "\<not> isl (pairCardMapping ?env ?story ?rec)"
    by code_simp
  then have m: "pairCardMapping ?env ?story ?rec = Inr (projr (pairCardMapping ?env ?story ?rec))"
    by simp
  have nc: "needsCardUpdate ?env (projr (pairCardMapping ?env ?story ?rec))"
    by code_simp
  have ns: "needsStoryUpdate ?env ?story (pairStoryMapping ?env ?rec)"
    by code_simp
  have p: "resolveConflictPrefer (conflict ?o) = Prefer_trello"
    by code_simp
  have t: "dateParse refPlatform (lastModifiedAt samplePrd) = None
         \<or> dateParse refPlatform (card_lastActivityAt (card ?rec)) = None"
    by code_simp
  show ?thesis
    using unparsable_timestamp_decided_by_preference [OF b c refl d n s r u m nc ns t] p b
    by (auto simp: sampleCard_def)
qed

end
